theory Spec2Isabelle
  imports Complex_Main "HOL-Library.AList" "HOL-Library.Finite_Map"
begin

section \<open>Element model (internal/models)\<close>

text \<open>
  Go's \<open>float64\<close> coordinates are modelled by \<^typ>\<open>real\<close> (rounding, infinities and
  NaN are outside the model), Go's \<open>int\<close> by \<^typ>\<open>int\<close>, and \<open>ElementType\<close>, which
  the source declares as \<open>type ElementType string\<close>, by \<^typ>\<open>string\<close> with the six
  declared constants.
\<close>

type_synonym ElementType = string

definition ElementTypeText :: ElementType where "ElementTypeText = ''text''"
definition ElementTypeBox :: ElementType where "ElementTypeBox = ''box''"
definition ElementTypeImage :: ElementType where "ElementTypeImage = ''image''"
definition ElementTypeQR :: ElementType where "ElementTypeQR = ''qr''"
definition ElementTypeBarcode :: ElementType where "ElementTypeBarcode = ''barcode''"
definition ElementTypeTable :: ElementType where "ElementTypeTable = ''table''"

record Position =
  Position_X :: real
  Position_Y :: real

record Size =
  Size_Width :: real
  Size_Height :: real

record Font =
  Font_Family :: string
  Font_Style :: string
  Font_Size :: real

record Color =
  Color_R :: int
  Color_G :: int
  Color_B :: int
  Color_IsSet :: bool

record Style =
  Style_Font :: Font
  Style_Border :: string
  Style_Align :: string
  Style_RotateDegree :: int
  Style_RotateType :: string
  Style_TextColor :: Color
  Style_Background :: Color
  Style_ImageSrc :: string

record TableColumn =
  TableColumn_Field :: string
  TableColumn_Width :: real
  TableColumn_Align :: string
  TableColumn_FontStyle :: string

record PDFElement =
  Type :: ElementType
  Method :: string
  Text :: string
  VariableName :: string
  Position :: Position
  Size :: Size
  Style :: Style
  LoopField :: string
  Columns :: "TableColumn list"
  QRContent :: string
  BarcodeFormat :: string
  BarcodeContent :: string

text \<open>The errors \<open>Validate\<close> builds with \<open>fmt.Errorf\<close>, one constructor per message.\<close>

datatype ValidateError =
    TypeRequired
  | InvalidPosition real real
  | InvalidSize real real
  | QRRequiresContent
  | BarcodeRequiresContent
  | ImageRequiresSource

text \<open>
  \<open>Validate\<close> has a pointer receiver and assigns \<open>e.BarcodeFormat\<close>, so the model
  returns the element as the call leaves it together with the error (\<open>None\<close> is Go's
  \<open>nil\<close>).
\<close>

definition Validate :: "PDFElement \<Rightarrow> ValidateError option \<times> PDFElement" where
  "Validate e =
    (if Type e = [] then (Some TypeRequired, e)
     else if Position_X (Position e) < 0 \<or> Position_Y (Position e) < 0
       then (Some (InvalidPosition (Position_X (Position e)) (Position_Y (Position e))), e)
     else if Size_Width (Size e) \<le> 0 \<or> Size_Height (Size e) \<le> 0
       then (Some (InvalidSize (Size_Width (Size e)) (Size_Height (Size e))), e)
     else if Type e = ElementTypeQR then
       (if QRContent e = [] \<and> VariableName e = [] then (Some QRRequiresContent, e)
        else (None, e))
     else if Type e = ElementTypeBarcode then
       (if BarcodeContent e = [] \<and> VariableName e = [] then (Some BarcodeRequiresContent, e)
        else if BarcodeFormat e = [] then (None, e\<lparr>BarcodeFormat := ''Code128''\<rparr>)
        else (None, e))
     else if Type e = ElementTypeImage then
       (if Style_ImageSrc (Style e) = [] \<and> VariableName e = [] then (Some ImageRequiresSource, e)
        else (None, e))
     else (None, e))"

definition IsLoopElement :: "PDFElement \<Rightarrow> bool" where
  "IsLoopElement e \<longleftrightarrow> LoopField e \<noteq> []"

text \<open>
  \<open>Clone\<close> copies the struct and gives the copy its own \<open>Columns\<close> array; values are
  immutable in HOL, so the copy is the element itself.
\<close>

definition Clone :: "PDFElement \<Rightarrow> PDFElement" where
  "Clone e = e"

section \<open>Request data and the library functions the code calls\<close>

text \<open>
  Request data is a decoded JSON document, Go's \<open>map[string]interface{}\<close>.  Such a
  map is modelled by an association list whose order stands for the order in which
  a \<open>range\<close> loop happens to visit the keys (Go leaves that order unspecified), and
  whose lookup is \<^const>\<open>map_of\<close>.
\<close>

datatype Value =
    VNil
  | VString string
  | VNumber real
  | VBool bool
  | VArray "Value list"
  | VMap "(string \<times> Value) list"

text \<open>
  Functions of the Go standard library whose result the code only passes on are
  parameters of the model, collected in one record; every theorem below holds for
  every value of these parameters.  \<open>strconv_ParseFloat\<close> and \<open>strconv_Atoi\<close> return
  \<open>None\<close> where Go returns an error; \<open>fmt_Sprint\<close> is \<open>fmt.Sprintf("%v", v)\<close>;
  \<open>md5_hex\<close> is the hexadecimal MD5 digest of the bytes written; \<open>json_Marshal\<close> is
  \<open>PDFElement.String\<close>, that is \<open>json.MarshalIndent\<close>.
\<close>

record Lib =
  strconv_ParseFloat :: "string \<Rightarrow> real option"
  strconv_Atoi :: "string \<Rightarrow> int option"
  strings_ToLower :: "string \<Rightarrow> string"
  strings_ToUpper :: "string \<Rightarrow> string"
  strings_TrimSpace :: "string \<Rightarrow> string"
  strings_EqualFold :: "string \<Rightarrow> string \<Rightarrow> bool"
  fmt_Sprint :: "Value \<Rightarrow> string"
  md5_hex :: "string \<Rightarrow> string"
  json_Marshal :: "PDFElement \<Rightarrow> string"

section \<open>File system and clock\<close>

text \<open>
  A template file is its modification time and its content as \<open>encoding/csv\<close>
  tokenises it: one item per record, either the record's fields or a line the reader
  rejects with a syntax error.  Instants and durations are integers (nanoseconds).
  \<open>os.Stat\<close> and \<open>os.Open\<close> fail on a path that names no file, and always on the
  empty path.
\<close>

datatype csv_line = Fields "string list" | BadLine

record File =
  ModTime :: int
  Contents :: "csv_line list"

type_synonym FS = "string \<Rightarrow> File option"

definition os_Stat :: "FS \<Rightarrow> string \<Rightarrow> File option" where
  "os_Stat fs name = (if name = [] then None else fs name)"

definition os_Open :: "FS \<Rightarrow> string \<Rightarrow> File option" where
  "os_Open fs name = (if name = [] then None else fs name)"

section \<open>Template cache (internal/cache/template\_cache.go)\<close>

record CacheEntry =
  Elements :: "PDFElement list"
  Hash :: string
  CreatedAt :: int
  AccessedAt :: int
  FileModTime :: int

record TemplateCache =
  entries :: "(string, CacheEntry) fmap"
  maxSize :: int
  ttl :: int

definition NewTemplateCache :: "int \<Rightarrow> int \<Rightarrow> TemplateCache" where
  "NewTemplateCache maxSize' ttl' = \<lparr>entries = fmempty, maxSize = maxSize', ttl = ttl'\<rparr>"

text \<open>\<open>len(tc.entries)\<close>.\<close>

definition len_entries :: "TemplateCache \<Rightarrow> int" where
  "len_entries tc = int (card (fmdom' (entries tc)))"

text \<open>
  \<open>Get\<close> returns the pair the Go method returns and the cache as the call leaves it;
  \<open>now\<close> is the reading of the clock during the call (the readings one call takes
  are taken to be the same instant, in \<open>Set\<close> too).  The map holds pointers to
  entries, so the assignment to \<open>entry.AccessedAt\<close> changes the stored entry.
\<close>

definition TemplateCache_Get ::
  "FS \<Rightarrow> int \<Rightarrow> TemplateCache \<Rightarrow> string \<Rightarrow> (PDFElement list \<times> bool) \<times> TemplateCache" where
  "TemplateCache_Get fs now tc filePath =
    (case fmlookup (entries tc) filePath of
       None \<Rightarrow> (([], False), tc)
     | Some entry \<Rightarrow>
        (case os_Stat fs filePath of
           None \<Rightarrow> (([], False), tc\<lparr>entries := fmdrop filePath (entries tc)\<rparr>)
         | Some fileInfo \<Rightarrow>
            if ModTime fileInfo > FileModTime entry
              then (([], False), tc\<lparr>entries := fmdrop filePath (entries tc)\<rparr>)
            else if now - CreatedAt entry > ttl tc
              then (([], False), tc\<lparr>entries := fmdrop filePath (entries tc)\<rparr>)
            else ((Elements entry, True),
                  tc\<lparr>entries := fmupd filePath (entry\<lparr>AccessedAt := now\<rparr>) (entries tc)\<rparr>)))"

definition TemplateCache_calculateHash :: "Lib \<Rightarrow> PDFElement list \<Rightarrow> string" where
  "TemplateCache_calculateHash L elements = md5_hex L (concat (map (json_Marshal L) elements))"

text \<open>
  \<open>evictOldest\<close> ranges over the map; \<open>order\<close> is the order in which the runtime
  visits the keys.  The scan keeps \<open>oldestKey\<close> and \<open>oldestTime\<close>; the zero
  \<open>time.Time\<close> that \<open>oldestTime\<close> starts with is never compared, because
  \<open>oldestKey\<close> is still empty then.
\<close>

fun evictOldest_scan ::
  "(string, CacheEntry) fmap \<Rightarrow> string list \<Rightarrow> string \<times> int \<Rightarrow> string \<times> int" where
  "evictOldest_scan m [] acc = acc"
| "evictOldest_scan m (key # keys) (oldestKey, oldestTime) =
     (case fmlookup m key of
        None \<Rightarrow> evictOldest_scan m keys (oldestKey, oldestTime)
      | Some entry \<Rightarrow>
          if oldestKey = [] \<or> AccessedAt entry < oldestTime
          then evictOldest_scan m keys (key, AccessedAt entry)
          else evictOldest_scan m keys (oldestKey, oldestTime))"

definition TemplateCache_evictOldest :: "string list \<Rightarrow> TemplateCache \<Rightarrow> TemplateCache" where
  "TemplateCache_evictOldest order tc =
    (let oldestKey = fst (evictOldest_scan (entries tc) order ([], 0))
     in if oldestKey \<noteq> [] then tc\<lparr>entries := fmdrop oldestKey (entries tc)\<rparr> else tc)"

definition TemplateCache_Set ::
  "Lib \<Rightarrow> FS \<Rightarrow> int \<Rightarrow> string list \<Rightarrow> TemplateCache \<Rightarrow> string \<Rightarrow> PDFElement list \<Rightarrow> TemplateCache"
  where
  "TemplateCache_Set L fs now order tc filePath elements =
    (case os_Stat fs filePath of
       None \<Rightarrow> tc
     | Some fileInfo \<Rightarrow>
        (let hash = TemplateCache_calculateHash L elements;
             entry = \<lparr>Elements = elements, Hash = hash, CreatedAt = now, AccessedAt = now,
                      FileModTime = ModTime fileInfo\<rparr>;
             tc' = tc\<lparr>entries := fmupd filePath entry (entries tc)\<rparr>
         in if len_entries tc' > maxSize tc' then TemplateCache_evictOldest order tc' else tc'))"

text \<open>One pass of the \<open>cleanup\<close> goroutine's loop body, and \<open>Clear\<close>.\<close>

definition TemplateCache_cleanup_pass :: "int \<Rightarrow> TemplateCache \<Rightarrow> TemplateCache" where
  "TemplateCache_cleanup_pass now tc =
    tc\<lparr>entries := fmfilter (\<lambda>key. case fmlookup (entries tc) key of
                                      None \<Rightarrow> False
                                    | Some entry \<Rightarrow> \<not> now - CreatedAt entry > ttl tc) (entries tc)\<rparr>"

definition TemplateCache_Clear :: "TemplateCache \<Rightarrow> TemplateCache" where
  "TemplateCache_Clear tc = tc\<lparr>entries := fmempty\<rparr>"

section \<open>The CSV reader (encoding/csv) as the parser configures it\<close>

text \<open>
  A Go slice \<open>[]string\<close> is a view of a backing array: the model keeps the arrays in
  a store, and a slice is the address of its array and its length (every slice here
  starts at index 0; the length of the stored array is the slice's capacity).
  \<open>None\<close> is the \<open>nil\<close> slice.
\<close>

type_synonym store = "string list list"

record slice =
  slice_array :: nat
  slice_len :: nat

definition cap :: "store \<Rightarrow> slice option \<Rightarrow> nat" where
  "cap h s = (case s of None \<Rightarrow> 0 | Some sl \<Rightarrow> length (h ! slice_array sl))"

definition len :: "slice option \<Rightarrow> nat" where
  "len s = (case s of None \<Rightarrow> 0 | Some sl \<Rightarrow> slice_len sl)"

definition deref :: "store \<Rightarrow> slice option \<Rightarrow> string list" where
  "deref h s = (case s of None \<Rightarrow> [] | Some sl \<Rightarrow> take (slice_len sl) (h ! slice_array sl))"

text \<open>
  The reader, after \<open>encoding/csv\<close>: \<open>FieldsPerRecord\<close> starts at 0, and then
  \<open>Read\<close> sets it to the number of fields of the first record and returns
  \<open>ErrFieldCount\<close>, together with the record, for every later record with another
  number of fields.  With \<open>ReuseRecord\<close> set, \<open>Read\<close> passes its previous result
  \<open>lastRecord\<close> to \<open>readRecord\<close> as destination, which writes the new fields into
  that slice's backing array when its capacity suffices and allocates a new array
  only otherwise.  \<open>TrimLeadingSpace\<close> acts on the tokenisation, which the model
  takes as given.
\<close>

datatype csv_error = EOF | ErrFieldCount | ErrSyntax

record Reader =
  unread :: "csv_line list"
  FieldsPerRecord :: int
  ReuseRecord :: bool
  lastRecord :: "slice option"

definition csv_NewReader :: "csv_line list \<Rightarrow> Reader" where
  "csv_NewReader ls = \<lparr>unread = ls, FieldsPerRecord = 0, ReuseRecord = False, lastRecord = None\<rparr>"

definition readRecord ::
  "store \<Rightarrow> Reader \<Rightarrow> slice option \<Rightarrow> (slice option \<times> csv_error option) \<times> store \<times> Reader" where
  "readRecord h r dst =
    (case unread r of
       [] \<Rightarrow> ((None, Some EOF), h, r)
     | BadLine # rest \<Rightarrow> ((None, Some ErrSyntax), h, r\<lparr>unread := rest\<rparr>)
     | Fields flds # rest \<Rightarrow>
        (let n = length flds;
             (dst', h') =
               (if cap h dst < n
                then (Some \<lparr>slice_array = length h, slice_len = n\<rparr>, h @ [flds])
                else (case dst of
                        None \<Rightarrow> (None, h)
                      | Some sl \<Rightarrow>
                          (Some (sl\<lparr>slice_len := n\<rparr>),
                           h[slice_array sl := flds @ drop n (h ! slice_array sl)])));
             r' = r\<lparr>unread := rest\<rparr>
         in if FieldsPerRecord r' > 0 then
              (if int n \<noteq> FieldsPerRecord r' then ((dst', Some ErrFieldCount), h', r')
               else ((dst', None), h', r'))
            else if FieldsPerRecord r' = 0 then ((dst', None), h', r'\<lparr>FieldsPerRecord := int n\<rparr>)
            else ((dst', None), h', r')))"

definition Reader_Read ::
  "store \<Rightarrow> Reader \<Rightarrow> (slice option \<times> csv_error option) \<times> store \<times> Reader" where
  "Reader_Read h r =
    (if ReuseRecord r then
       (case readRecord h r (lastRecord r) of
          ((record, err), h', r') \<Rightarrow> ((record, err), h', r'\<lparr>lastRecord := record\<rparr>))
     else readRecord h r None)"

section \<open>Helpers (internal/utils/helpers.go)\<close>

definition ParseFloat :: "Lib \<Rightarrow> string \<Rightarrow> real" where
  "ParseFloat L s =
    (if s = [] then 0
     else case strconv_ParseFloat L s of None \<Rightarrow> 0 | Some f \<Rightarrow> f)"

definition ParseInt :: "Lib \<Rightarrow> string \<Rightarrow> int" where
  "ParseInt L s =
    (if s = [] then 0
     else case strconv_Atoi L s of None \<Rightarrow> 0 | Some i \<Rightarrow> i)"

fun Coalesce :: "string list \<Rightarrow> string" where
  "Coalesce [] = []"
| "Coalesce (v # values) = (if v \<noteq> [] then v else Coalesce values)"

definition NormalizeAlign :: "Lib \<Rightarrow> string \<Rightarrow> string" where
  "NormalizeAlign L align =
    (let u = strings_ToUpper L align
     in if u = ''LEFT'' \<or> u = ''L'' then ''L''
        else if u = ''CENTER'' \<or> u = ''C'' then ''C''
        else if u = ''RIGHT'' \<or> u = ''R'' then ''R''
        else ''L'')"

text \<open>
  \<open>strings.Split\<close> with a separator of one byte: the fields between the
  occurrences of the separator, so a string without it gives one field.
\<close>

fun strings_Split :: "string \<Rightarrow> char \<Rightarrow> string list" where
  "strings_Split [] sep = [[]]"
| "strings_Split (c # s) sep =
     (if c = sep then [] # strings_Split s sep
      else (case strings_Split s sep of
              [] \<Rightarrow> [[c]]
            | part # parts \<Rightarrow> (c # part) # parts))"

section \<open>Template parser (internal/parsers/csv\_parser.go)\<close>

datatype ParseError =
    ErrOpen
  | ErrHeaders csv_error
  | ErrRow int csv_error

text \<open>The \<open>map[string]string\<close> of a row, and a lookup that gives \<open>""\<close> for a missing key.\<close>

definition row_data :: "string list \<Rightarrow> string list \<Rightarrow> (string \<rightharpoonup> string)" where
  "row_data headers record = foldl (\<lambda>data (header, v). data(header \<mapsto> v)) Map.empty (zip headers record)"

definition data_at :: "(string \<rightharpoonup> string) \<Rightarrow> string \<Rightarrow> string" where
  "data_at data key = (case data key of None \<Rightarrow> [] | Some v \<Rightarrow> v)"

definition parseElementType :: "Lib \<Rightarrow> string \<Rightarrow> string \<Rightarrow> ElementType" where
  "parseElementType L typeField methodField =
    (let l = strings_ToLower L typeField
     in if typeField \<noteq> [] \<and> l = ''text'' then ElementTypeText
        else if typeField \<noteq> [] \<and> l = ''box'' then ElementTypeBox
        else if typeField \<noteq> [] \<and> l = ''image'' then ElementTypeImage
        else if typeField \<noteq> [] \<and> l = ''qr'' then ElementTypeQR
        else if typeField \<noteq> [] \<and> l = ''barcode'' then ElementTypeBarcode
        else if typeField \<noteq> [] \<and> l = ''table'' then ElementTypeTable
        else if methodField = ''MultiCell'' \<or> methodField = ''Cell'' then ElementTypeText
        else if methodField = ''Rect'' then ElementTypeBox
        else if methodField = ''Image'' then ElementTypeImage
        else if methodField = ''QR'' then ElementTypeQR
        else if methodField = ''Barcode'' then ElementTypeBarcode
        else ElementTypeText)"

definition parseColumn :: "Lib \<Rightarrow> string \<Rightarrow> TableColumn list" where
  "parseColumn L part =
    (let columnParts = strings_Split (strings_TrimSpace L part) CHR '':''
     in if length columnParts \<ge> 2 then
          [\<lparr>TableColumn_Field = strings_TrimSpace L (columnParts ! 0),
            TableColumn_Width = ParseFloat L (columnParts ! 1),
            TableColumn_Align =
              (if length columnParts \<ge> 3 then NormalizeAlign L (columnParts ! 2) else ''L''),
            TableColumn_FontStyle = (if length columnParts \<ge> 4 then columnParts ! 3 else [])\<rparr>]
        else [])"

definition parseColumns :: "Lib \<Rightarrow> string \<Rightarrow> TableColumn list" where
  "parseColumns L columnsData = concat (map (parseColumn L) (strings_Split columnsData CHR '',''))"

text \<open>
  \<open>createElementFromRow\<close> never returns an error (nor does \<open>parseColumns\<close>), so
  the model returns the element.
\<close>

definition createElementFromRow :: "Lib \<Rightarrow> string list \<Rightarrow> string list \<Rightarrow> int \<Rightarrow> PDFElement" where
  "createElementFromRow L headers record rowIndex =
    (let data = row_data headers record;
         size0 = ParseFloat L (data_at data ''fontSize'');
         columnsData = data_at data ''columns''
     in \<lparr>Type = parseElementType L (data_at data ''type'') (data_at data ''method''),
         Method = data_at data ''method'',
         Text = data_at data ''text'',
         VariableName = data_at data ''variableName'',
         Position = \<lparr>Position_X = ParseFloat L (data_at data ''x''),
                      Position_Y = ParseFloat L (data_at data ''y'')\<rparr>,
         Size = \<lparr>Size_Width = ParseFloat L (data_at data ''width''),
                  Size_Height = ParseFloat L (data_at data ''height'')\<rparr>,
         Style = \<lparr>Style_Font = \<lparr>Font_Family = Coalesce [data_at data ''font'', ''Tahoma''],
                                  Font_Style = data_at data ''fontStyle'',
                                  Font_Size = (if size0 = 0 then 10 else size0)\<rparr>,
                   Style_Border = data_at data ''border'',
                   Style_Align = NormalizeAlign L (data_at data ''align''),
                   Style_RotateDegree = ParseInt L (data_at data ''rotateDegree''),
                   Style_RotateType = data_at data ''rotateType'',
                   Style_TextColor = \<lparr>Color_R = ParseInt L (data_at data ''colorR''),
                                       Color_G = ParseInt L (data_at data ''colorG''),
                                       Color_B = ParseInt L (data_at data ''colorB''),
                                       Color_IsSet = (data_at data ''colorR'' \<noteq> [] \<or> data_at data ''colorG'' \<noteq> []
                                                      \<or> data_at data ''colorB'' \<noteq> [])\<rparr>,
                   Style_Background = \<lparr>Color_R = ParseInt L (data_at data ''bgColorR''),
                                        Color_G = ParseInt L (data_at data ''bgColorG''),
                                        Color_B = ParseInt L (data_at data ''bgColorB''),
                                        Color_IsSet = (data_at data ''background'' = ''1'')\<rparr>,
                   Style_ImageSrc = data_at data ''imageSrc''\<rparr>,
         LoopField = data_at data ''loopField'',
         Columns = (if columnsData \<noteq> [] then parseColumns L columnsData else []),
         QRContent = data_at data ''qrContent'',
         BarcodeFormat = Coalesce [data_at data ''barcodeFormat'', ''Code128''],
         BarcodeContent = data_at data ''barcodeContent''\<rparr>)"

text \<open>
  The row loop of \<open>parseCSVFile\<close>.  \<open>headers\<close> is the slice the first \<open>Read\<close> returned;
  the loop reads it through the store each time it builds an element.
\<close>

function parseRows ::
  "Lib \<Rightarrow> slice option \<Rightarrow> store \<Rightarrow> Reader \<Rightarrow> int \<Rightarrow> PDFElement list \<Rightarrow> ParseError + PDFElement list"
  where
  "parseRows L headers h r rowIndex elements =
    (case Reader_Read h r of
       ((record, Some EOF), h', r') \<Rightarrow> Inr elements
     | ((record, Some err), h', r') \<Rightarrow> Inl (ErrRow (rowIndex + 1) err)
     | ((record, None), h', r') \<Rightarrow>
         if len record \<noteq> len headers then parseRows L headers h' r' (rowIndex + 1) elements
         else (case Validate (createElementFromRow L (deref h' headers) (deref h' record) (rowIndex + 1)) of
                 (Some verr, element) \<Rightarrow> parseRows L headers h' r' (rowIndex + 1) elements
               | (None, element) \<Rightarrow> parseRows L headers h' r' (rowIndex + 1) (elements @ [element])))"
  by pat_completeness auto

lemma readRecord_consumes:
  "readRecord h r dst = ((record, None), h', r') \<Longrightarrow> length (unread r') < length (unread r)"
  unfolding readRecord_def
  by (auto split: list.splits csv_line.splits if_splits prod.splits option.splits simp: Let_def)

lemma Reader_Read_consumes:
  "Reader_Read h r = ((record, None), h', r') \<Longrightarrow> length (unread r') < length (unread r)"
  unfolding Reader_Read_def
  by (auto split: if_splits prod.splits dest: readRecord_consumes)

termination parseRows
  by (relation "measure (\<lambda>(L, headers, h, r, rowIndex, elements). length (unread r))")
     (auto dest: Reader_Read_consumes[OF sym])

declare parseRows.simps [simp del]

definition parseCSVFile :: "Lib \<Rightarrow> FS \<Rightarrow> string \<Rightarrow> ParseError + PDFElement list" where
  "parseCSVFile L fs filePath =
    (case os_Open fs filePath of
       None \<Rightarrow> Inl ErrOpen
     | Some file \<Rightarrow>
        (let reader = (csv_NewReader (Contents file))\<lparr>ReuseRecord := True\<rparr>
         in case Reader_Read [] reader of
              ((headers, Some err), h, r) \<Rightarrow> Inl (ErrHeaders err)
            | ((headers, None), h, r) \<Rightarrow> parseRows L headers h r 1 []))"

text \<open>
  \<open>ParseCSV\<close>: the cache is consulted at \<open>t_get\<close> and filled at \<open>t_set\<close>; the
  file system is the same throughout one call.
\<close>

definition CSVParser_ParseCSV ::
  "Lib \<Rightarrow> FS \<Rightarrow> int \<Rightarrow> int \<Rightarrow> string list \<Rightarrow> TemplateCache \<Rightarrow> string
     \<Rightarrow> (ParseError + PDFElement list) \<times> TemplateCache" where
  "CSVParser_ParseCSV L fs t_get t_set order tc filePath =
    (case TemplateCache_Get fs t_get tc filePath of
       ((elements, True), tc') \<Rightarrow> (Inr elements, tc')
     | ((elements, False), tc') \<Rightarrow>
         (case parseCSVFile L fs filePath of
            Inl err \<Rightarrow> (Inl err, tc')
          | Inr parsed \<Rightarrow> (Inr parsed, TemplateCache_Set L fs t_set order tc' filePath parsed)))"

section \<open>A library instance and sample inputs for evaluation\<close>

text \<open>
  The theorems hold for every \<^typ>\<open>Lib\<close>.  To evaluate the model on concrete inputs
  the parameters are instantiated with \<open>test_lib\<close>: decimal integers with an optional
  minus sign for \<open>strconv\<close>, ASCII letters and blanks for \<open>strings\<close>, a string for
  itself in \<open>fmt_Sprint\<close>; the digest and the JSON text are stand-ins (the identity,
  and the element's type and text).
\<close>

definition digit_of :: "char \<Rightarrow> nat option" where
  "digit_of c = map_of (zip ''0123456789'' [0, 1, 2, 3, 4, 5, 6, 7, 8, 9]) c"

fun digits_value :: "nat \<Rightarrow> string \<Rightarrow> nat option" where
  "digits_value acc [] = Some acc"
| "digits_value acc (c # s) =
     (case digit_of c of None \<Rightarrow> None | Some d \<Rightarrow> digits_value (10 * acc + d) s)"

definition decimal :: "string \<Rightarrow> int option" where
  "decimal s =
    (case s of
       [] \<Rightarrow> None
     | c # t \<Rightarrow>
        if c = CHR ''-'' then (if t = [] then None else map_option (\<lambda>n. - int n) (digits_value 0 t))
        else map_option int (digits_value 0 s))"

definition ascii_lower :: "char \<Rightarrow> char" where
  "ascii_lower c =
    (case map_of (zip ''ABCDEFGHIJKLMNOPQRSTUVWXYZ'' ''abcdefghijklmnopqrstuvwxyz'') c of
       None \<Rightarrow> c | Some d \<Rightarrow> d)"

definition ascii_upper :: "char \<Rightarrow> char" where
  "ascii_upper c =
    (case map_of (zip ''abcdefghijklmnopqrstuvwxyz'' ''ABCDEFGHIJKLMNOPQRSTUVWXYZ'') c of
       None \<Rightarrow> c | Some d \<Rightarrow> d)"

definition ascii_trim :: "string \<Rightarrow> string" where
  "ascii_trim s = rev (dropWhile (\<lambda>c. c = CHR '' '') (rev (dropWhile (\<lambda>c. c = CHR '' '') s)))"

fun sprint_string :: "Value \<Rightarrow> string" where
  "sprint_string (VString s) = s"
| "sprint_string v = ''<value>''"

definition test_lib :: Lib where
  "test_lib =
    \<lparr>strconv_ParseFloat = (\<lambda>s. map_option real_of_int (decimal s)),
     strconv_Atoi = decimal,
     strings_ToLower = map ascii_lower,
     strings_ToUpper = map ascii_upper,
     strings_TrimSpace = ascii_trim,
     strings_EqualFold = (\<lambda>s t. map ascii_lower s = map ascii_lower t),
     fmt_Sprint = sprint_string,
     md5_hex = (\<lambda>bytes. bytes),
     json_Marshal = (\<lambda>e. Type e @ '':'' @ Text e)\<rparr>"

section \<open>Predicates used to state the cache properties\<close>

text \<open>
  The entry cached for \<open>filePath\<close>, if there is one, holds what parsing the file as
  it is now gives: the state of the cache while the source is left unmodified.
\<close>

definition cache_consistent :: "Lib \<Rightarrow> FS \<Rightarrow> TemplateCache \<Rightarrow> string \<Rightarrow> bool" where
  "cache_consistent L fs tc filePath =
    (case fmlookup (entries tc) filePath of
       None \<Rightarrow> True
     | Some entry \<Rightarrow> parseCSVFile L fs filePath = Inr (Elements entry))"

text \<open>
  A sequence of \<open>Set\<close> calls, each with the file system and clock it sees and the
  order in which its \<open>range\<close> loop visits the keys; \<open>orders_cover\<close> says that each
  of these orders visits every key the map holds when the loop runs.
\<close>

type_synonym SetCall = "FS \<times> int \<times> string list \<times> string \<times> PDFElement list"

fun Set_calls :: "Lib \<Rightarrow> TemplateCache \<Rightarrow> SetCall list \<Rightarrow> TemplateCache" where
  "Set_calls L tc [] = tc"
| "Set_calls L tc ((fs, now, order, filePath, elements) # calls) =
     Set_calls L (TemplateCache_Set L fs now order tc filePath elements) calls"

fun orders_cover :: "Lib \<Rightarrow> TemplateCache \<Rightarrow> SetCall list \<Rightarrow> bool" where
  "orders_cover L tc [] = True"
| "orders_cover L tc ((fs, now, order, filePath, elements) # calls) =
     (insert filePath (fmdom' (entries tc)) \<subseteq> set order
      \<and> orders_cover L (TemplateCache_Set L fs now order tc filePath elements) calls)"


text \<open>
  The invariant of the scan in \<open>evictOldest\<close>, after the keys \<open>V\<close> have been visited:
  either no visited key is in the map and \<open>oldestKey\<close> is still empty, or
  \<open>oldestKey\<close> is a key of the map, \<open>oldestTime\<close> is its access time, and no visited
  entry was accessed earlier.
\<close>

definition scan_ok :: "(string, CacheEntry) fmap \<Rightarrow> string set \<Rightarrow> string \<times> int \<Rightarrow> bool" where
  "scan_ok m V acc \<longleftrightarrow>
     (fst acc = [] \<and> V \<inter> fmdom' m = {})
     \<or> (fst acc \<noteq> [] \<and> (\<exists>e. fmlookup m (fst acc) = Some e \<and> AccessedAt e = snd acc)
          \<and> (\<forall>k' e'. k' \<in> V \<longrightarrow> fmlookup m k' = Some e' \<longrightarrow> snd acc \<le> AccessedAt e'))"


text \<open>
  The map as \<open>Set\<close> has it after the assignment \<open>tc.entries[filePath] = entry\<close> and
  before it evicts.
\<close>

definition Set_inserted ::
  "Lib \<Rightarrow> int \<Rightarrow> File \<Rightarrow> TemplateCache \<Rightarrow> string \<Rightarrow> PDFElement list \<Rightarrow> (string, CacheEntry) fmap" where
  "Set_inserted L now fileInfo tc filePath elements =
    fmupd filePath
      \<lparr>Elements = elements, Hash = TemplateCache_calculateHash L elements, CreatedAt = now,
       AccessedAt = now, FileModTime = ModTime fileInfo\<rparr> (entries tc)"

text \<open>Two template files and two sequences of elements for the evaluations below.\<close>

definition sample_fs :: FS where
  "sample_fs = (\<lambda>name.
     if name = ''a.csv'' then Some \<lparr>ModTime = 5, Contents =
        [Fields [''type'', ''x'', ''y'', ''width'', ''height'', ''text''],
         Fields [''text'', ''1'', ''2'', ''30'', ''10'', ''hello'']]\<rparr>
     else if name = ''b.csv'' then Some \<lparr>ModTime = 6, Contents =
        [Fields [''type'', ''x''], Fields [''box'']]\<rparr>
     else None)"


definition sample_calls :: "SetCall list" where
  "sample_calls =
    [(sample_fs, 10, [''a.csv''], ''a.csv'', []),
     (sample_fs, 20, [''b.csv'', ''a.csv''], ''b.csv'', [])]"

definition sample_cache :: TemplateCache where
  "sample_cache = TemplateCache_Set test_lib sample_fs 10 [''a.csv''] (NewTemplateCache 1 100) ''a.csv'' []"

definition sample_entry :: "int \<Rightarrow> int \<Rightarrow> CacheEntry" where
  "sample_entry now modTime =
    \<lparr>Elements = [], Hash = [], CreatedAt = now, AccessedAt = now, FileModTime = modTime\<rparr>"


definition sample_element :: PDFElement where
  "sample_element =
    \<lparr>Type = ''text'', Method = ''Cell'', Text = ''hello'', VariableName = [],
     Position = \<lparr>Position_X = 1, Position_Y = 2\<rparr>,
     Size = \<lparr>Size_Width = 30, Size_Height = 10\<rparr>,
     Style = \<lparr>Style_Font = \<lparr>Font_Family = ''Tahoma'', Font_Style = [], Font_Size = 10\<rparr>,
               Style_Border = [], Style_Align = ''L'', Style_RotateDegree = 0, Style_RotateType = [],
               Style_TextColor = \<lparr>Color_R = 0, Color_G = 0, Color_B = 0, Color_IsSet = False\<rparr>,
               Style_Background = \<lparr>Color_R = 0, Color_G = 0, Color_B = 0, Color_IsSet = False\<rparr>,
               Style_ImageSrc = []\<rparr>,
     LoopField = [], Columns = [], QRContent = [], BarcodeFormat = ''Code128'',
     BarcodeContent = []\<rparr>"

definition filled_cache :: TemplateCache where
  "filled_cache =
    TemplateCache_Set test_lib sample_fs 10 [''a.csv''] (NewTemplateCache 1 100) ''a.csv''
      [sample_element]"

definition fetched_cache :: TemplateCache where
  "fetched_cache =
    snd (CSVParser_ParseCSV test_lib sample_fs 10 11 [''a.csv''] (NewTemplateCache 1 100) ''a.csv'')"

definition touched_fs :: FS where
  "touched_fs = (\<lambda>name.
     if name = ''a.csv'' then Some \<lparr>ModTime = 7, Contents =
        [Fields [''type'', ''x'', ''y'', ''width'', ''height'', ''text''],
         Fields [''text'', ''1'', ''2'', ''30'', ''10'', ''hello''],
         Fields [''box'', ''1'', ''2'', ''30'', ''10'', ''frame'']]\<rparr>
     else sample_fs name)"


definition sample_barcode :: PDFElement where
  "sample_barcode = sample_element\<lparr>Type := ''barcode'', BarcodeFormat := [], BarcodeContent := ''12345''\<rparr>"

section \<open>The cache's lock: which writes happen under which lock\<close>

text \<open>
  Each method of the cache takes \<open>tc.mu\<close> at its first line, shared (\<open>RLock\<close>) or
  exclusive (\<open>Lock\<close>), and releases it on return.  To state the locking discipline,
  a call is described by the writes it makes to the store, in order, each with the
  mode in which the caller holds the lock at that moment.  The functions below
  follow the control flow of the methods; \<open>replay\<close> applies the writes, and the
  lemmas \<open>Get_steps_replay\<close>, \<open>Set_steps_replay\<close>, \<open>Clear_steps_replay\<close> and
  \<open>cleanup_steps_replay\<close> show that they are the writes of the methods as modelled
  above.
\<close>

datatype lock_mode = Shared | Exclusive

datatype store_write =
    Insert string CacheEntry
  | Delete string
  | Touch string int
  | ClearAll

definition apply_write :: "store_write \<Rightarrow> (string, CacheEntry) fmap \<Rightarrow> (string, CacheEntry) fmap" where
  "apply_write w m =
    (case w of
       Insert key entry \<Rightarrow> fmupd key entry m
     | Delete key \<Rightarrow> fmdrop key m
     | Touch key now \<Rightarrow>
         (case fmlookup m key of None \<Rightarrow> m | Some entry \<Rightarrow> fmupd key (entry\<lparr>AccessedAt := now\<rparr>) m)
     | ClearAll \<Rightarrow> fmempty)"

definition replay :: "(lock_mode \<times> store_write) list \<Rightarrow> (string, CacheEntry) fmap \<Rightarrow> (string, CacheEntry) fmap"
  where
  "replay steps m = foldl (\<lambda>m step. apply_write (snd step) m) m steps"

text \<open>\<open>Get\<close>: \<open>tc.mu.RLock()\<close>, \<open>defer tc.mu.RUnlock()\<close>.\<close>

definition TemplateCache_Get_steps ::
  "FS \<Rightarrow> int \<Rightarrow> TemplateCache \<Rightarrow> string \<Rightarrow> (lock_mode \<times> store_write) list" where
  "TemplateCache_Get_steps fs now tc filePath =
    (case fmlookup (entries tc) filePath of
       None \<Rightarrow> []
     | Some entry \<Rightarrow>
        (case os_Stat fs filePath of
           None \<Rightarrow> [(Shared, Delete filePath)]
         | Some fileInfo \<Rightarrow>
            if ModTime fileInfo > FileModTime entry then [(Shared, Delete filePath)]
            else if now - CreatedAt entry > ttl tc then [(Shared, Delete filePath)]
            else [(Shared, Touch filePath now)]))"

text \<open>\<open>Set\<close> (with \<open>evictOldest\<close>, which it calls holding the lock): \<open>tc.mu.Lock()\<close>.\<close>

definition TemplateCache_Set_steps ::
  "Lib \<Rightarrow> FS \<Rightarrow> int \<Rightarrow> string list \<Rightarrow> TemplateCache \<Rightarrow> string \<Rightarrow> PDFElement list
   \<Rightarrow> (lock_mode \<times> store_write) list" where
  "TemplateCache_Set_steps L fs now order tc filePath elements =
    (case os_Stat fs filePath of
       None \<Rightarrow> []
     | Some fileInfo \<Rightarrow>
        (let entry = \<lparr>Elements = elements, Hash = TemplateCache_calculateHash L elements,
                      CreatedAt = now, AccessedAt = now, FileModTime = ModTime fileInfo\<rparr>;
             tc' = tc\<lparr>entries := fmupd filePath entry (entries tc)\<rparr>;
             oldestKey = fst (evictOldest_scan (entries tc') order ([], 0))
         in (Exclusive, Insert filePath entry)
            # (if len_entries tc' > maxSize tc' \<and> oldestKey \<noteq> [] then [(Exclusive, Delete oldestKey)]
               else [])))"

text \<open>\<open>Clear\<close> and one pass of \<open>cleanup\<close>: \<open>tc.mu.Lock()\<close>.\<close>

definition TemplateCache_Clear_steps :: "TemplateCache \<Rightarrow> (lock_mode \<times> store_write) list" where
  "TemplateCache_Clear_steps tc = [(Exclusive, ClearAll)]"

definition TemplateCache_cleanup_steps ::
  "int \<Rightarrow> string list \<Rightarrow> TemplateCache \<Rightarrow> (lock_mode \<times> store_write) list" where
  "TemplateCache_cleanup_steps now order tc =
    map (\<lambda>key. (Exclusive, Delete key))
      (filter (\<lambda>key. case fmlookup (entries tc) key of
                        None \<Rightarrow> False
                      | Some entry \<Rightarrow> now - CreatedAt entry > ttl tc) order)"

text \<open>The discipline: every write is made holding the lock exclusively.\<close>

definition exclusive_writes :: "(lock_mode \<times> store_write) list \<Rightarrow> bool" where
  "exclusive_writes steps = list_all (\<lambda>step. fst step = Exclusive) steps"

section \<open>Predicates and functions used to state the parser properties\<close>

text \<open>
  The validity predicate of the specification: non-negative position, positive size,
  a type, and the content a QR, barcode or image element needs.
\<close>

definition valid_element :: "PDFElement \<Rightarrow> bool" where
  "valid_element e \<longleftrightarrow>
     Position_X (Position e) \<ge> 0 \<and> Position_Y (Position e) \<ge> 0
     \<and> Size_Width (Size e) > 0 \<and> Size_Height (Size e) > 0
     \<and> Type e \<noteq> []
     \<and> (if Type e = ElementTypeQR then QRContent e \<noteq> [] \<or> VariableName e \<noteq> []
         else if Type e = ElementTypeBarcode then BarcodeContent e \<noteq> [] \<or> VariableName e \<noteq> []
         else if Type e = ElementTypeImage then Style_ImageSrc (Style e) \<noteq> [] \<or> VariableName e \<noteq> []
         else True)"

text \<open>
  What the row loop computes once the header has been read, as a function of the
  records still to come: \<open>n\<close> is the number of header fields.  A record with another
  number of fields, or a malformed line, ends the parse with an error; a record with
  \<open>n\<close> fields gives an element built from the record's fields under the record's own
  fields as column names, because by then the header slice shows the record (see
  \<open>parseRows_reads_record_as_header\<close> below).
\<close>

fun rows_result :: "Lib \<Rightarrow> nat \<Rightarrow> int \<Rightarrow> csv_line list \<Rightarrow> PDFElement list \<Rightarrow> ParseError + PDFElement list"
  where
  "rows_result L n rowIndex [] elements = Inr elements"
| "rows_result L n rowIndex (BadLine # rest) elements = Inl (ErrRow (rowIndex + 1) ErrSyntax)"
| "rows_result L n rowIndex (Fields row # rest) elements =
     (if length row \<noteq> n then Inl (ErrRow (rowIndex + 1) ErrFieldCount)
      else (case Validate (createElementFromRow L row row (rowIndex + 1)) of
              (Some verr, element) \<Rightarrow> rows_result L n (rowIndex + 1) rest elements
            | (None, element) \<Rightarrow> rows_result L n (rowIndex + 1) rest (elements @ [element])))"

text \<open>The state of the reader and the store between two iterations of the row loop.\<close>

definition loop_state :: "nat \<Rightarrow> slice option \<Rightarrow> store \<Rightarrow> Reader \<Rightarrow> bool" where
  "loop_state n headers h r \<longleftrightarrow>
     0 < n \<and> length h = 1 \<and> length (h ! 0) = n
     \<and> headers = Some \<lparr>slice_array = 0, slice_len = n\<rparr>
     \<and> lastRecord r = headers \<and> ReuseRecord r \<and> FieldsPerRecord r = int n"

text \<open>A template with a data row of three fields under a header of six.\<close>

definition short_row_fs :: FS where
  "short_row_fs = (\<lambda>name.
     if name = ''t.csv'' then Some \<lparr>ModTime = 5, Contents =
        [Fields [''type'', ''x'', ''y'', ''width'', ''height'', ''text''],
         Fields [''text'', ''1'', ''2''],
         Fields [''text'', ''1'', ''2'', ''30'', ''10'', ''hello'']]\<rparr>
     else None)"

text \<open>
  A template of three rows under the header the parser documents: a text element of
  width 30, a text element of width 0 and a box of width 30.
\<close>

definition three_rows_header :: "string list" where
  "three_rows_header = [''type'', ''x'', ''y'', ''width'', ''height'', ''text'']"

definition three_rows :: "string list list" where
  "three_rows =
    [[''text'', ''1'', ''2'', ''30'', ''10'', ''hello''],
     [''text'', ''1'', ''2'', ''0'', ''10'', ''hidden''],
     [''box'', ''5'', ''6'', ''30'', ''10'', ''frame'']]"

definition three_rows_fs :: FS where
  "three_rows_fs = (\<lambda>name.
     if name = ''t.csv''
     then Some \<lparr>ModTime = 5, Contents = Fields three_rows_header # map Fields three_rows\<rparr>
     else None)"

section \<open>Variable resolution (internal/utils/helpers.go and the generator's wrapper)\<close>

text \<open>
  \<open>strings.ReplaceAll\<close>: the non-overlapping occurrences of \<open>old\<close> are replaced from
  left to right.  For an empty \<open>old\<close> Go inserts \<open>new\<close> before every UTF-8 sequence and
  at the end; the model does so before every byte, which this code never reaches,
  since every pattern it builds starts with two braces.
\<close>

fun replace_from :: "string \<Rightarrow> string \<Rightarrow> string \<Rightarrow> string" where
  "replace_from old new [] = []"
| "replace_from old new (c # s) =
     (if old \<noteq> [] \<and> take (length old) (c # s) = old
      then new @ replace_from old new (drop (length old) (c # s))
      else c # replace_from old new s)"

definition strings_ReplaceAll :: "string \<Rightarrow> string \<Rightarrow> string \<Rightarrow> string" where
  "strings_ReplaceAll s old new =
    (if old = [] then concat (map (\<lambda>c. new @ [c]) s) @ new else replace_from old new s)"

text \<open>
  \<open>strings.Trim\<close> and \<open>strings.TrimRight\<close> with a cutset of ASCII characters, and
  \<open>strings.HasPrefix\<close> and \<open>strings.HasSuffix\<close> for a pattern of one byte.
\<close>

definition strings_TrimRight :: "string \<Rightarrow> string \<Rightarrow> string" where
  "strings_TrimRight s cutset = rev (dropWhile (\<lambda>c. c \<in> set cutset) (rev s))"

definition strings_Trim :: "string \<Rightarrow> string \<Rightarrow> string" where
  "strings_Trim s cutset = strings_TrimRight (dropWhile (\<lambda>c. c \<in> set cutset) s) cutset"

definition HasPrefix1 :: "string \<Rightarrow> char \<Rightarrow> bool" where
  "HasPrefix1 s c = (case s of [] \<Rightarrow> False | d # t \<Rightarrow> d = c)"

definition HasSuffix1 :: "string \<Rightarrow> char \<Rightarrow> bool" where
  "HasSuffix1 s c = (case rev s of [] \<Rightarrow> False | d # t \<Rightarrow> d = c)"

definition placeholder :: "string \<Rightarrow> string" where
  "placeholder name = ''{{'' @ name @ ''}}''"

definition ReplaceVariables :: "Lib \<Rightarrow> string \<Rightarrow> (string \<times> Value) list \<Rightarrow> string" where
  "ReplaceVariables L text data =
    foldl (\<lambda>result (key, v). strings_ReplaceAll result (placeholder key) (fmt_Sprint L v)) text data"

text \<open>
  The case-insensitive search of \<open>ReplaceVariablesInArray\<close>: the first key, in the
  order of the \<open>range\<close> loop, that equals the variable under \<open>strings.EqualFold\<close>
  once its trailing colons are trimmed.
\<close>

definition fold_match :: "Lib \<Rightarrow> string \<Rightarrow> (string \<times> Value) list \<Rightarrow> (string \<times> Value) option" where
  "fold_match L name data =
    find (\<lambda>(inputKey, v). strings_EqualFold L (strings_TrimRight inputKey '':'') name) data"

definition replace_one :: "Lib \<Rightarrow> string \<Rightarrow> string \<Rightarrow> (string \<times> Value) list \<Rightarrow> string" where
  "replace_one L text name data =
    (case map_of data name of
       Some v \<Rightarrow> strings_ReplaceAll text (placeholder name) (fmt_Sprint L v)
     | None \<Rightarrow>
        (case fold_match L name data of
           Some (inputKey, v) \<Rightarrow> strings_ReplaceAll text (placeholder name) (fmt_Sprint L v)
         | None \<Rightarrow> text))"

definition ReplaceVariablesInArray :: "Lib \<Rightarrow> string \<Rightarrow> string \<Rightarrow> (string \<times> Value) list \<Rightarrow> string" where
  "ReplaceVariablesInArray L text variableName data =
    (if \<not> HasPrefix1 variableName CHR ''['' \<or> \<not> HasSuffix1 variableName CHR '']''
     then replace_one L text variableName data
     else
       (let varsStr = strings_Trim variableName ''[]'';
            vars = strings_Split varsStr CHR '',''
        in foldl (\<lambda>result varName.
                    replace_one L result (strings_Trim (strings_Trim varName [CHR 0x22]) '' '') data)
             text vars))"

text \<open>The generator's \<open>replaceVariables\<close>.\<close>

definition PDFGenerator_replaceVariables ::
  "Lib \<Rightarrow> string \<Rightarrow> string \<Rightarrow> (string \<times> Value) list \<Rightarrow> string" where
  "PDFGenerator_replaceVariables L text variableName data =
    (if variableName \<noteq> [] then ReplaceVariablesInArray L text variableName data
     else ReplaceVariables L text data)"

definition GetArrayFieldValue :: "Lib \<Rightarrow> Value \<Rightarrow> string \<Rightarrow> string" where
  "GetArrayFieldValue L item fieldName =
    (case item of
       VMap itemMap \<Rightarrow> (case map_of itemMap fieldName of Some v \<Rightarrow> fmt_Sprint L v | None \<Rightarrow> [])
     | _ \<Rightarrow> [])"

text \<open>
  A text has a placeholder when two opening braces are followed, somewhere after
  them, by two closing braces.
\<close>

fun has_close :: "string \<Rightarrow> bool" where
  "has_close (a # b # s) = ((a = CHR ''}'' \<and> b = CHR ''}'') \<or> has_close (b # s))"
| "has_close s = False"

fun has_placeholder :: "string \<Rightarrow> bool" where
  "has_placeholder (a # b # s) = ((a = CHR ''{'' \<and> b = CHR ''{'' \<and> has_close s) \<or> has_placeholder (b # s))"
| "has_placeholder s = False"

definition sample_data :: "(string \<times> Value) list" where
  "sample_data = [(''invoiceNumber'', VString ''INV-1''), (''Customer:'', VString ''Ann'')]"

section \<open>The drawing backend as the code uses it\<close>

text \<open>
  The backend (\<open>fpdf\<close>) is outside the repository.  An instance is modelled by the
  calls made on it, in order, and by the vertical cursor position, the one part of
  its state the code reads back (\<open>GetY\<close>): \<open>SetXY\<close> sets it, a single-line cell
  drawn with \<open>ln = 0\<close> leaves it, and after a wrapped cell it is where the backend
  puts it (\<open>multicell_end_y\<close>, a parameter).  Automatic page breaks are not modelled.
\<close>

datatype Call =
    AddPage
  | AddUTF8Font string string string
  | SetFont string string real
  | SetTextColor int int int
  | SetDrawColor int int int
  | SetFillColor int int int
  | SetLineWidth real
  | TransformBegin
  | TransformRotate real real real
  | TransformEnd
  | SetXY real real
  | MultiCell real real string string string bool
  | CellFormat real real string string int string bool int string
  | Rect real real real real string
  | Image string real real real real bool string int string

record Fpdf =
  backend_calls :: "Call list"
  cursor_y :: real

definition fpdf_New :: Fpdf where
  "fpdf_New = \<lparr>backend_calls = [], cursor_y = 0\<rparr>"

text \<open>
  What the generator takes from its environment: the backend's cursor after a wrapped
  cell, whether \<open>os.Stat\<close> finds a path, the raster encoders (\<open>None\<close> for an error),
  the name of the temporary file for a prefix (the code appends the clock's
  nanoseconds), and whether \<open>os.WriteFile\<close> succeeds.
\<close>

record Env =
  multicell_end_y :: "Fpdf \<Rightarrow> real \<Rightarrow> real \<Rightarrow> string \<Rightarrow> real"
  stat_ok :: "string \<Rightarrow> bool"
  qrcode_Encode :: "string \<Rightarrow> string option"
  barcode_Encode :: "string \<Rightarrow> string \<Rightarrow> string option"
  barcode_Scale :: "string \<Rightarrow> int \<Rightarrow> int \<Rightarrow> string option"
  png_Encode :: "string \<Rightarrow> string option"
  temp_file :: "string \<Rightarrow> string"
  write_ok :: "string \<Rightarrow> bool"

definition emit :: "Call \<Rightarrow> Fpdf \<Rightarrow> Fpdf" where
  "emit c pdf = pdf\<lparr>backend_calls := backend_calls pdf @ [c]\<rparr>"

definition pdf_SetXY :: "real \<Rightarrow> real \<Rightarrow> Fpdf \<Rightarrow> Fpdf" where
  "pdf_SetXY x y pdf = (emit (SetXY x y) pdf)\<lparr>cursor_y := y\<rparr>"

definition pdf_MultiCell :: "Env \<Rightarrow> real \<Rightarrow> real \<Rightarrow> string \<Rightarrow> string \<Rightarrow> string \<Rightarrow> bool \<Rightarrow> Fpdf \<Rightarrow> Fpdf"
  where
  "pdf_MultiCell E w h txt border align fill pdf =
    (emit (MultiCell w h txt border align fill) pdf)\<lparr>cursor_y := multicell_end_y E pdf w h txt\<rparr>"

definition pdf_GetY :: "Fpdf \<Rightarrow> real" where
  "pdf_GetY pdf = cursor_y pdf"

section \<open>Font cache and font setup (template\_cache.go, generator)\<close>

text \<open>
  \<open>cache.GetFontCache()\<close> returns the one \<open>FontCache\<close> of the process; every
  generator holds a pointer to it.  The model passes it through \<open>setupFonts\<close>.
\<close>

record FontCache =
  fonts :: "string \<Rightarrow> bool"
  loaded :: bool

definition NewFontCache :: FontCache where
  "NewFontCache = \<lparr>fonts = (\<lambda>fontName. False), loaded = False\<rparr>"

definition IsLoaded :: "FontCache \<Rightarrow> string \<Rightarrow> bool" where
  "IsLoaded fc fontName = fonts fc fontName"

definition MarkLoaded :: "FontCache \<Rightarrow> string \<Rightarrow> FontCache" where
  "MarkLoaded fc fontName = fc\<lparr>fonts := (fonts fc)(fontName := True)\<rparr>"

definition IsSystemLoaded :: "FontCache \<Rightarrow> bool" where
  "IsSystemLoaded fc = loaded fc"

definition MarkSystemLoaded :: "FontCache \<Rightarrow> FontCache" where
  "MarkSystemLoaded fc = fc\<lparr>loaded := True\<rparr>"

text \<open>
  The body of the \<open>range\<close> loop of \<open>setupFonts\<close> for one font, and the loop over the
  two fonts of its map literal in the order \<open>order\<close> the runtime picks.
  \<open>filepath.Join("./fonts", fontFile)\<close> is \<open>fonts/\<close> followed by the file name.
\<close>

definition setupFonts_fonts :: "(string \<times> string) list" where
  "setupFonts_fonts = [(''Tahoma'', ''tahoma.ttf''), (''TahomaB'', ''tahomabd.TTF'')]"

definition setupFonts_step :: "Env \<Rightarrow> FontCache \<times> Fpdf \<Rightarrow> string \<times> string \<Rightarrow> FontCache \<times> Fpdf" where
  "setupFonts_step E st font =
    (case (st, font) of
       ((fc, pdf), (fontName, fontFile)) \<Rightarrow>
         if \<not> IsLoaded fc fontName then
           (if stat_ok E (''fonts/'' @ fontFile) then
              (MarkLoaded fc fontName,
               if fontName = ''TahomaB'' then emit (AddUTF8Font ''Tahoma'' ''B'' fontFile) pdf
               else emit (AddUTF8Font fontName [] fontFile) pdf)
            else (fc, pdf))
         else (fc, pdf))"

definition PDFGenerator_setupFonts ::
  "Env \<Rightarrow> (string \<times> string) list \<Rightarrow> FontCache \<Rightarrow> Fpdf \<Rightarrow> FontCache \<times> Fpdf" where
  "PDFGenerator_setupFonts E order fc pdf =
    (if IsSystemLoaded fc then (fc, pdf)
     else (case foldl (setupFonts_step E) (fc, pdf) order of
             (fc', pdf') \<Rightarrow> (MarkSystemLoaded fc', emit (SetFont ''Tahoma'' [] 10) pdf')))"

section \<open>PDF generator (internal/generators)\<close>

datatype GenError =
    ValidationFailed ValidateError
  | InvalidLoopField string
  | ArrayNotFound string
  | NotAnArray string
  | ImagePathNotSpecified
  | ImageNotFound string
  | QRContentEmpty
  | QREncodeFailed
  | QRSaveFailed
  | BarcodeContentEmpty
  | BarcodeEncodeFailed
  | BarcodeScaleFailed
  | BarcodePNGFailed
  | BarcodeSaveFailed
  | UnsupportedType string

text \<open>
  The part of a generator that rendering changes: the instance being drawn on and
  the generator's \<open>lastYPositions\<close> map.
\<close>

record GenState =
  target :: Fpdf
  lastYPositions :: "string \<rightharpoonup> real"

definition GetTextContent :: "Lib \<Rightarrow> PDFElement \<Rightarrow> (string \<times> Value) list \<Rightarrow> string" where
  "GetTextContent L e data =
    (let content = Text e;
         content =
           (if Type e = ElementTypeQR then
              (if QRContent e \<noteq> [] then QRContent e
               else if VariableName e \<noteq> [] then
                 (case map_of data (VariableName e) of Some v \<Rightarrow> fmt_Sprint L v | None \<Rightarrow> content)
               else content)
            else content);
         content =
           (if Type e = ElementTypeBarcode then
              (if BarcodeContent e \<noteq> [] then BarcodeContent e
               else if VariableName e \<noteq> [] then
                 (case map_of data (VariableName e) of Some v \<Rightarrow> fmt_Sprint L v | None \<Rightarrow> content)
               else content)
            else content)
     in content)"

definition PDFGenerator_setFont :: "Fpdf \<Rightarrow> Font \<Rightarrow> Fpdf" where
  "PDFGenerator_setFont p font =
    emit (SetFont (if Font_Family font = [] then ''Tahoma'' else Font_Family font)
                  (Font_Style font)
                  (if Font_Size font = 0 then 10 else Font_Size font)) p"

definition calculateRotationPoint :: "PDFElement \<Rightarrow> real \<times> real" where
  "calculateRotationPoint element =
    (if Style_RotateType (Style element) = ''left'' then
       (Position_X (Position element), Position_Y (Position element) + Size_Height (Size element) / 2)
     else if Style_RotateType (Style element) = ''top'' then
       (Position_X (Position element) + Size_Width (Size element) / 2, Position_Y (Position element))
     else
       (Position_X (Position element) + Size_Width (Size element) / 2,
        Position_Y (Position element) + Size_Height (Size element) / 2))"

definition processTextElement ::
  "Lib \<Rightarrow> Env \<Rightarrow> Fpdf \<Rightarrow> PDFElement \<Rightarrow> (string \<times> Value) list \<Rightarrow> GenError option \<times> Fpdf" where
  "processTextElement L E p element data =
    (let p = PDFGenerator_setFont p (Style_Font (Style element));
         p = (if Color_IsSet (Style_TextColor (Style element))
              then emit (SetTextColor (Color_R (Style_TextColor (Style element)))
                                      (Color_G (Style_TextColor (Style element)))
                                      (Color_B (Style_TextColor (Style element)))) p
              else p);
         txt = PDFGenerator_replaceVariables L (Text element) (VariableName element) data;
         p = (if Style_RotateDegree (Style element) \<noteq> 0
              then (case calculateRotationPoint element of
                      (rotateX, rotateY) \<Rightarrow>
                        emit (TransformRotate (real_of_int (Style_RotateDegree (Style element))) rotateX rotateY)
                          (emit TransformBegin p))
              else p);
         p = pdf_SetXY (Position_X (Position element)) (Position_Y (Position element)) p;
         p = (if Method element = ''MultiCell''
              then pdf_MultiCell E (Size_Width (Size element)) (Font_Size (Style_Font (Style element)) * 0.5)
                     txt (Style_Border (Style element)) (Style_Align (Style element)) False p
              else emit (CellFormat (Size_Width (Size element)) (Size_Height (Size element)) txt
                           (Style_Border (Style element)) 0 (Style_Align (Style element)) False 0 []) p);
         p = (if Style_RotateDegree (Style element) \<noteq> 0 then emit TransformEnd p else p)
     in (None, p))"

definition processBoxElement :: "Fpdf \<Rightarrow> PDFElement \<Rightarrow> GenError option \<times> Fpdf" where
  "processBoxElement p element =
    (let p = (if Color_IsSet (Style_TextColor (Style element))
              then emit (SetDrawColor (Color_R (Style_TextColor (Style element)))
                                      (Color_G (Style_TextColor (Style element)))
                                      (Color_B (Style_TextColor (Style element)))) p
              else p);
         p = (if Color_IsSet (Style_Background (Style element))
              then emit (SetFillColor (Color_R (Style_Background (Style element)))
                                      (Color_G (Style_Background (Style element)))
                                      (Color_B (Style_Background (Style element)))) p
              else p);
         p = emit (SetLineWidth 0.2) p;
         p = emit (Rect (Position_X (Position element)) (Position_Y (Position element))
                        (Size_Width (Size element)) (Size_Height (Size element))
                        (if Color_IsSet (Style_Background (Style element)) then ''FD'' else ''D'')) p
     in (None, p))"

definition draw_image :: "string \<Rightarrow> PDFElement \<Rightarrow> Fpdf \<Rightarrow> Fpdf" where
  "draw_image path element p =
    emit (Image path (Position_X (Position element)) (Position_Y (Position element))
                (Size_Width (Size element)) (Size_Height (Size element)) False [] 0 []) p"

definition processImageElement ::
  "Lib \<Rightarrow> Env \<Rightarrow> Fpdf \<Rightarrow> PDFElement \<Rightarrow> (string \<times> Value) list \<Rightarrow> GenError option \<times> Fpdf" where
  "processImageElement L E p element data =
    (let imagePath = Style_ImageSrc (Style element);
         imagePath =
           (if imagePath = [] \<and> VariableName element \<noteq> [] then
              (case map_of data (VariableName element) of
                 Some v \<Rightarrow> fmt_Sprint L v
               | None \<Rightarrow> imagePath)
            else imagePath)
     in if imagePath = [] then (Some ImagePathNotSpecified, p)
        else if \<not> stat_ok E imagePath then (Some (ImageNotFound imagePath), p)
        else (None, draw_image imagePath element p))"

definition processQRElement ::
  "Lib \<Rightarrow> Env \<Rightarrow> Fpdf \<Rightarrow> PDFElement \<Rightarrow> (string \<times> Value) list \<Rightarrow> GenError option \<times> Fpdf" where
  "processQRElement L E p element data =
    (let content = GetTextContent L element data;
         content = (if content = []
                    then PDFGenerator_replaceVariables L (QRContent element) (VariableName element) data
                    else content)
     in if content = [] then (Some QRContentEmpty, p)
        else (case qrcode_Encode E content of
                None \<Rightarrow> (Some QREncodeFailed, p)
              | Some qrCode \<Rightarrow>
                  if \<not> write_ok E (temp_file E ''qr_'') then (Some QRSaveFailed, p)
                  else (None, draw_image (temp_file E ''qr_'') element p)))"

text \<open>Go's conversion \<open>int(x)\<close> of a \<open>float64\<close> truncates towards zero.\<close>

definition go_int :: "real \<Rightarrow> int" where
  "go_int x = (if 0 \<le> x then \<lfloor>x\<rfloor> else \<lceil>x\<rceil>)"

text \<open>The encoder the \<open>switch\<close> on the upper-cased format selects.\<close>

definition barcode_encoder :: "Lib \<Rightarrow> string \<Rightarrow> string" where
  "barcode_encoder L format =
    (let u = strings_ToUpper L format
     in if u = ''CODE128'' then ''code128''
        else if u = ''CODE39'' then ''code39''
        else if u = ''EAN13'' then ''ean''
        else if u = ''QR'' then ''qr''
        else ''code128'')"

definition processBarcodeElement ::
  "Lib \<Rightarrow> Env \<Rightarrow> Fpdf \<Rightarrow> PDFElement \<Rightarrow> (string \<times> Value) list \<Rightarrow> GenError option \<times> Fpdf" where
  "processBarcodeElement L E p element data =
    (let content = GetTextContent L element data;
         content = (if content = []
                    then PDFGenerator_replaceVariables L (BarcodeContent element) (VariableName element) data
                    else content)
     in if content = [] then (Some BarcodeContentEmpty, p)
        else (case barcode_Encode E (barcode_encoder L (BarcodeFormat element)) content of
                None \<Rightarrow> (Some BarcodeEncodeFailed, p)
              | Some barcodeImg \<Rightarrow>
                 (case barcode_Scale E barcodeImg (go_int (Size_Width (Size element) * 10))
                         (go_int (Size_Height (Size element) * 10)) of
                    None \<Rightarrow> (Some BarcodeScaleFailed, p)
                  | Some scaledBarcode \<Rightarrow>
                     (case png_Encode E scaledBarcode of
                        None \<Rightarrow> (Some BarcodePNGFailed, p)
                      | Some buf \<Rightarrow>
                          if \<not> write_ok E (temp_file E ''barcode_'') then (Some BarcodeSaveFailed, p)
                          else (None, draw_image (temp_file E ''barcode_'') element p)))))"

definition processTableElement :: "Fpdf \<Rightarrow> PDFElement \<Rightarrow> GenError option \<times> Fpdf" where
  "processTableElement p element = (None, p)"

text \<open>The \<open>switch element.Type\<close> of \<open>processElement\<close>.\<close>

definition process_by_type ::
  "Lib \<Rightarrow> Env \<Rightarrow> Fpdf \<Rightarrow> PDFElement \<Rightarrow> (string \<times> Value) list \<Rightarrow> GenError option \<times> Fpdf" where
  "process_by_type L E p element data =
    (if Type element = ElementTypeText then processTextElement L E p element data
     else if Type element = ElementTypeBox then processBoxElement p element
     else if Type element = ElementTypeImage then processImageElement L E p element data
     else if Type element = ElementTypeQR then processQRElement L E p element data
     else if Type element = ElementTypeBarcode then processBarcodeElement L E p element data
     else if Type element = ElementTypeTable then processTableElement p element
     else (Some (UnsupportedType (Type element)), p))"

text \<open>
  \<open>processElement\<close> and \<open>processLoopElement\<close> call each other, and nothing in the
  source bounds the depth of these calls, so the model counts them: \<open>depth\<close> is the
  number of nested \<open>processElement\<close> calls the run may still make, and the result
  \<open>None\<close> says that this number did not suffice.  A call that returns gives
  \<open>Some\<close> of the error (or \<open>nil\<close>) and the state it leaves.

  The loop of \<open>processLoopElement\<close> over the items, given the function \<open>call\<close> that
  processes one copy: it logs an error of the call and goes on.  \<open>itemData\<close> is the
  copy of \<open>data\<close> with the item's value stored under the whole \<open>loopField\<close>.
\<close>

fun loop_items ::
  "(GenState \<Rightarrow> PDFElement \<Rightarrow> (string \<times> Value) list \<Rightarrow> (GenError option \<times> GenState) option)
   \<Rightarrow> Lib \<Rightarrow> PDFElement \<Rightarrow> (string \<times> Value) list \<Rightarrow> string \<Rightarrow> real
   \<Rightarrow> Value list \<Rightarrow> real \<Rightarrow> GenState \<Rightarrow> (real \<times> GenState) option" where
  "loop_items call L element data fieldName spacing [] currentY st = Some (currentY, st)"
| "loop_items call L element data fieldName spacing (item # items) currentY st =
     (let elementCopy = (Clone element)\<lparr>Position := (Position element)\<lparr>Position_Y := currentY\<rparr>\<rparr>;
          itemValue = GetArrayFieldValue L item fieldName;
          itemData = AList.update (LoopField element) (VString itemValue) data
      in case call st elementCopy itemData of
           None \<Rightarrow> None
         | Some (err, st') \<Rightarrow>
             loop_items call L element data fieldName spacing items (currentY + spacing) st')"

definition processLoopElement ::
  "(GenState \<Rightarrow> PDFElement \<Rightarrow> (string \<times> Value) list \<Rightarrow> (GenError option \<times> GenState) option)
   \<Rightarrow> Lib \<Rightarrow> GenState \<Rightarrow> PDFElement \<Rightarrow> (string \<times> Value) list
   \<Rightarrow> (GenError option \<times> GenState) option" where
  "processLoopElement call L st element data =
    (case strings_Split (LoopField element) CHR ''.'' of
       [arrayName, fieldName] \<Rightarrow>
         (case map_of data arrayName of
            None \<Rightarrow> Some (Some (ArrayNotFound arrayName), st)
          | Some (VArray items) \<Rightarrow>
              (case loop_items call L element data fieldName (Size_Height (Size element) + 2) items
                      (Position_Y (Position element)) st of
                 None \<Rightarrow> None
               | Some (currentY, st') \<Rightarrow>
                   Some (None, st'\<lparr>lastYPositions := (lastYPositions st')(arrayName \<mapsto> currentY)\<rparr>))
          | Some other \<Rightarrow> Some (Some (NotAnArray arrayName), st))
     | parts \<Rightarrow> Some (Some (InvalidLoopField (LoopField element)), st))"

fun PDFGenerator_processElement ::
  "nat \<Rightarrow> Lib \<Rightarrow> Env \<Rightarrow> GenState \<Rightarrow> PDFElement \<Rightarrow> (string \<times> Value) list
   \<Rightarrow> (GenError option \<times> GenState) option" where
  "PDFGenerator_processElement 0 L E st element data = None"
| "PDFGenerator_processElement (Suc depth) L E st element data =
     (case Validate element of
        (Some verr, element') \<Rightarrow> Some (Some (ValidationFailed verr), st)
      | (None, element') \<Rightarrow>
          if IsLoopElement element'
          then processLoopElement (\<lambda>st' e d. PDFGenerator_processElement depth L E st' e d) L st element' data
          else (case process_by_type L E (target st) element' data of
                  (err, p) \<Rightarrow> Some (err, st\<lparr>target := p\<rparr>)))"


text \<open>Sample inputs: a loop element over an array of two items, and an environment.\<close>

definition loop_element :: PDFElement where
  "loop_element = sample_element\<lparr>Text := ''{{items.description}}'', LoopField := ''items.description'',
      Position := \<lparr>Position_X = 10, Position_Y = 50\<rparr>\<rparr>"

definition loop_data :: "(string \<times> Value) list" where
  "loop_data =
    [(''invoiceNumber'', VString ''INV-1''),
     (''items'', VArray [VMap [(''description'', VString ''A'')], VMap [(''description'', VString ''B'')]])]"

definition test_env :: Env where
  "test_env =
    \<lparr>multicell_end_y = (\<lambda>p w h txt. cursor_y p + h),
     stat_ok = (\<lambda>path. True),
     qrcode_Encode = (\<lambda>content. Some content),
     barcode_Encode = (\<lambda>encoder content. Some content),
     barcode_Scale = (\<lambda>img w h. Some img),
     png_Encode = (\<lambda>img. Some img),
     temp_file = (\<lambda>prefix. ''/tmp/'' @ prefix @ ''0.png''),
     write_ok = (\<lambda>path. True)\<rparr>"

definition fresh_state :: GenState where
  "fresh_state = \<lparr>target = fpdf_New, lastYPositions = Map.empty\<rparr>"

section \<open>The first generator (invoice\_from\_csv\_template.go, package main)\<close>

text \<open>
  The element type of package \<open>main\<close>, with flat fields, and its \<open>processElement\<close>.
  \<open>lastYPositions\<close> is a package-level variable there; the model passes it along with
  the instance drawn on.

  The loops of this generator accumulate the vertical position in \<open>float64\<close>, whose
  addition, multiplication and division round, so that a sum of \<open>float64\<close> values is
  not the sum of the reals they stand for.  The three operations are therefore
  parameters of the model of this generator, and what is proved of it holds for every
  choice of them.  \<open>math.Round\<close> and the conversion of an \<open>int\<close> are exact.
\<close>

record Float64_ops =
  add64 :: "real \<Rightarrow> real \<Rightarrow> real"
  mul64 :: "real \<Rightarrow> real \<Rightarrow> real"
  div64 :: "real \<Rightarrow> real \<Rightarrow> real"

record main_PDFElement =
  m_Type :: string
  m_Method :: string
  m_Text :: string
  m_VariableName :: string
  m_X :: real
  m_Y :: real
  m_Width :: real
  m_Height :: real
  m_Font :: string
  m_FontStyle :: string
  m_FontSize :: real
  m_Align :: string
  m_RotateDegree :: int
  m_Border :: string
  m_ColorR :: int
  m_ColorG :: int
  m_ColorB :: int
  m_background :: string
  m_BGColorR :: int
  m_BGColorG :: int
  m_BGColorB :: int
  m_ImageSrc :: string
  m_RotateType :: string
  m_Columns :: "TableColumn list"
  m_LoopField :: string

type_synonym main_state = "Fpdf \<times> (string \<rightharpoonup> real)"

text \<open>\<open>math.Round\<close> rounds halves away from zero.\<close>

definition math_Round :: "real \<Rightarrow> real" where
  "math_Round x = (if 0 \<le> x then real_of_int \<lfloor>x + 1 / 2\<rfloor> else - real_of_int \<lfloor>- x + 1 / 2\<rfloor>)"

definition main_rotation_point :: "Float64_ops \<Rightarrow> main_PDFElement \<Rightarrow> real \<Rightarrow> real \<times> real" where
  "main_rotation_point F el y =
    (if m_RotateType el = ''left'' then (m_X el, add64 F y (div64 F (m_Height el) 2))
     else if m_RotateType el = ''top'' then (add64 F (m_X el) (div64 F (m_Width el) 2), y)
     else (add64 F (m_X el) (div64 F (m_Width el) 2), add64 F y (div64 F (m_Height el) 2)))"

definition main_set_font :: "main_PDFElement \<Rightarrow> Fpdf \<Rightarrow> Fpdf" where
  "main_set_font el p =
    (if m_Font el \<noteq> []
     then emit (SetFont (m_Font el) (if m_FontStyle el = ''B'' then ''B'' else []) (m_FontSize el)) p
     else p)"

definition main_rotate_begin :: "Float64_ops \<Rightarrow> main_PDFElement \<Rightarrow> real \<Rightarrow> Fpdf \<Rightarrow> Fpdf" where
  "main_rotate_begin F el y p =
    (if m_RotateDegree el \<noteq> 0
     then (case main_rotation_point F el y of
             (rotateX, rotateY) \<Rightarrow>
               emit (TransformRotate (real_of_int (m_RotateDegree el)) rotateX rotateY) (emit TransformBegin p))
     else p)"

definition main_rotate_end :: "main_PDFElement \<Rightarrow> Fpdf \<Rightarrow> Fpdf" where
  "main_rotate_end el p = (if m_RotateDegree el \<noteq> 0 then emit TransformEnd p else p)"

text \<open>The text of one item of a text loop: the item's field, then the other variables.\<close>

definition main_item_text ::
  "Lib \<Rightarrow> main_PDFElement \<Rightarrow> (string \<times> Value) list \<Rightarrow> string \<Rightarrow> string \<Rightarrow> Value \<Rightarrow> string" where
  "main_item_text L el input arrayName fieldName item =
    (let itemStr = (case item of
                      VMap itemMap \<Rightarrow> (case map_of itemMap fieldName of Some v \<Rightarrow> fmt_Sprint L v | None \<Rightarrow> [])
                    | _ \<Rightarrow> [])
     in if m_Text el \<noteq> [] then
          foldl (\<lambda>s (varName, varVal).
                   if varName \<noteq> arrayName then strings_ReplaceAll s (placeholder varName) (fmt_Sprint L varVal)
                   else s)
            (strings_ReplaceAll (m_Text el) (placeholder (m_LoopField el)) itemStr) input
        else itemStr)"

text \<open>The body of the text loop for the items still to come, from the current y.\<close>

fun main_text_loop ::
  "Float64_ops \<Rightarrow> Lib \<Rightarrow> Env \<Rightarrow> main_PDFElement \<Rightarrow> (string \<times> Value) list \<Rightarrow> string \<Rightarrow> string
   \<Rightarrow> Value list \<Rightarrow> real \<Rightarrow> Fpdf \<Rightarrow> real \<times> Fpdf" where
  "main_text_loop F L E el input arrayName fieldName [] currentY p = (currentY, p)"
| "main_text_loop F L E el input arrayName fieldName (item # items) currentY p =
     (let itemStr = main_item_text L el input arrayName fieldName item;
          p = pdf_SetXY (m_X el) currentY p;
          p = main_set_font el p;
          p = emit (SetTextColor (m_ColorR el) (m_ColorG el) (m_ColorB el)) p;
          p = main_rotate_begin F el currentY p;
          (currentY', p) =
            (if m_Method el = ''MultiCell''
             then (let p = pdf_MultiCell E (m_Width el) (mul64 F (m_FontSize el) 0.5) itemStr (m_Border el)
                             (m_Align el) False p
                   in (add64 F (pdf_GetY p) 2, p))
             else (add64 F currentY (add64 F (m_Height el) 2),
                   emit (CellFormat (m_Width el) (m_Height el) itemStr (m_Border el) 0 (m_Align el)
                           False 0 []) p));
          p = main_rotate_end el p
      in main_text_loop F L E el input arrayName fieldName items currentY' p)"

fun main_box_loop ::
  "Float64_ops \<Rightarrow> Lib \<Rightarrow> Env \<Rightarrow> main_PDFElement \<Rightarrow> string \<Rightarrow> Value list \<Rightarrow> real \<Rightarrow> Fpdf
   \<Rightarrow> real \<times> Fpdf" where
  "main_box_loop F L E el fieldName [] currentY p = (currentY, p)"
| "main_box_loop F L E el fieldName (item # items) currentY p =
     (case (case item of VMap itemMap \<Rightarrow> map_of itemMap fieldName | _ \<Rightarrow> None) of
        None \<Rightarrow> main_box_loop F L E el fieldName items currentY p
      | Some v \<Rightarrow>
         (let currentY = div64 F (math_Round (mul64 F currentY 10)) 10;
              p = emit (SetLineWidth 0.2) p;
              p = emit (Rect (m_X el) currentY (m_Width el) (m_Height el)
                          (if m_background el = ''1'' then ''FD'' else ''D'')) p;
              p = emit (SetFont (m_Font el) (m_FontStyle el) (m_FontSize el)) p;
              p = emit (SetTextColor (m_ColorR el) (m_ColorG el) (m_ColorB el)) p;
              p = pdf_SetXY (m_X el) currentY p;
              p = pdf_MultiCell E (m_Width el) (m_Height el) (fmt_Sprint L v) (m_Border el) (m_Align el) False p
          in main_box_loop F L E el fieldName items (add64 F currentY (m_Height el)) p))"

text \<open>
  The array a loop field names, when the field has the form \<open>array.field\<close> and the
  input binds the array to a list: the cases in which the loop runs.
\<close>

datatype loop_target = NoLoop | BadLoopField | Loop string string "Value list"

definition main_loop_target :: "main_PDFElement \<Rightarrow> (string \<times> Value) list \<Rightarrow> loop_target" where
  "main_loop_target el input =
    (if m_LoopField el = [] then NoLoop
     else (case strings_Split (m_LoopField el) CHR ''.'' of
             [arrayName, fieldName] \<Rightarrow>
               (case map_of input arrayName of
                  Some (VArray items) \<Rightarrow> Loop arrayName fieldName items
                | _ \<Rightarrow> NoLoop)
           | parts \<Rightarrow> BadLoopField))"

definition main_plain_text :: "Lib \<Rightarrow> main_PDFElement \<Rightarrow> (string \<times> Value) list \<Rightarrow> string" where
  "main_plain_text L el input =
    (if m_VariableName el \<noteq> [] then
       (if HasPrefix1 (m_VariableName el) CHR ''['' \<and> HasSuffix1 (m_VariableName el) CHR '']'' then
          foldl (\<lambda>txt varName. replace_one L txt varName input) (m_Text el)
            (map (\<lambda>v. strings_Trim (strings_Trim v [CHR 0x22]) '' '')
               (strings_Split (strings_Trim (m_VariableName el) ''[]'') CHR '',''))
        else (case map_of input (m_VariableName el) of
                Some v \<Rightarrow> strings_ReplaceAll (m_Text el) (placeholder (m_VariableName el)) (fmt_Sprint L v)
              | None \<Rightarrow> m_Text el))
     else m_Text el)"

definition main_draw_text ::
  "Float64_ops \<Rightarrow> Lib \<Rightarrow> Env \<Rightarrow> main_PDFElement \<Rightarrow> (string \<times> Value) list \<Rightarrow> Fpdf \<Rightarrow> Fpdf" where
  "main_draw_text F L E el input p =
    (let txt = main_plain_text L el input;
         p = main_set_font el p;
         p = emit (SetTextColor (m_ColorR el) (m_ColorG el) (m_ColorB el)) p;
         p = main_rotate_begin F el (m_Y el) p;
         align = (if m_Align el \<noteq> [] then m_Align el else ''L'');
         p = (if m_Method el = ''MultiCell''
              then pdf_MultiCell E (m_Width el) (mul64 F (m_FontSize el) 0.5) txt (m_Border el) align False
                     (pdf_SetXY (m_X el) (m_Y el) p)
              else if m_Method el = ''Cell''
              then emit (CellFormat (m_Width el) (m_Height el) txt (m_Border el) 0 align False 0 [])
                     (pdf_SetXY (m_X el) (m_Y el) p)
              else p)
     in main_rotate_end el p)"

definition main_processElement ::
  "Float64_ops \<Rightarrow> Lib \<Rightarrow> Env \<Rightarrow> main_state \<Rightarrow> main_PDFElement \<Rightarrow> (string \<times> Value) list
   \<Rightarrow> main_state" where
  "main_processElement F L E st el input =
    (case st of
       (p, lastY) \<Rightarrow>
        if m_Type el = ''table'' \<or> m_Type el = ''text'' then
          (case main_loop_target el input of
             BadLoopField \<Rightarrow> (p, lastY)
           | Loop arrayName fieldName items \<Rightarrow>
               (case main_text_loop F L E el input arrayName fieldName items (m_Y el) p of
                  (currentY, p') \<Rightarrow> (p', lastY(arrayName \<mapsto> currentY)))
           | NoLoop \<Rightarrow> (main_draw_text F L E el input p, lastY))
        else if m_Type el = ''box'' then
          (let p = emit (SetDrawColor (m_ColorR el) (m_ColorG el) (m_ColorB el)) p;
               p = (if m_background el = ''1''
                    then emit (SetFillColor (m_BGColorR el) (m_BGColorG el) (m_BGColorB el)) p
                    else emit (SetFillColor 255 255 255) p)
           in case main_loop_target el input of
                BadLoopField \<Rightarrow> (p, lastY)
              | Loop arrayName fieldName items \<Rightarrow>
                  (case main_box_loop F L E el fieldName items (m_Y el) p of
                     (currentY, p') \<Rightarrow> (p', lastY(arrayName \<mapsto> currentY)))
              | NoLoop \<Rightarrow>
                  (emit (SetLineWidth 0.2)
                     (emit (Rect (m_X el) (m_Y el) (m_Width el) (m_Height el)
                              (if m_background el = ''1'' then ''FD'' else ''D''))
                        (emit (SetLineWidth 0.2) p)), lastY))
        else if m_Type el = ''image'' then
          (if m_ImageSrc el \<noteq> [] \<and> stat_ok E (m_ImageSrc el)
           then (emit (Image (m_ImageSrc el) (m_X el) (m_Y el) (m_Width el) (m_Height el) False [] 0 []) p, lastY)
           else (p, lastY))
        else (p, lastY))"

text \<open>The positions given to \<open>SetXY\<close> among a list of calls, in order.\<close>

fun set_xys :: "Call list \<Rightarrow> (real \<times> real) list" where
  "set_xys [] = []"
| "set_xys (SetXY x y # cs) = (x, y) # set_xys cs"
| "set_xys (c # cs) = set_xys cs"

text \<open>Whether the box loop draws an item: the item is a map that has the field.\<close>

definition has_field :: "string \<Rightarrow> Value \<Rightarrow> bool" where
  "has_field fieldName item =
    (case item of
       VMap itemMap \<Rightarrow> (case map_of itemMap fieldName of None \<Rightarrow> False | Some v \<Rightarrow> True)
     | _ \<Rightarrow> False)"

text \<open>
  Sample inputs: a single-line text column and a box grid that loop over the same
  array, one beside the other.  Every operand and every result of the arithmetic in
  drawing them is an integer below 1000, which \<open>float64\<close> holds exactly, so on them
  its operations are those of the reals.
\<close>

definition exact_ops :: Float64_ops where
  "exact_ops = \<lparr>add64 = (\<lambda>a b. a + b), mul64 = (\<lambda>a b. a * b), div64 = (\<lambda>a b. a / b)\<rparr>"

definition main_column :: "real \<Rightarrow> string \<Rightarrow> main_PDFElement" where
  "main_column x field =
    \<lparr>m_Type = ''text'', m_Method = ''Cell'', m_Text = [], m_VariableName = [],
     m_X = x, m_Y = 50, m_Width = 30, m_Height = 10, m_Font = ''Tahoma'', m_FontStyle = [],
     m_FontSize = 10, m_Align = ''L'', m_RotateDegree = 0, m_Border = [], m_ColorR = 0, m_ColorG = 0,
     m_ColorB = 0, m_background = [], m_BGColorR = 0, m_BGColorG = 0, m_BGColorB = 0,
     m_ImageSrc = [], m_RotateType = [], m_Columns = [], m_LoopField = ''items.'' @ field\<rparr>"

definition main_grid :: "real \<Rightarrow> string \<Rightarrow> main_PDFElement" where
  "main_grid x field = (main_column x field)\<lparr>m_Type := ''box'', m_Method := ''Rect''\<rparr>"

definition main_after_first :: main_state where
  "main_after_first =
    main_processElement exact_ops test_lib test_env (fpdf_New, Map.empty)
      (main_column 10 ''description'') loop_data"

definition main_after_second :: main_state where
  "main_after_second =
    main_processElement exact_ops test_lib test_env main_after_first
      (main_column 100 ''description'') loop_data"

definition main_after_grid :: main_state where
  "main_after_grid =
    main_processElement exact_ops test_lib test_env main_after_first
      (main_grid 100 ''description'') loop_data"

text \<open>The positions a second element sets, after those of the first.\<close>

definition new_positions :: "main_state \<Rightarrow> main_state \<Rightarrow> (real \<times> real) list" where
  "new_positions before after =
    drop (length (set_xys (backend_calls (fst before)))) (set_xys (backend_calls (fst after)))"

text \<open>
  Two results of the second generator's \<open>processElement\<close> that differ at most in
  the \<open>lastYPositions\<close> they leave.
\<close>

definition same_drawing ::
  "(GenError option \<times> GenState) option \<Rightarrow> (GenError option \<times> GenState) option \<Rightarrow> bool" where
  "same_drawing r r' =
    (case r of
       None \<Rightarrow> r' = None
     | Some (err, st) \<Rightarrow>
        (case r' of None \<Rightarrow> False | Some (err', st') \<Rightarrow> err = err' \<and> target st = target st'))"

definition same_loop :: "(real \<times> GenState) option \<Rightarrow> (real \<times> GenState) option \<Rightarrow> bool" where
  "same_loop r r' =
    (case r of
       None \<Rightarrow> r' = None
     | Some (y, st) \<Rightarrow>
        (case r' of None \<Rightarrow> False | Some (y', st') \<Rightarrow> y = y' \<and> target st = target st'))"

section \<open>Validation writes the barcode format\<close>

lemmas ElementType_defs = ElementTypeText_def ElementTypeBox_def ElementTypeImage_def
  ElementTypeQR_def ElementTypeBarcode_def ElementTypeTable_def

lemma Validate_not_barcode: "Type e \<noteq> ElementTypeBarcode \<Longrightarrow> snd (Validate e) = e"
  unfolding Validate_def by (simp only: snd_conv if_False split: if_split) blast

lemma Validate_format_set: "BarcodeFormat e \<noteq> [] \<Longrightarrow> snd (Validate e) = e"
  unfolding Validate_def by (simp only: snd_conv if_False split: if_split) blast

lemma Validate_barcode_default:
  assumes "Type e = ElementTypeBarcode" "BarcodeFormat e = []" "fst (Validate e) = None"
  shows "snd (Validate e) = e\<lparr>BarcodeFormat := ''Code128''\<rparr>"
proof -
  have q: "Type e \<noteq> ElementTypeQR" using assms(1) by (simp add: ElementType_defs)
  have n: "Some x \<noteq> None" for x :: ValidateError by simp
  show ?thesis
    using assms q n unfolding Validate_def
    by (simp only: snd_conv fst_conv if_False if_True split: if_split if_split_asm) blast+
qed

lemma Validate_cases:
  "Validate e = (None, e\<lparr>BarcodeFormat := ''Code128''\<rparr>) \<or> snd (Validate e) = e"
  unfolding Validate_def by (simp only: if_split fst_conv snd_conv split: if_split) blast

lemma Validate_fail_unchanged: "fst (Validate e) \<noteq> None \<Longrightarrow> snd (Validate e) = e"
  using Validate_cases[of e] by (metis fst_conv)

lemma Validate_snd_eq:
  "snd (Validate e) =
     (if Type e = ElementTypeBarcode \<and> BarcodeFormat e = [] \<and> fst (Validate e) = None
      then e\<lparr>BarcodeFormat := ''Code128''\<rparr> else e)"
proof (cases "Type e = ElementTypeBarcode \<and> BarcodeFormat e = [] \<and> fst (Validate e) = None")
  case True
  then show ?thesis using Validate_barcode_default[of e] by simp
next
  case False
  then have "snd (Validate e) = e"
    using Validate_not_barcode[of e] Validate_format_set[of e] Validate_fail_unchanged[of e] by blast
  with False show ?thesis by (simp only: if_False)
qed

text \<open>
  C10. \<open>Validate\<close> is not read-only: on a barcode element whose \<open>BarcodeFormat\<close> is
  empty a successful call returns the element with \<open>BarcodeFormat\<close> set to
  \<open>Code128\<close> and every other field as it was; on every other element (a type other
  than barcode, or a barcode whose format is already set) it leaves the element as
  it was, whether it succeeds or fails.
\<close>

theorem Validate_barcode_format_effect:
  "(Type e = ElementTypeBarcode \<and> BarcodeFormat e = [] \<and> fst (Validate e) = None
      \<longrightarrow> snd (Validate e) = e\<lparr>BarcodeFormat := ''Code128''\<rparr>)
   \<and> (Type e \<noteq> ElementTypeBarcode \<or> BarcodeFormat e \<noteq> [] \<longrightarrow> snd (Validate e) = e)"
  using Validate_barcode_default[of e] Validate_not_barcode[of e] Validate_format_set[of e]
  by blast


theorem Validate_barcode_format_effect_witness:
  "Type sample_barcode = ElementTypeBarcode \<and> BarcodeFormat sample_barcode = []
   \<and> fst (Validate sample_barcode) = None
   \<and> snd (Validate sample_barcode) = sample_barcode\<lparr>BarcodeFormat := ''Code128''\<rparr>
   \<and> Type sample_element \<noteq> ElementTypeBarcode
   \<and> snd (Validate sample_element) = sample_element"
proof -
  have h1: "Type sample_barcode = ElementTypeBarcode" by code_simp
  have h2: "BarcodeFormat sample_barcode = []" by code_simp
  have h3: "fst (Validate sample_barcode) = None" by code_simp
  have h4: "Type sample_element \<noteq> ElementTypeBarcode" by code_simp
  show ?thesis
    using Validate_barcode_format_effect[of sample_barcode]
      Validate_barcode_format_effect[of sample_element] h1 h2 h3 h4
    by blast
qed

section \<open>Cache: eviction\<close>

lemma scan_ok_skip:
  assumes "scan_ok m V acc" "fmlookup m key = None"
  shows "scan_ok m (insert key V) acc"
proof -
  have "key \<notin> fmdom' m" using assms(2) by (simp add: fmdom'_notI)
  then have "insert key V \<inter> fmdom' m = V \<inter> fmdom' m" by blast
  moreover have "\<And>k' e'. k' \<in> insert key V \<Longrightarrow> fmlookup m k' = Some e' \<Longrightarrow> k' \<in> V"
    using assms(2) by auto
  ultimately show ?thesis using assms(1) unfolding scan_ok_def by metis
qed

lemma scan_ok_take:
  assumes "scan_ok m V (k, t)" "fmlookup m key = Some entry" "key \<noteq> []"
    "k = [] \<or> AccessedAt entry < t"
  shows "scan_ok m (insert key V) (key, AccessedAt entry)"
proof -
  have "AccessedAt entry \<le> AccessedAt e'" if "k' \<in> insert key V" "fmlookup m k' = Some e'" for k' e'
  proof (cases "k' = key")
    case True
    with that assms(2) show ?thesis by simp
  next
    case False
    with that have v: "k' \<in> V" by simp
    have d: "k' \<in> fmdom' m" using that(2) by (rule fmdom'I)
    from assms(1) v d that(2) assms(4) show ?thesis
      unfolding scan_ok_def fst_conv snd_conv by (metis disjoint_iff less_le_trans less_imp_le)
  qed
  then show ?thesis using assms(2,3) unfolding scan_ok_def fst_conv snd_conv by blast
qed

lemma scan_ok_keep:
  assumes "scan_ok m V (k, t)" "fmlookup m key = Some entry" "\<not> (k = [] \<or> AccessedAt entry < t)"
  shows "scan_ok m (insert key V) (k, t)"
proof -
  have "t \<le> AccessedAt e'" if "k' \<in> insert key V" "fmlookup m k' = Some e'" for k' e'
  proof (cases "k' = key")
    case True
    with that assms(2,3) show ?thesis by simp
  next
    case False
    with that have v: "k' \<in> V" by simp
    from assms(1,3) v that(2) show ?thesis
      unfolding scan_ok_def fst_conv snd_conv by blast
  qed
  then show ?thesis using assms(1,3) unfolding scan_ok_def fst_conv snd_conv by blast
qed

lemma evictOldest_scan_ok:
  assumes "[] \<notin> fmdom' m"
  shows "scan_ok m V acc \<Longrightarrow> scan_ok m (V \<union> set keys) (evictOldest_scan m keys acc)"
proof (induction keys arbitrary: V acc)
  case Nil
  then show ?case by simp
next
  case (Cons key keys)
  obtain k t where acc: "acc = (k, t)" by (cases acc)
  have u: "V \<union> set (key # keys) = insert key V \<union> set keys" by auto
  show ?case
  proof (cases "fmlookup m key")
    case None
    have "scan_ok m (insert key V) (k, t)"
      using scan_ok_skip[OF Cons.prems None] acc by simp
    from Cons.IH[OF this] show ?thesis
      unfolding u acc by (simp only: evictOldest_scan.simps None option.case)
  next
    case (Some entry)
    then have "key \<in> fmdom' m" by (rule fmdom'I)
    with assms have ne: "key \<noteq> []" by auto
    show ?thesis
    proof (cases "k = [] \<or> AccessedAt entry < t")
      case True
      have "scan_ok m (insert key V) (key, AccessedAt entry)"
        using scan_ok_take[OF _ Some ne True] Cons.prems acc by simp
      from Cons.IH[OF this] show ?thesis
        unfolding u acc using True by (simp only: evictOldest_scan.simps Some option.case if_True)
    next
      case False
      have "scan_ok m (insert key V) (k, t)"
        using scan_ok_keep[OF _ Some False] Cons.prems acc by simp
      from Cons.IH[OF this] show ?thesis
        unfolding u acc using False by (simp only: evictOldest_scan.simps Some option.case if_False)
    qed
  qed
qed

lemma evictOldest_result:
  assumes e: "[] \<notin> fmdom' (entries tc)" and c: "fmdom' (entries tc) \<subseteq> set order"
    and n: "fmdom' (entries tc) \<noteq> {}"
  shows "\<exists>k e. fmlookup (entries tc) k = Some e
           \<and> TemplateCache_evictOldest order tc = tc\<lparr>entries := fmdrop k (entries tc)\<rparr>
           \<and> (\<forall>k' e'. fmlookup (entries tc) k' = Some e' \<longrightarrow> AccessedAt e \<le> AccessedAt e')"
proof -
  define acc where "acc = evictOldest_scan (entries tc) order ([], 0)"
  have "scan_ok (entries tc) {} ([], 0)" unfolding scan_ok_def by simp
  from evictOldest_scan_ok[OF e this, of order]
  have ok: "scan_ok (entries tc) (set order) acc" unfolding acc_def by simp
  have "set order \<inter> fmdom' (entries tc) \<noteq> {}" using c n by blast
  with ok obtain e0 where k: "fst acc \<noteq> []" and l: "fmlookup (entries tc) (fst acc) = Some e0"
    and a: "AccessedAt e0 = snd acc"
    and m: "\<And>k' e'. k' \<in> set order \<Longrightarrow> fmlookup (entries tc) k' = Some e' \<Longrightarrow> snd acc \<le> AccessedAt e'"
    unfolding scan_ok_def by blast
  have "AccessedAt e0 \<le> AccessedAt e'" if "fmlookup (entries tc) k' = Some e'" for k' e'
  proof -
    have "k' \<in> set order" using that c fmdom'I by fastforce
    from m[OF this that] a show ?thesis by simp
  qed
  moreover have "TemplateCache_evictOldest order tc = tc\<lparr>entries := fmdrop (fst acc) (entries tc)\<rparr>"
    unfolding TemplateCache_evictOldest_def Let_def acc_def[symmetric] using k by simp
  ultimately show ?thesis using l by blast
qed

lemma card_fmdom'_drop:
  "fmlookup m k = Some e \<Longrightarrow> card (fmdom' (fmdrop k m)) = card (fmdom' m) - 1"
  by (simp add: fmdom'I)

lemma evictOldest_keeps_or_drops:
  "fmlookup (entries (TemplateCache_evictOldest order tc)) k = None
   \<or> fmlookup (entries (TemplateCache_evictOldest order tc)) k = fmlookup (entries tc) k"
  unfolding TemplateCache_evictOldest_def Let_def by (simp add: fmlookup_drop)

lemma evictOldest_dom: "fmdom' (entries (TemplateCache_evictOldest order tc)) \<subseteq> fmdom' (entries tc)"
  unfolding TemplateCache_evictOldest_def Let_def by auto

lemma evictOldest_fields:
  "maxSize (TemplateCache_evictOldest order tc) = maxSize tc"
  "ttl (TemplateCache_evictOldest order tc) = ttl tc"
  unfolding TemplateCache_evictOldest_def Let_def by simp_all

lemma Set_fields:
  "maxSize (TemplateCache_Set L fs now order tc filePath elements) = maxSize tc"
  "ttl (TemplateCache_Set L fs now order tc filePath elements) = ttl tc"
  unfolding TemplateCache_Set_def Let_def by (simp_all add: evictOldest_fields split: option.splits)

lemma Set_no_empty_key:
  assumes "[] \<notin> fmdom' (entries tc)"
  shows "[] \<notin> fmdom' (entries (TemplateCache_Set L fs now order tc filePath elements))"
proof (cases "os_Stat fs filePath")
  case None
  then show ?thesis using assms unfolding TemplateCache_Set_def by simp
next
  case (Some fileInfo)
  then have ne: "filePath \<noteq> []" unfolding os_Stat_def by (auto split: if_splits)
  define tc' where "tc' = tc\<lparr>entries := fmupd filePath \<lparr>Elements = elements,
      Hash = TemplateCache_calculateHash L elements, CreatedAt = now, AccessedAt = now,
      FileModTime = ModTime fileInfo\<rparr> (entries tc)\<rparr>"
  have d: "[] \<notin> fmdom' (entries tc')" unfolding tc'_def using assms ne by simp
  have "TemplateCache_Set L fs now order tc filePath elements =
          (if len_entries tc' > maxSize tc' then TemplateCache_evictOldest order tc' else tc')"
    unfolding TemplateCache_Set_def tc'_def Let_def using Some by simp
  with d evictOldest_dom[of order tc'] show ?thesis by auto
qed

lemma Set_bound:
  assumes e: "[] \<notin> fmdom' (entries tc)"
    and c: "insert filePath (fmdom' (entries tc)) \<subseteq> set order"
    and b: "len_entries tc \<le> maxSize tc"
  shows "len_entries (TemplateCache_Set L fs now order tc filePath elements) \<le> maxSize tc"
proof (cases "os_Stat fs filePath")
  case None
  then show ?thesis using b unfolding TemplateCache_Set_def by simp
next
  case (Some fileInfo)
  then have ne: "filePath \<noteq> []" unfolding os_Stat_def by (auto split: if_splits)
  define tc' where "tc' = tc\<lparr>entries := fmupd filePath \<lparr>Elements = elements,
      Hash = TemplateCache_calculateHash L elements, CreatedAt = now, AccessedAt = now,
      FileModTime = ModTime fileInfo\<rparr> (entries tc)\<rparr>"
  have S: "TemplateCache_Set L fs now order tc filePath elements =
          (if len_entries tc' > maxSize tc' then TemplateCache_evictOldest order tc' else tc')"
    unfolding TemplateCache_Set_def tc'_def Let_def using Some by simp
  have d: "[] \<notin> fmdom' (entries tc')" unfolding tc'_def using e ne by simp
  have dom: "fmdom' (entries tc') = insert filePath (fmdom' (entries tc))" unfolding tc'_def by simp
  have mx: "maxSize tc' = maxSize tc" unfolding tc'_def by simp
  have le: "len_entries tc' \<le> len_entries tc + 1"
    unfolding len_entries_def dom by (simp add: card_insert_if)
  show ?thesis
  proof (cases "len_entries tc' > maxSize tc'")
    case False
    then show ?thesis unfolding S using mx by simp
  next
    case True
    have cov: "fmdom' (entries tc') \<subseteq> set order" using c dom by simp
    have nemp: "fmdom' (entries tc') \<noteq> {}" using dom by simp
    from evictOldest_result[OF d cov nemp] obtain k e0 where
      l: "fmlookup (entries tc') k = Some e0" and
      r: "TemplateCache_evictOldest order tc' = tc'\<lparr>entries := fmdrop k (entries tc')\<rparr>" by blast
    have "len_entries (TemplateCache_evictOldest order tc') = len_entries tc' - 1"
    proof -
      have "card (fmdom' (entries tc')) \<ge> 1"
        using nemp by (simp add: Suc_leI card_gt_0_iff)
      then show ?thesis unfolding r len_entries_def using card_fmdom'_drop[OF l] by simp
    qed
    with le b True show ?thesis unfolding S by simp
  qed
qed

lemma Set_calls_bound:
  "[] \<notin> fmdom' (entries tc) \<Longrightarrow> orders_cover L tc calls \<Longrightarrow> len_entries tc \<le> maxSize tc
   \<Longrightarrow> len_entries (Set_calls L tc calls) \<le> maxSize tc"
proof (induction calls arbitrary: tc)
  case Nil
  then show ?case by simp
next
  case (Cons call calls)
  obtain fs now order filePath elements where call: "call = (fs, now, order, filePath, elements)"
    by (cases call)
  let ?tc = "TemplateCache_Set L fs now order tc filePath elements"
  have c: "insert filePath (fmdom' (entries tc)) \<subseteq> set order" and o: "orders_cover L ?tc calls"
    using Cons.prems(2) unfolding call by simp_all
  have "len_entries ?tc \<le> maxSize ?tc"
    using Set_bound[OF Cons.prems(1) c Cons.prems(3)] by (simp add: Set_fields)
  from Cons.IH[OF Set_no_empty_key[OF Cons.prems(1)] o this]
  show ?case unfolding call by (simp add: Set_fields)
qed

lemma Set_unfold:
  assumes "os_Stat fs filePath = Some fileInfo"
  shows "TemplateCache_Set L fs now order tc filePath elements =
     (if len_entries (tc\<lparr>entries := Set_inserted L now fileInfo tc filePath elements\<rparr>) > maxSize tc
      then TemplateCache_evictOldest order (tc\<lparr>entries := Set_inserted L now fileInfo tc filePath elements\<rparr>)
      else tc\<lparr>entries := Set_inserted L now fileInfo tc filePath elements\<rparr>)"
  unfolding TemplateCache_Set_def Set_inserted_def Let_def using assms by simp

lemma Set_evicts_lru:
  assumes e: "[] \<notin> fmdom' (entries tc)"
    and c: "insert filePath (fmdom' (entries tc)) \<subseteq> set order"
    and s: "os_Stat fs filePath = Some fileInfo"
    and k: "fmlookup (Set_inserted L now fileInfo tc filePath elements) k = Some e0"
    and g: "fmlookup (entries (TemplateCache_Set L fs now order tc filePath elements)) k = None"
    and k': "fmlookup (Set_inserted L now fileInfo tc filePath elements) k' = Some e'"
  shows "AccessedAt e0 \<le> AccessedAt e'"
proof -
  let ?M = "Set_inserted L now fileInfo tc filePath elements"
  let ?tc = "tc\<lparr>entries := ?M\<rparr>"
  have ne: "filePath \<noteq> []" using s unfolding os_Stat_def by (auto split: if_splits)
  have dom: "fmdom' ?M = insert filePath (fmdom' (entries tc))" unfolding Set_inserted_def by simp
  have d: "[] \<notin> fmdom' (entries ?tc)" using e ne dom by simp
  have cov: "fmdom' (entries ?tc) \<subseteq> set order" using c dom by simp
  have nemp: "fmdom' (entries ?tc) \<noteq> {}" using dom by simp
  have ev: "len_entries ?tc > maxSize tc"
  proof (rule ccontr)
    assume "\<not> len_entries ?tc > maxSize tc"
    then have "TemplateCache_Set L fs now order tc filePath elements = ?tc"
      using Set_unfold[OF s] by simp
    with g k show False by simp
  qed
  from evictOldest_result[OF d cov nemp] obtain k0 e1 where
    l: "fmlookup ?M k0 = Some e1" and
    r: "TemplateCache_evictOldest order ?tc = ?tc\<lparr>entries := fmdrop k0 ?M\<rparr>" and
    m: "\<And>k' e'. fmlookup ?M k' = Some e' \<Longrightarrow> AccessedAt e1 \<le> AccessedAt e'"
    by auto
  have "fmlookup (fmdrop k0 ?M) k = None"
    using g ev unfolding Set_unfold[OF s] r by simp
  with k have "k = k0" by (auto simp: fmlookup_drop split: if_splits)
  with l k have "e0 = e1" by simp
  with m[OF k'] show ?thesis by simp
qed

lemma NewTemplateCache_fields:
  "entries (NewTemplateCache n t) = fmempty" "maxSize (NewTemplateCache n t) = n"
  "ttl (NewTemplateCache n t) = t"
  unfolding NewTemplateCache_def by simp_all

text \<open>
  C2. Starting from a new cache of capacity \<open>n \<ge> 0\<close>, after every sequence of
  \<open>Set\<close> calls the number of entries is at most \<open>n\<close>; and when a \<open>Set\<close> evicts an
  entry, no entry of the map (the one just inserted included) has an earlier
  last-access time than the evicted one.  The order in which the runtime visits the
  keys is arbitrary, provided it visits them all.
\<close>

theorem cache_eviction_bound_and_lru:
  "(0 \<le> n \<and> orders_cover L (NewTemplateCache n t) calls
      \<longrightarrow> len_entries (Set_calls L (NewTemplateCache n t) calls) \<le> n)
   \<and> ([] \<notin> fmdom' (entries tc) \<and> insert filePath (fmdom' (entries tc)) \<subseteq> set order
        \<and> os_Stat fs filePath = Some fileInfo
        \<and> fmlookup (Set_inserted L now fileInfo tc filePath elements) k = Some e
        \<and> fmlookup (entries (TemplateCache_Set L fs now order tc filePath elements)) k = None
      \<longrightarrow> (\<forall>k' e'. fmlookup (Set_inserted L now fileInfo tc filePath elements) k' = Some e'
              \<longrightarrow> AccessedAt e \<le> AccessedAt e'))"
proof (intro conjI impI allI)
  assume a: "0 \<le> n \<and> orders_cover L (NewTemplateCache n t) calls"
  have "len_entries (NewTemplateCache n t) \<le> maxSize (NewTemplateCache n t)"
    using a unfolding len_entries_def NewTemplateCache_fields by simp
  moreover have "[] \<notin> fmdom' (entries (NewTemplateCache n t))"
    unfolding NewTemplateCache_fields by simp
  ultimately show "len_entries (Set_calls L (NewTemplateCache n t) calls) \<le> n"
    using Set_calls_bound[of "NewTemplateCache n t" L calls] a
    unfolding NewTemplateCache_fields(2) by blast
next
  fix k' e'
  assume "[] \<notin> fmdom' (entries tc) \<and> insert filePath (fmdom' (entries tc)) \<subseteq> set order
        \<and> os_Stat fs filePath = Some fileInfo
        \<and> fmlookup (Set_inserted L now fileInfo tc filePath elements) k = Some e
        \<and> fmlookup (entries (TemplateCache_Set L fs now order tc filePath elements)) k = None"
    and "fmlookup (Set_inserted L now fileInfo tc filePath elements) k' = Some e'"
  then show "AccessedAt e \<le> AccessedAt e'"
    using Set_evicts_lru[of tc filePath order fs fileInfo L now elements k e k' e'] by blast
qed

theorem cache_eviction_bound_and_lru_witness:
  "0 \<le> (1::int) \<and> orders_cover test_lib (NewTemplateCache 1 100) sample_calls
   \<and> len_entries (Set_calls test_lib (NewTemplateCache 1 100) sample_calls) \<le> 1
   \<and> [] \<notin> fmdom' (entries sample_cache)
   \<and> insert ''b.csv'' (fmdom' (entries sample_cache)) \<subseteq> set [''b.csv'', ''a.csv'']
   \<and> os_Stat sample_fs ''b.csv'' = Some (the (sample_fs ''b.csv''))
   \<and> fmlookup (Set_inserted test_lib 20 (the (sample_fs ''b.csv'')) sample_cache ''b.csv'' []) ''a.csv''
        = Some (sample_entry 10 5)
   \<and> fmlookup (entries (TemplateCache_Set test_lib sample_fs 20 [''b.csv'', ''a.csv''] sample_cache
        ''b.csv'' [])) ''a.csv'' = None
   \<and> fmlookup (Set_inserted test_lib 20 (the (sample_fs ''b.csv'')) sample_cache ''b.csv'' []) ''b.csv''
        = Some (sample_entry 20 6)
   \<and> AccessedAt (sample_entry 10 5) \<le> AccessedAt (sample_entry 20 6)"
proof -
  have h1: "orders_cover test_lib (NewTemplateCache 1 100) sample_calls" by code_simp
  have h2: "[] \<notin> fmdom' (entries sample_cache)" by code_simp
  have h3: "insert ''b.csv'' (fmdom' (entries sample_cache)) \<subseteq> set [''b.csv'', ''a.csv'']"
    by code_simp
  have h4: "os_Stat sample_fs ''b.csv'' = Some (the (sample_fs ''b.csv''))" by code_simp
  have h5: "fmlookup (Set_inserted test_lib 20 (the (sample_fs ''b.csv'')) sample_cache ''b.csv'' [])
      ''a.csv'' = Some (sample_entry 10 5)" by code_simp
  have h6: "fmlookup (entries (TemplateCache_Set test_lib sample_fs 20 [''b.csv'', ''a.csv'']
      sample_cache ''b.csv'' [])) ''a.csv'' = None" by code_simp
  have h7: "fmlookup (Set_inserted test_lib 20 (the (sample_fs ''b.csv'')) sample_cache ''b.csv'' [])
      ''b.csv'' = Some (sample_entry 20 6)" by code_simp
  from cache_eviction_bound_and_lru[of 1 test_lib 100 sample_calls sample_cache "''b.csv''"
      "[''b.csv'', ''a.csv'']" sample_fs "the (sample_fs ''b.csv'')" 20 "[]" "''a.csv''"
      "sample_entry 10 5"]
  show ?thesis using h1 h2 h3 h4 h5 h6 h7 by simp
qed

section \<open>Cache: fetch\<close>

lemma Get_hit_iff:
  "snd (fst (TemplateCache_Get fs now tc filePath)) \<longleftrightarrow>
     (case fmlookup (entries tc) filePath of
        None \<Rightarrow> False
      | Some entry \<Rightarrow>
         (case os_Stat fs filePath of
            None \<Rightarrow> False
          | Some fileInfo \<Rightarrow> now - CreatedAt entry \<le> ttl tc \<and> \<not> FileModTime entry < ModTime fileInfo))"
  unfolding TemplateCache_Get_def by (auto split: option.splits)

lemma Get_hit:
  assumes "snd (fst (TemplateCache_Get fs now tc filePath))"
  shows "\<exists>entry. fmlookup (entries tc) filePath = Some entry
           \<and> fst (fst (TemplateCache_Get fs now tc filePath)) = Elements entry
           \<and> fmlookup (entries (snd (TemplateCache_Get fs now tc filePath))) filePath
               = Some (entry\<lparr>AccessedAt := now\<rparr>)"
  using assms unfolding TemplateCache_Get_def by (auto split: option.splits if_splits)

lemma Get_miss:
  assumes "\<not> snd (fst (TemplateCache_Get fs now tc filePath))"
  shows "fmlookup (entries (snd (TemplateCache_Get fs now tc filePath))) filePath = None"
  using assms unfolding TemplateCache_Get_def by (auto split: option.splits if_splits)

lemma Get_other:
  "k \<noteq> filePath \<Longrightarrow>
   fmlookup (entries (snd (TemplateCache_Get fs now tc filePath))) k = fmlookup (entries tc) k"
  unfolding TemplateCache_Get_def by (auto split: option.splits if_splits)

lemma Set_lookup:
  "fmlookup (entries (TemplateCache_Set L fs now order tc filePath elements)) k = None
   \<or> (k \<noteq> filePath \<and> fmlookup (entries (TemplateCache_Set L fs now order tc filePath elements)) k
         = fmlookup (entries tc) k)
   \<or> (k = filePath \<and> (fmlookup (entries (TemplateCache_Set L fs now order tc filePath elements)) k
         = fmlookup (entries tc) k
       \<or> (\<exists>entry. fmlookup (entries (TemplateCache_Set L fs now order tc filePath elements)) k
         = Some entry \<and> Elements entry = elements)))"
proof (cases "os_Stat fs filePath")
  case None
  then show ?thesis unfolding TemplateCache_Set_def by simp
next
  case (Some fileInfo)
  let ?tc = "tc\<lparr>entries := Set_inserted L now fileInfo tc filePath elements\<rparr>"
  have a: "fmlookup (entries ?tc) k =
      (if k = filePath then Some \<lparr>Elements = elements, Hash = TemplateCache_calculateHash L elements,
          CreatedAt = now, AccessedAt = now, FileModTime = ModTime fileInfo\<rparr>
       else fmlookup (entries tc) k)"
    unfolding Set_inserted_def by auto
  show ?thesis
    using evictOldest_keeps_or_drops[of order ?tc k] a
    unfolding Set_unfold[OF Some] by (auto split: if_splits)
qed

lemma ParseCSV_hit:
  assumes "snd (fst (TemplateCache_Get fs t_get tc filePath))"
  shows "CSVParser_ParseCSV L fs t_get t_set order tc filePath =
           (Inr (fst (fst (TemplateCache_Get fs t_get tc filePath))),
            snd (TemplateCache_Get fs t_get tc filePath))"
  using assms unfolding CSVParser_ParseCSV_def by (auto split: prod.splits bool.splits)

lemma ParseCSV_miss:
  assumes "\<not> snd (fst (TemplateCache_Get fs t_get tc filePath))"
  shows "CSVParser_ParseCSV L fs t_get t_set order tc filePath =
           (parseCSVFile L fs filePath,
            case parseCSVFile L fs filePath of
              Inl err \<Rightarrow> snd (TemplateCache_Get fs t_get tc filePath)
            | Inr parsed \<Rightarrow> TemplateCache_Set L fs t_set order
                              (snd (TemplateCache_Get fs t_get tc filePath)) filePath parsed)"
  using assms unfolding CSVParser_ParseCSV_def by (auto split: prod.splits bool.splits sum.splits)

lemma ParseCSV_consistent_result:
  assumes "cache_consistent L fs tc filePath"
  shows "fst (CSVParser_ParseCSV L fs t_get t_set order tc filePath) = parseCSVFile L fs filePath"
proof (cases "snd (fst (TemplateCache_Get fs t_get tc filePath))")
  case True
  from Get_hit[OF True] assms show ?thesis
    unfolding ParseCSV_hit[OF True] cache_consistent_def by auto
next
  case False
  then show ?thesis unfolding ParseCSV_miss[OF False] by simp
qed

lemma ParseCSV_keeps_consistent:
  assumes "cache_consistent L fs tc filePath"
  shows "cache_consistent L fs (snd (CSVParser_ParseCSV L fs t_get t_set order tc other)) filePath"
proof (cases "snd (fst (TemplateCache_Get fs t_get tc other))")
  case True
  show ?thesis
  proof (cases "other = filePath")
    case same: True
    have T: "snd (fst (TemplateCache_Get fs t_get tc filePath))" using True same by simp
    from Get_hit[OF T] assms show ?thesis
      unfolding same ParseCSV_hit[OF T] cache_consistent_def by auto
  next
    case False
    then show ?thesis
      using assms Get_other[of filePath other fs t_get tc]
      unfolding ParseCSV_hit[OF True] cache_consistent_def by simp
  qed
next
  case False
  let ?tc = "snd (TemplateCache_Get fs t_get tc other)"
  have g: "fmlookup (entries ?tc) filePath = None
           \<or> fmlookup (entries ?tc) filePath = fmlookup (entries tc) filePath"
    using Get_miss[OF False] Get_other[of filePath other fs t_get tc] by (cases "other = filePath") auto
  then have c: "cache_consistent L fs ?tc filePath"
    using assms unfolding cache_consistent_def by auto
  show ?thesis
  proof (cases "parseCSVFile L fs other")
    case (Inl err)
    then show ?thesis unfolding ParseCSV_miss[OF False] using c by simp
  next
    case (Inr parsed)
    from Set_lookup[of L fs t_set order ?tc other parsed filePath]
    show ?thesis
      unfolding ParseCSV_miss[OF False] using c Inr Get_miss[OF False]
      unfolding cache_consistent_def
      by (auto split: option.splits)
  qed
qed

lemma ParseCSV_stale:
  assumes "fmlookup (entries tc) filePath = Some entry" "os_Stat fs filePath = Some fileInfo"
    "FileModTime entry < ModTime fileInfo"
  shows "fst (CSVParser_ParseCSV L fs t_get t_set order tc filePath) = parseCSVFile L fs filePath"
proof -
  have "\<not> snd (fst (TemplateCache_Get fs t_get tc filePath))"
    unfolding Get_hit_iff using assms by simp
  from ParseCSV_miss[OF this] show ?thesis by simp
qed


text \<open>
  C1. \<open>Get\<close> reports a hit exactly when an entry exists for the path, \<open>os.Stat\<close>
  succeeds, the entry's age does not exceed the TTL and the recorded modification
  time is not older than the one on disk, and a hit returns the stored elements; in
  every other case it reports a miss.  While the source is left unmodified (the
  cached entry, if any, holds what the file parses to), two fetches in a row return
  the same result, so element sequences with the same content hash; and once the
  modification time on disk is later than the recorded one, the fetch misses and
  returns what parsing the file as it is now gives.
\<close>

theorem cache_fetch_correct:
  "(snd (fst (TemplateCache_Get fs now tc filePath)) \<longleftrightarrow>
      (\<exists>entry fileInfo. fmlookup (entries tc) filePath = Some entry
          \<and> os_Stat fs filePath = Some fileInfo
          \<and> now - CreatedAt entry \<le> ttl tc
          \<and> \<not> FileModTime entry < ModTime fileInfo))
   \<and> (\<forall>entry. snd (fst (TemplateCache_Get fs now tc filePath))
          \<and> fmlookup (entries tc) filePath = Some entry
        \<longrightarrow> fst (fst (TemplateCache_Get fs now tc filePath)) = Elements entry)
   \<and> (cache_consistent L fs tc filePath \<longrightarrow>
        (let first = CSVParser_ParseCSV L fs t1 t1' order1 tc filePath;
             second = CSVParser_ParseCSV L fs t2 t2' order2 (snd first) filePath
         in fst first = fst second
            \<and> (\<forall>elements1 elements2. fst first = Inr elements1 \<and> fst second = Inr elements2
                  \<longrightarrow> TemplateCache_calculateHash L elements1 = TemplateCache_calculateHash L elements2)))
   \<and> (\<forall>entry fileInfo. fmlookup (entries tc) filePath = Some entry
          \<and> os_Stat fs filePath = Some fileInfo \<and> FileModTime entry < ModTime fileInfo
        \<longrightarrow> \<not> snd (fst (TemplateCache_Get fs now tc filePath))
            \<and> fst (CSVParser_ParseCSV L fs now t1' order1 tc filePath) = parseCSVFile L fs filePath)"
proof (intro conjI allI impI)
  show "snd (fst (TemplateCache_Get fs now tc filePath)) \<longleftrightarrow>
      (\<exists>entry fileInfo. fmlookup (entries tc) filePath = Some entry
          \<and> os_Stat fs filePath = Some fileInfo
          \<and> now - CreatedAt entry \<le> ttl tc
          \<and> \<not> FileModTime entry < ModTime fileInfo)"
    unfolding Get_hit_iff by (auto split: option.splits)
next
  fix entry
  assume "snd (fst (TemplateCache_Get fs now tc filePath)) \<and> fmlookup (entries tc) filePath = Some entry"
  then show "fst (fst (TemplateCache_Get fs now tc filePath)) = Elements entry"
    using Get_hit[of fs now tc filePath] by auto
next
  assume c: "cache_consistent L fs tc filePath"
  let ?first = "CSVParser_ParseCSV L fs t1 t1' order1 tc filePath"
  let ?second = "CSVParser_ParseCSV L fs t2 t2' order2 (snd ?first) filePath"
  have 1: "fst ?first = parseCSVFile L fs filePath"
    by (rule ParseCSV_consistent_result[OF c])
  have 2: "fst ?second = parseCSVFile L fs filePath"
    by (rule ParseCSV_consistent_result[OF ParseCSV_keeps_consistent[OF c]])
  show "let first = ?first; second = CSVParser_ParseCSV L fs t2 t2' order2 (snd first) filePath
        in fst first = fst second
           \<and> (\<forall>elements1 elements2. fst first = Inr elements1 \<and> fst second = Inr elements2
                 \<longrightarrow> TemplateCache_calculateHash L elements1 = TemplateCache_calculateHash L elements2)"
    unfolding Let_def 1 2 by auto
next
  fix entry fileInfo
  assume a: "fmlookup (entries tc) filePath = Some entry
          \<and> os_Stat fs filePath = Some fileInfo \<and> FileModTime entry < ModTime fileInfo"
  then show "\<not> snd (fst (TemplateCache_Get fs now tc filePath))"
    unfolding Get_hit_iff by simp
  from a show "fst (CSVParser_ParseCSV L fs now t1' order1 tc filePath) = parseCSVFile L fs filePath"
    using ParseCSV_stale[of tc filePath entry fs fileInfo L now t1' order1] by blast
qed

theorem cache_fetch_correct_witness:
  "snd (fst (TemplateCache_Get sample_fs 20 filled_cache ''a.csv''))
   \<and> fmlookup (entries filled_cache) ''a.csv''
       = Some \<lparr>Elements = [sample_element],
                Hash = TemplateCache_calculateHash test_lib [sample_element],
                CreatedAt = 10, AccessedAt = 10, FileModTime = 5\<rparr>
   \<and> fst (fst (TemplateCache_Get sample_fs 20 filled_cache ''a.csv'')) = [sample_element]
   \<and> cache_consistent test_lib sample_fs fetched_cache ''a.csv''
   \<and> fst (CSVParser_ParseCSV test_lib sample_fs 20 21 [''a.csv''] fetched_cache ''a.csv'')
       = fst (CSVParser_ParseCSV test_lib sample_fs 200 201 [''a.csv'']
               (snd (CSVParser_ParseCSV test_lib sample_fs 20 21 [''a.csv''] fetched_cache ''a.csv''))
               ''a.csv'')
   \<and> fmlookup (entries fetched_cache) ''a.csv'' = Some (sample_entry 11 5)
   \<and> os_Stat touched_fs ''a.csv'' = Some (the (touched_fs ''a.csv''))
   \<and> FileModTime (sample_entry 11 5) < ModTime (the (touched_fs ''a.csv''))
   \<and> \<not> snd (fst (TemplateCache_Get touched_fs 20 fetched_cache ''a.csv''))
   \<and> fst (CSVParser_ParseCSV test_lib touched_fs 20 21 [''a.csv''] fetched_cache ''a.csv'')
       = parseCSVFile test_lib touched_fs ''a.csv''"
proof -
  have h1: "snd (fst (TemplateCache_Get sample_fs 20 filled_cache ''a.csv''))" by code_simp
  have h2: "fmlookup (entries filled_cache) ''a.csv''
       = Some \<lparr>Elements = [sample_element],
                Hash = TemplateCache_calculateHash test_lib [sample_element],
                CreatedAt = 10, AccessedAt = 10, FileModTime = 5\<rparr>" by code_simp
  have h3: "cache_consistent test_lib sample_fs fetched_cache ''a.csv''" by code_simp
  have h4: "fmlookup (entries fetched_cache) ''a.csv'' = Some (sample_entry 11 5)" by code_simp
  have h5: "os_Stat touched_fs ''a.csv'' = Some (the (touched_fs ''a.csv''))" by code_simp
  have h6: "FileModTime (sample_entry 11 5) < ModTime (the (touched_fs ''a.csv''))" by code_simp
  note A = cache_fetch_correct[of sample_fs 20 filled_cache "''a.csv''" test_lib 20 21 "[''a.csv'']" 200 201
      "[''a.csv'']"]
  note B = cache_fetch_correct[of sample_fs 20 fetched_cache "''a.csv''" test_lib 20 21 "[''a.csv'']" 200 201
      "[''a.csv'']"]
  note C = cache_fetch_correct[of touched_fs 20 fetched_cache "''a.csv''" test_lib 20 21 "[''a.csv'']" 200 201
      "[''a.csv'']"]
  have a: "fst (fst (TemplateCache_Get sample_fs 20 filled_cache ''a.csv'')) = [sample_element]"
    using A h1 h2 by simp
  have b: "fst (CSVParser_ParseCSV test_lib sample_fs 20 21 [''a.csv''] fetched_cache ''a.csv'')
       = fst (CSVParser_ParseCSV test_lib sample_fs 200 201 [''a.csv'']
               (snd (CSVParser_ParseCSV test_lib sample_fs 20 21 [''a.csv''] fetched_cache ''a.csv''))
               ''a.csv'')"
    using B h3 unfolding Let_def by blast
  have c: "\<not> snd (fst (TemplateCache_Get touched_fs 20 fetched_cache ''a.csv''))
   \<and> fst (CSVParser_ParseCSV test_lib touched_fs 20 21 [''a.csv''] fetched_cache ''a.csv'')
       = parseCSVFile test_lib touched_fs ''a.csv''"
    using C h4 h5 h6 by blast
  show ?thesis using h1 h2 h3 h4 h5 h6 a b c by blast
qed

section \<open>Cache: locking\<close>

lemma Get_steps_replay:
  "replay (TemplateCache_Get_steps fs now tc filePath) (entries tc)
     = entries (snd (TemplateCache_Get fs now tc filePath))"
  unfolding TemplateCache_Get_steps_def TemplateCache_Get_def replay_def apply_write_def
  by (simp split: option.splits)

lemma Set_steps_replay:
  "replay (TemplateCache_Set_steps L fs now order tc filePath elements) (entries tc)
     = entries (TemplateCache_Set L fs now order tc filePath elements)"
  unfolding TemplateCache_Set_steps_def TemplateCache_Set_def TemplateCache_evictOldest_def
    replay_def apply_write_def
  by (simp add: Let_def split: option.splits)

lemma Clear_steps_replay:
  "replay (TemplateCache_Clear_steps tc) (entries tc) = entries (TemplateCache_Clear tc)"
  unfolding TemplateCache_Clear_steps_def TemplateCache_Clear_def replay_def apply_write_def
  by simp

lemma replay_deletes:
  "replay (map (\<lambda>key. (Exclusive, Delete key)) keys) m = fmfilter (\<lambda>key. key \<notin> set keys) m"
proof (induction keys arbitrary: m)
  case Nil
  show ?case unfolding replay_def by simp
next
  case (Cons k keys)
  have "replay (map (\<lambda>key. (Exclusive, Delete key)) (k # keys)) m
        = replay (map (\<lambda>key. (Exclusive, Delete key)) keys) (fmdrop k m)"
    unfolding replay_def apply_write_def by simp
  also have "\<dots> = fmfilter (\<lambda>key. key \<notin> set keys) (fmdrop k m)" by (rule Cons.IH)
  also have "\<dots> = fmfilter (\<lambda>key. key \<notin> set (k # keys)) m"
    unfolding fmfilter_alt_defs by (simp add: fmfilter_comm) (rule fmfilter_cong, auto)
  finally show ?case .
qed

lemma cleanup_steps_replay:
  assumes "fmdom' (entries tc) \<subseteq> set order"
  shows "replay (TemplateCache_cleanup_steps now order tc) (entries tc)
           = entries (TemplateCache_cleanup_pass now tc)"
proof -
  let ?expired = "\<lambda>key. case fmlookup (entries tc) key of
                        None \<Rightarrow> False | Some entry \<Rightarrow> now - CreatedAt entry > ttl tc"
  have "replay (TemplateCache_cleanup_steps now order tc) (entries tc)
        = fmfilter (\<lambda>key. key \<notin> set (filter ?expired order)) (entries tc)"
    unfolding TemplateCache_cleanup_steps_def by (rule replay_deletes)
  also have "\<dots> = fmfilter (\<lambda>key. case fmlookup (entries tc) key of
                                      None \<Rightarrow> False
                                    | Some entry \<Rightarrow> \<not> now - CreatedAt entry > ttl tc) (entries tc)"
  proof (rule fmfilter_cong')
    fix x
    assume "x \<in> fmdom' (entries tc)"
    then obtain e where "fmlookup (entries tc) x = Some e" and "x \<in> set order"
      using assms by (meson fmlookup_dom'_iff subsetD)
    then show "(x \<notin> set (filter ?expired order))
              = (case fmlookup (entries tc) x of None \<Rightarrow> False
                 | Some entry \<Rightarrow> \<not> now - CreatedAt entry > ttl tc)"
      by simp
  qed simp
  finally show ?thesis unfolding TemplateCache_cleanup_pass_def by simp
qed


lemma Set_holds_exclusive_lock:
  "exclusive_writes (TemplateCache_Set_steps L fs now order tc filePath elements)"
  unfolding exclusive_writes_def TemplateCache_Set_steps_def
  by (simp add: Let_def split: option.splits)

lemma Clear_holds_exclusive_lock: "exclusive_writes (TemplateCache_Clear_steps tc)"
  unfolding exclusive_writes_def TemplateCache_Clear_steps_def by simp

lemma cleanup_holds_exclusive_lock: "exclusive_writes (TemplateCache_cleanup_steps now order tc)"
  unfolding exclusive_writes_def TemplateCache_cleanup_steps_def
  by (simp add: list_all_iff)

text \<open>
  C8. The specification has every write to the store, the access-time touch of a
  cache hit and the deletion of a stale entry included, made under a lock that
  excludes concurrent readers.  \<open>Set\<close>, \<open>Clear\<close> and \<open>cleanup\<close> do so.  \<open>Get\<close> does not:
  it holds the lock in shared mode (\<open>RLock\<close>) and whenever it finds an entry for the
  path it writes, either the touch of \<open>AccessedAt\<close> or the \<open>delete\<close> of the entry, so
  each of its writes is made while other readers may hold the lock too.
\<close>

theorem Get_writes_under_shared_lock:
  "fmlookup (entries tc) filePath = Some entry
   \<longrightarrow> TemplateCache_Get_steps fs now tc filePath \<noteq> []
       \<and> list_all (\<lambda>step. fst step = Shared) (TemplateCache_Get_steps fs now tc filePath)
       \<and> \<not> exclusive_writes (TemplateCache_Get_steps fs now tc filePath)"
  unfolding TemplateCache_Get_steps_def exclusive_writes_def
  by (simp split: option.splits)

theorem Get_writes_under_shared_lock_witness:
  "fmlookup (entries filled_cache) ''a.csv''
       = Some \<lparr>Elements = [sample_element],
                Hash = TemplateCache_calculateHash test_lib [sample_element],
                CreatedAt = 10, AccessedAt = 10, FileModTime = 5\<rparr>
   \<and> TemplateCache_Get_steps sample_fs 20 filled_cache ''a.csv'' = [(Shared, Touch ''a.csv'' 20)]
   \<and> TemplateCache_Get_steps touched_fs 20 filled_cache ''a.csv'' = [(Shared, Delete ''a.csv'')]
   \<and> \<not> exclusive_writes (TemplateCache_Get_steps sample_fs 20 filled_cache ''a.csv'')
   \<and> \<not> exclusive_writes (TemplateCache_Get_steps touched_fs 20 filled_cache ''a.csv'')"
proof -
  have h: "fmlookup (entries filled_cache) ''a.csv''
       = Some \<lparr>Elements = [sample_element],
                Hash = TemplateCache_calculateHash test_lib [sample_element],
                CreatedAt = 10, AccessedAt = 10, FileModTime = 5\<rparr>" by code_simp
  have a: "TemplateCache_Get_steps sample_fs 20 filled_cache ''a.csv'' = [(Shared, Touch ''a.csv'' 20)]"
    by code_simp
  have b: "TemplateCache_Get_steps touched_fs 20 filled_cache ''a.csv'' = [(Shared, Delete ''a.csv'')]"
    by code_simp
  from Get_writes_under_shared_lock[of filled_cache "''a.csv''" _ sample_fs 20]
    Get_writes_under_shared_lock[of filled_cache "''a.csv''" _ touched_fs 20] h
  have "\<not> exclusive_writes (TemplateCache_Get_steps sample_fs 20 filled_cache ''a.csv'')"
    "\<not> exclusive_writes (TemplateCache_Get_steps touched_fs 20 filled_cache ''a.csv'')"
    by blast+
  with h a b show ?thesis by blast
qed

section \<open>Parser\<close>

lemma Read_fields_ok:
  assumes "loop_state n headers h r" "unread r = Fields row # rest" "length row = n"
  shows "Reader_Read h r =
           ((headers, None), [row], r\<lparr>unread := rest, lastRecord := headers\<rparr>)"
proof -
  from assms(1) obtain a where h: "h = [a]" and la: "length a = n"
    unfolding loop_state_def by (cases h) auto
  from assms(1) have hd: "headers = Some \<lparr>slice_array = 0, slice_len = n\<rparr>"
    and lr: "lastRecord r = headers" and ru: "ReuseRecord r" and fp: "FieldsPerRecord r = int n"
    and n: "0 < n"
    unfolding loop_state_def by auto
  have rr: "readRecord h r (lastRecord r) = ((headers, None), [row], r\<lparr>unread := rest\<rparr>)"
    unfolding readRecord_def using assms(2,3) h la hd lr fp n
    by (simp add: cap_def Let_def)
  show ?thesis unfolding Reader_Read_def using ru rr by simp
qed

lemma Read_fields_mismatch:
  assumes "loop_state n headers h r" "unread r = Fields row # rest" "length row \<noteq> n"
  shows "\<exists>record h' r'. Reader_Read h r = ((record, Some ErrFieldCount), h', r')"
proof -
  from assms(1) have ru: "ReuseRecord r" and fp: "FieldsPerRecord r = int n" and n: "0 < n"
    unfolding loop_state_def by auto
  have "\<exists>record h' r'. readRecord h r (lastRecord r) = ((record, Some ErrFieldCount), h', r')"
    unfolding readRecord_def using assms(2,3) fp n
    by (simp add: Let_def split: prod.splits)
  then show ?thesis unfolding Reader_Read_def using ru by (auto split: prod.splits)
qed

lemma Read_bad:
  assumes "ReuseRecord r" "unread r = BadLine # rest"
  shows "\<exists>record h' r'. Reader_Read h r = ((record, Some ErrSyntax), h', r')"
  unfolding Reader_Read_def readRecord_def using assms by simp

lemma Read_eof:
  assumes "ReuseRecord r" "unread r = []"
  shows "\<exists>record h' r'. Reader_Read h r = ((record, Some EOF), h', r')"
  unfolding Reader_Read_def readRecord_def using assms by simp

lemma loop_state_next:
  assumes "loop_state n headers h r" "length row = n"
  shows "loop_state n headers [row] (r\<lparr>unread := rest, lastRecord := headers\<rparr>)"
  using assms unfolding loop_state_def by simp

lemma parseRows_reads_record_as_header:
  assumes "loop_state n headers h r" "unread r = Fields row # rest" "length row = n"
    and "Reader_Read h r = ((record, err), h', r')"
  shows "deref h' headers = row \<and> deref h' record = row"
  using assms(4) assms(1,3) unfolding Read_fields_ok[OF assms(1-3)]
  by (auto simp: deref_def loop_state_def)

lemma parseRows_rows_result:
  "loop_state n headers h r \<Longrightarrow> unread r = ls
   \<Longrightarrow> parseRows L headers h r rowIndex elements = rows_result L n rowIndex ls elements"
proof (induction ls arbitrary: h r rowIndex elements)
  case Nil
  from Read_eof[of r h] Nil obtain rcd h' r' where
    "Reader_Read h r = ((rcd, Some EOF), h', r')" unfolding loop_state_def by auto
  then show ?case by (subst parseRows.simps) simp
next
  case (Cons l ls)
  show ?case
  proof (cases l)
    case BadLine
    from Read_bad[of r ls h] Cons.prems BadLine obtain rcd h' r' where
      "Reader_Read h r = ((rcd, Some ErrSyntax), h', r')" unfolding loop_state_def by auto
    then show ?thesis unfolding BadLine by (subst parseRows.simps) simp
  next
    case (Fields row)
    show ?thesis
    proof (cases "length row = n")
      case False
      from Read_fields_mismatch[OF Cons.prems(1) _ False, of ls] Cons.prems(2) Fields
      obtain rcd h' r' where "Reader_Read h r = ((rcd, Some ErrFieldCount), h', r')" by auto
      then show ?thesis unfolding Fields using False by (subst parseRows.simps) simp
    next
      case True
      have i: "unread r = Fields row # ls" using Cons.prems(2) Fields by simp
      let ?r = "r\<lparr>unread := ls, lastRecord := headers\<rparr>"
      note R = Read_fields_ok[OF Cons.prems(1) i True]
      have st: "loop_state n headers [row] ?r" by (rule loop_state_next[OF Cons.prems(1) True])
      have inp: "unread ?r = ls" by simp
      have d: "deref [row] headers = row"
        using Cons.prems(1) True unfolding loop_state_def deref_def by auto
      note IH = Cons.IH[OF st inp]
      show ?thesis
        unfolding Fields
        by (subst parseRows.simps)
           (simp add: R d IH True split: prod.splits option.splits)
    qed
  qed
qed

lemma parseCSVFile_rows_result:
  assumes "os_Open fs filePath = Some file" "Contents file = Fields hs # ls" "hs \<noteq> []"
  shows "parseCSVFile L fs filePath = rows_result L (length hs) 1 ls []"
proof -
  define r0 where "r0 = (csv_NewReader (Contents file))\<lparr>ReuseRecord := True\<rparr>"
  have f: "unread r0 = Fields hs # ls" "FieldsPerRecord r0 = 0" "ReuseRecord r0" "lastRecord r0 = None"
    unfolding r0_def csv_NewReader_def using assms(2) by simp_all
  let ?hd = "Some \<lparr>slice_array = 0, slice_len = length hs\<rparr>"
  let ?r = "r0\<lparr>unread := ls, FieldsPerRecord := int (length hs), lastRecord := ?hd\<rparr>"
  have rr: "readRecord [] r0 None =
      ((?hd, None), [hs], r0\<lparr>unread := ls, FieldsPerRecord := int (length hs)\<rparr>)"
    unfolding readRecord_def using f assms(3) by (simp add: cap_def Let_def)
  have R: "Reader_Read [] r0 = ((?hd, None), [hs], ?r)"
    unfolding Reader_Read_def using rr f by simp
  have st: "loop_state (length hs) ?hd [hs] ?r"
    unfolding loop_state_def using assms(3) f by simp
  have "parseRows L ?hd [hs] ?r 1 [] = rows_result L (length hs) 1 ls []"
    by (rule parseRows_rows_result[OF st]) simp
  moreover have "parseCSVFile L fs filePath =
      (case Reader_Read [] r0 of
         ((headers, Some err), h, r) \<Rightarrow> Inl (ErrHeaders err)
       | ((headers, None), h, r) \<Rightarrow> parseRows L headers h r 1 [])"
    unfolding parseCSVFile_def r0_def using assms(1)
    by (simp add: Let_def split: prod.splits option.splits)
  ultimately show ?thesis unfolding R by simp
qed

lemma Validate_rejects:
  "Size_Width (Size e) = 0 \<or> Position_X (Position e) < 0 \<Longrightarrow> fst (Validate e) \<noteq> None"
  unfolding Validate_def by auto

lemma rows_result_mismatch:
  "Fields row \<in> set ls \<Longrightarrow> length row \<noteq> n \<Longrightarrow> \<exists>err. rows_result L n rowIndex ls elements = Inl err"
proof (induction ls arbitrary: rowIndex elements)
  case Nil
  then show ?case by simp
next
  case (Cons l ls)
  show ?case
  proof (cases l)
    case BadLine
    then show ?thesis by simp
  next
    case (Fields row')
    show ?thesis
    proof (cases "length row' = n")
      case False
      then show ?thesis unfolding Fields by simp
    next
      case True
      with Cons.prems Fields have "Fields row \<in> set ls" by auto
      from Cons.IH[OF this Cons.prems(2)] True show ?thesis
        unfolding Fields by (auto split: prod.splits option.splits)
    qed
  qed
qed

text \<open>
  The consequence of reading the header through the reused record: under a header
  the parser gives every record the record's own fields as column names, so the
  column \<open>width\<close> is either missing or holds the text \<open>width\<close>, the width is 0, and
  the element fails validation.
\<close>

lemma row_data_self:
  "(\<forall>k v. m k = Some v \<longrightarrow> v = k)
   \<Longrightarrow> foldl (\<lambda>data (header, v). data(header \<mapsto> v)) m (zip row row) k = Some v \<Longrightarrow> v = k"
proof (induction row arbitrary: m)
  case Nil
  then show ?case by simp
next
  case (Cons a row)
  have "\<forall>k v. (m(a \<mapsto> a)) k = Some v \<longrightarrow> v = k" using Cons.prems(1) by auto
  from Cons.IH[OF this] Cons.prems(2) show ?case by simp
qed

lemma data_at_self: "data_at (row_data row row) k = [] \<or> data_at (row_data row row) k = k"
  unfolding data_at_def row_data_def
  using row_data_self[of Map.empty row k] by (auto split: option.splits)

lemma width_of_self_row:
  assumes "strconv_ParseFloat L ''width'' = None"
  shows "Size_Width (Size (createElementFromRow L row row rowIndex)) = 0"
proof -
  have "ParseFloat L (data_at (row_data row row) ''width'') = 0"
    using data_at_self[of row "''width''"] assms unfolding ParseFloat_def by auto
  then show ?thesis unfolding createElementFromRow_def Let_def by simp
qed

lemma self_row_rejected:
  assumes "strconv_ParseFloat L ''width'' = None"
  shows "\<exists>verr element. Validate (createElementFromRow L row row rowIndex) = (Some verr, element)"
proof -
  have "fst (Validate (createElementFromRow L row row rowIndex)) \<noteq> None"
    using Validate_rejects width_of_self_row[OF assms] by blast
  then show ?thesis by (cases "Validate (createElementFromRow L row row rowIndex)") auto
qed

lemma rows_result_drops_all:
  assumes "strconv_ParseFloat L ''width'' = None"
  shows "\<forall>row\<in>set rows. length row = n
         \<Longrightarrow> rows_result L n rowIndex (map Fields rows) elements = Inr elements"
proof (induction rows arbitrary: rowIndex)
  case Nil
  show ?case by simp
next
  case (Cons row rows)
  from self_row_rejected[OF assms, of row "rowIndex + 1"] obtain verr element where
    V: "Validate (createElementFromRow L row row (rowIndex + 1)) = (Some verr, element)" by blast
  from Cons.prems have n: "length row = n" and r: "\<forall>row\<in>set rows. length row = n" by simp_all
  from Cons.IH[OF r, of "rowIndex + 1"] show ?case using n V by simp
qed

text \<open>
  C3. The specification has a data row whose field count differs from the header's
  skipped, with the parse going on.  The code does not do that: the reader is left
  at \<open>FieldsPerRecord = 0\<close>, so from the header on \<open>Read\<close> answers every record of
  another length with \<open>ErrFieldCount\<close>, and \<open>parseCSVFile\<close> returns on any error other
  than \<open>io.EOF\<close> before it reaches its own comparison of the lengths.  Whenever the
  file holds such a row under a non-empty header, the parse fails as a whole.
\<close>

theorem mismatched_row_fails_parse:
  "os_Open fs filePath = Some file \<and> Contents file = Fields hs # ls \<and> hs \<noteq> []
     \<and> Fields row \<in> set ls \<and> length row \<noteq> length hs
   \<longrightarrow> (\<exists>err. parseCSVFile L fs filePath = Inl err)"
proof
  assume a: "os_Open fs filePath = Some file \<and> Contents file = Fields hs # ls \<and> hs \<noteq> []
     \<and> Fields row \<in> set ls \<and> length row \<noteq> length hs"
  then have "parseCSVFile L fs filePath = rows_result L (length hs) 1 ls []"
    using parseCSVFile_rows_result[of fs filePath "file" hs ls L] by blast
  with a show "\<exists>err. parseCSVFile L fs filePath = Inl err"
    using rows_result_mismatch[of row ls "length hs" L 1 "[]"] by simp
qed

theorem mismatched_row_fails_parse_witness:
  "os_Open short_row_fs ''t.csv'' = Some (the (short_row_fs ''t.csv''))
   \<and> Contents (the (short_row_fs ''t.csv'')) =
        Fields [''type'', ''x'', ''y'', ''width'', ''height'', ''text'']
        # [Fields [''text'', ''1'', ''2''], Fields [''text'', ''1'', ''2'', ''30'', ''10'', ''hello'']]
   \<and> Fields [''text'', ''1'', ''2'']
        \<in> set [Fields [''text'', ''1'', ''2''], Fields [''text'', ''1'', ''2'', ''30'', ''10'', ''hello'']]
   \<and> length [''text'', ''1'', ''2''] \<noteq> length [''type'', ''x'', ''y'', ''width'', ''height'', ''text'']
   \<and> (\<exists>err. parseCSVFile test_lib short_row_fs ''t.csv'' = Inl err)
   \<and> parseCSVFile test_lib short_row_fs ''t.csv'' = Inl (ErrRow 2 ErrFieldCount)"
proof -
  have h1: "os_Open short_row_fs ''t.csv'' = Some (the (short_row_fs ''t.csv''))" by code_simp
  have h2: "Contents (the (short_row_fs ''t.csv'')) =
        Fields [''type'', ''x'', ''y'', ''width'', ''height'', ''text'']
        # [Fields [''text'', ''1'', ''2''], Fields [''text'', ''1'', ''2'', ''30'', ''10'', ''hello'']]"
    by code_simp
  have h3: "Fields [''text'', ''1'', ''2'']
        \<in> set [Fields [''text'', ''1'', ''2''], Fields [''text'', ''1'', ''2'', ''30'', ''10'', ''hello'']]"
    by simp
  have h4: "length [''text'', ''1'', ''2''] \<noteq> length [''type'', ''x'', ''y'', ''width'', ''height'', ''text'']"
    by simp
  have h5: "[''type'', ''x'', ''y'', ''width'', ''height'', ''text''] \<noteq> []" by simp
  have e: "parseCSVFile test_lib short_row_fs ''t.csv'' = Inl (ErrRow 2 ErrFieldCount)" by code_simp
  from mismatched_row_fails_parse[of short_row_fs "''t.csv''" "the (short_row_fs ''t.csv'')"
      "[''type'', ''x'', ''y'', ''width'', ''height'', ''text'']"
      "[Fields [''text'', ''1'', ''2''], Fields [''text'', ''1'', ''2'', ''30'', ''10'', ''hello'']]"
      "[''text'', ''1'', ''2'']" test_lib] h1 h2 h3 h4 h5
  have "\<exists>err. parseCSVFile test_lib short_row_fs ''t.csv'' = Inl err" by blast
  with h1 h2 h3 h4 e show ?thesis by blast
qed

text \<open>
  C7. The specification has the parser leave out the elements that fail validation
  (width 0, negative x) and go on with the rest of the rows, which reach the returned
  sequence.  The code goes on with the rest of the rows, but it leaves out every one
  of them: the reader is set to \<open>ReuseRecord\<close>, so the header slice kept from the
  first \<open>Read\<close> shares its array with each later record, every row is read under
  its own fields as column names, the column \<open>width\<close> is missing or holds the text
  \<open>width\<close>, the width is 0 and \<open>Validate\<close> rejects the element.  So whenever
  \<open>strconv.ParseFloat\<close> rejects the text \<open>width\<close> (as Go's does), a template with a
  non-empty header whose records all have the header's number of fields parses,
  without an error, to the empty sequence, whatever its rows say.
\<close>

theorem parse_returns_no_element:
  "strconv_ParseFloat L ''width'' = None
     \<and> os_Open fs filePath = Some fl \<and> Contents fl = Fields hs # map Fields rows \<and> hs \<noteq> []
     \<and> (\<forall>row\<in>set rows. length row = length hs)
   \<longrightarrow> parseCSVFile L fs filePath = Inr []"
proof
  assume a: "strconv_ParseFloat L ''width'' = None
     \<and> os_Open fs filePath = Some fl \<and> Contents fl = Fields hs # map Fields rows \<and> hs \<noteq> []
     \<and> (\<forall>row\<in>set rows. length row = length hs)"
  then have "parseCSVFile L fs filePath = rows_result L (length hs) 1 (map Fields rows) []"
    using parseCSVFile_rows_result[of fs filePath fl hs "map Fields rows" L] by blast
  also have "\<dots> = Inr []"
  proof -
    from a have w: "strconv_ParseFloat L ''width'' = None"
      and n: "\<forall>row\<in>set rows. length row = length hs" by simp_all
    show ?thesis by (rule rows_result_drops_all[OF w n])
  qed
  finally show "parseCSVFile L fs filePath = Inr []" .
qed

theorem parse_returns_no_element_witness:
  "strconv_ParseFloat test_lib ''width'' = None
   \<and> os_Open three_rows_fs ''t.csv'' = Some (the (three_rows_fs ''t.csv''))
   \<and> Contents (the (three_rows_fs ''t.csv'')) = Fields three_rows_header # map Fields three_rows
   \<and> three_rows_header \<noteq> []
   \<and> list_all (\<lambda>row. length row = length three_rows_header) three_rows
   \<and> fst (Validate (createElementFromRow test_lib three_rows_header (three_rows ! 0) 2)) = None
   \<and> valid_element (createElementFromRow test_lib three_rows_header (three_rows ! 0) 2)
   \<and> fst (Validate (createElementFromRow test_lib three_rows_header (three_rows ! 1) 3)) \<noteq> None
   \<and> fst (Validate (createElementFromRow test_lib three_rows_header (three_rows ! 2) 4)) = None
   \<and> valid_element (createElementFromRow test_lib three_rows_header (three_rows ! 2) 4)
   \<and> parseCSVFile test_lib three_rows_fs ''t.csv'' = Inr []"
proof -
  have h1: "strconv_ParseFloat test_lib ''width'' = None" by code_simp
  have h2: "os_Open three_rows_fs ''t.csv'' = Some (the (three_rows_fs ''t.csv''))" by code_simp
  have h3: "Contents (the (three_rows_fs ''t.csv'')) = Fields three_rows_header # map Fields three_rows"
    by code_simp
  have h4: "three_rows_header \<noteq> []" by code_simp
  have h5: "list_all (\<lambda>row. length row = length three_rows_header) three_rows" by code_simp
  then have h5': "\<forall>row\<in>set three_rows. length row = length three_rows_header"
    by (simp add: list_all_iff)
  have v1: "fst (Validate (createElementFromRow test_lib three_rows_header (three_rows ! 0) 2)) = None"
    by code_simp
  have v2: "valid_element (createElementFromRow test_lib three_rows_header (three_rows ! 0) 2)"
    by code_simp
  have v3: "fst (Validate (createElementFromRow test_lib three_rows_header (three_rows ! 1) 3)) \<noteq> None"
    by code_simp
  have v4: "fst (Validate (createElementFromRow test_lib three_rows_header (three_rows ! 2) 4)) = None"
    by code_simp
  have v5: "valid_element (createElementFromRow test_lib three_rows_header (three_rows ! 2) 4)"
    by code_simp
  have r: "parseCSVFile test_lib three_rows_fs ''t.csv'' = Inr []"
    using parse_returns_no_element[of test_lib three_rows_fs "''t.csv''" "the (three_rows_fs ''t.csv'')"
        three_rows_header three_rows] h1 h2 h3 h4 h5' by blast
  show ?thesis using h1 h2 h3 h4 h5 v1 v2 v3 v4 v5 r by blast
qed

section \<open>Variable resolution\<close>

lemma has_close_append: "has_close (name @ ''}}'' @ rest)"
proof (induction name)
  case Nil
  show ?case by simp
next
  case (Cons c name)
  then show ?case by (cases "name @ ''}}'' @ rest") auto
qed

lemma placeholder_prefix_has_close:
  assumes "take (length (placeholder name)) (a # b # s) = placeholder name"
  shows "a = CHR ''{'' \<and> b = CHR ''{'' \<and> has_close s"
proof -
  define rest where "rest = drop (length (placeholder name)) (a # b # s)"
  have "a # b # s = take (length (placeholder name)) (a # b # s) @ rest"
    unfolding rest_def by simp
  also have "\<dots> = CHR ''{'' # CHR ''{'' # (name @ ''}}'' @ rest)"
    unfolding assms unfolding placeholder_def by simp
  finally have e: "a # b # s = CHR ''{'' # CHR ''{'' # (name @ ''}}'' @ rest)" .
  then have "s = name @ ''}}'' @ rest" by simp
  then have "has_close s" using has_close_append[of name rest] by simp
  with e show ?thesis by simp
qed

lemma replace_from_no_open:
  "\<not> has_placeholder s \<Longrightarrow> replace_from (placeholder name) new s = s"
proof (induction s rule: has_placeholder.induct)
  case (1 a b s)
  then have nb: "\<not> (a = CHR ''{'' \<and> b = CHR ''{'' \<and> has_close s)" and t: "\<not> has_placeholder (b # s)"
    by auto
  have "take (length (placeholder name)) (a # b # s) \<noteq> placeholder name"
    using nb placeholder_prefix_has_close[of name a b s] by blast
  then show ?case using "1.IH" t nb by simp
qed (simp_all add: placeholder_def)

lemma ReplaceAll_no_open:
  "\<not> has_placeholder s \<Longrightarrow> strings_ReplaceAll s (placeholder name) new = s"
  unfolding strings_ReplaceAll_def using replace_from_no_open[of s name new]
  by (simp add: placeholder_def)

lemma replace_one_no_open: "\<not> has_placeholder text \<Longrightarrow> replace_one L text name data = text"
  unfolding replace_one_def by (auto simp: ReplaceAll_no_open split: option.splits)

lemma ReplaceVariables_no_open: "\<not> has_placeholder text \<Longrightarrow> ReplaceVariables L text data = text"
  unfolding ReplaceVariables_def
  by (induction data) (auto simp: ReplaceAll_no_open)

lemma foldl_replace_one_no_open:
  "\<not> has_placeholder text \<Longrightarrow> foldl (\<lambda>result varName. replace_one L result (f varName) data) text vars = text"
  by (induction vars) (auto simp: replace_one_no_open)

lemma ReplaceVariablesInArray_no_open:
  "\<not> has_placeholder text \<Longrightarrow> ReplaceVariablesInArray L text variableName data = text"
  unfolding ReplaceVariablesInArray_def Let_def
  by (simp add: replace_one_no_open foldl_replace_one_no_open)

lemma replace_one_absent:
  assumes "map_of data name = None"
    and "\<forall>(inputKey, v)\<in>set data. \<not> strings_EqualFold L (strings_TrimRight inputKey '':'') name"
  shows "replace_one L text name data = text"
proof -
  have "fold_match L name data = None"
    unfolding fold_match_def find_None_iff using assms(2) by auto
  then show ?thesis unfolding replace_one_def using assms(1) by simp
qed

text \<open>
  C4. Resolution returns a string in every case (the functions have no error
  result).  A text without a placeholder is returned unchanged, whatever the
  variable name and the data; and for a single-variable binding whose
  identifier is no key of the data and matches no key case-insensitively once
  trailing colons are stripped, the text is returned as it is, its placeholder
  included.
\<close>

theorem resolution_degrades:
  "(\<not> has_placeholder text \<longrightarrow> PDFGenerator_replaceVariables L text variableName data = text)
   \<and> ((\<not> HasPrefix1 variableName CHR ''['' \<or> \<not> HasSuffix1 variableName CHR '']'')
        \<and> map_of data variableName = None
        \<and> (\<forall>(inputKey, v)\<in>set data.
              \<not> strings_EqualFold L (strings_TrimRight inputKey '':'') variableName)
      \<longrightarrow> ReplaceVariablesInArray L text variableName data = text
          \<and> (variableName \<noteq> [] \<longrightarrow> PDFGenerator_replaceVariables L text variableName data = text))"
proof (intro conjI impI)
  assume "\<not> has_placeholder text"
  then show "PDFGenerator_replaceVariables L text variableName data = text"
    unfolding PDFGenerator_replaceVariables_def
    by (simp add: ReplaceVariablesInArray_no_open ReplaceVariables_no_open)
next
  assume a: "(\<not> HasPrefix1 variableName CHR ''['' \<or> \<not> HasSuffix1 variableName CHR '']'')
        \<and> map_of data variableName = None
        \<and> (\<forall>(inputKey, v)\<in>set data.
              \<not> strings_EqualFold L (strings_TrimRight inputKey '':'') variableName)"
  then show r: "ReplaceVariablesInArray L text variableName data = text"
    unfolding ReplaceVariablesInArray_def using replace_one_absent[of data variableName L "text"]
    by auto
  assume "variableName \<noteq> []"
  with r show "PDFGenerator_replaceVariables L text variableName data = text"
    unfolding PDFGenerator_replaceVariables_def by simp
qed

theorem resolution_degrades_witness:
  "\<not> has_placeholder ''Total {{ due''
   \<and> PDFGenerator_replaceVariables test_lib ''Total {{ due'' ''invoiceNumber'' sample_data = ''Total {{ due''
   \<and> \<not> HasPrefix1 ''total'' CHR ''[''
   \<and> map_of sample_data ''total'' = None
   \<and> list_all (\<lambda>(inputKey, v). \<not> strings_EqualFold test_lib (strings_TrimRight inputKey '':'') ''total'')
        sample_data
   \<and> ReplaceVariablesInArray test_lib ''Sum: {{total}}'' ''total'' sample_data = ''Sum: {{total}}''
   \<and> PDFGenerator_replaceVariables test_lib ''Sum: {{total}}'' ''total'' sample_data = ''Sum: {{total}}''"
proof -
  have h1: "\<not> has_placeholder ''Total {{ due''" by code_simp
  have h2: "\<not> HasPrefix1 ''total'' CHR ''[''" by code_simp
  have h3: "map_of sample_data ''total'' = None" by code_simp
  have h4: "list_all (\<lambda>(inputKey, v). \<not> strings_EqualFold test_lib (strings_TrimRight inputKey '':'') ''total'')
        sample_data" by code_simp
  have h4': "\<forall>(inputKey, v)\<in>set sample_data.
        \<not> strings_EqualFold test_lib (strings_TrimRight inputKey '':'') ''total''"
    using h4 unfolding list_all_iff .
  have h5: "''total'' \<noteq> []" by simp
  note A = resolution_degrades[of "''Total {{ due''" test_lib "''invoiceNumber''" sample_data]
  note B = resolution_degrades[of "''Sum: {{total}}''" test_lib "''total''" sample_data]
  have a: "PDFGenerator_replaceVariables test_lib ''Total {{ due'' ''invoiceNumber'' sample_data = ''Total {{ due''"
    using A h1 by blast
  have b: "ReplaceVariablesInArray test_lib ''Sum: {{total}}'' ''total'' sample_data = ''Sum: {{total}}''
     \<and> PDFGenerator_replaceVariables test_lib ''Sum: {{total}}'' ''total'' sample_data = ''Sum: {{total}}''"
    using B h2 h3 h4' h5 by blast
  show ?thesis using h1 h2 h3 h4 a b by blast
qed

lemma resolution_examples:
  "PDFGenerator_replaceVariables test_lib ''Invoice: {{invoiceNumber}}'' ''invoiceNumber'' sample_data
     = ''Invoice: INV-1''"
  "PDFGenerator_replaceVariables test_lib ''To {{customer}}'' ''customer'' sample_data = ''To Ann''"
  "PDFGenerator_replaceVariables test_lib ''{{invoiceNumber}} / {{a}}'' ''[invoiceNumber, a]'' sample_data
     = ''INV-1 / {{a}}''"
  by code_simp+

section \<open>Generator: loop elements\<close>

lemma strings_Split_nonempty: "strings_Split s c \<noteq> []"
  by (induction s) (auto split: list.splits)

lemma strings_Split_one: "strings_Split s c = [f] \<Longrightarrow> s = f"
proof (induction s arbitrary: f)
  case Nil
  then show ?case by simp
next
  case (Cons x xs)
  show ?case
  proof (cases "x = c")
    case True
    with Cons.prems show ?thesis using strings_Split_nonempty[of xs c] by simp
  next
    case False
    with Cons.prems obtain f' where "f = x # f'" "strings_Split xs c = [f']"
      using strings_Split_nonempty[of xs c] by (auto split: list.splits)
    with Cons.IH[of f'] show ?thesis by simp
  qed
qed

lemma strings_Split_two:
  "strings_Split s c = [a, f] \<Longrightarrow> s = a @ c # f"
proof (induction s arbitrary: a)
  case Nil
  then show ?case by simp
next
  case (Cons d s)
  show ?case
  proof (cases "d = c")
    case True
    with Cons.prems have a: "a = []" and r: "strings_Split s c = [f]" by auto
    from strings_Split_one[OF r] a True show ?thesis by simp
  next
    case False
    with Cons.prems obtain a' where a: "a = d # a'" and r: "strings_Split s c = [a', f]"
      by (auto split: list.splits)
    from Cons.IH[OF r] a show ?thesis by simp
  qed
qed

lemma Validate_fixed:
  assumes "fst (Validate e) = None"
  shows "Validate (snd (Validate e)) = (None, snd (Validate e))"
proof (cases "Type e = ElementTypeBarcode \<and> BarcodeFormat e = []")
  case True
  then have e': "snd (Validate e) = e\<lparr>BarcodeFormat := ''Code128''\<rparr>"
    using Validate_barcode_default[of e] assms by simp
  have q: "ElementTypeBarcode \<noteq> ElementTypeQR" "ElementTypeBarcode \<noteq> []"
    by (simp_all add: ElementType_defs)
  have n: "Some x \<noteq> None" for x :: ValidateError by simp
  have pre: "\<not> (Position_X (Position e) < 0 \<or> Position_Y (Position e) < 0)"
    "\<not> (Size_Width (Size e) \<le> 0 \<or> Size_Height (Size e) \<le> 0)"
    "\<not> (BarcodeContent e = [] \<and> VariableName e = [])"
    using assms True q n unfolding Validate_def
    by (simp_all only: fst_conv if_True if_False split: if_split_asm) blast+
  show ?thesis
    unfolding e' using True q pre unfolding Validate_def
    by simp
next
  case False
  then have e': "snd (Validate e) = e"
    using Validate_not_barcode[of e] Validate_format_set[of e] by blast
  show ?thesis unfolding e' using assms e' by (metis prod.collapse)
qed

lemma Validate_LoopField: "LoopField (snd (Validate e)) = LoopField e"
proof (cases "Type e = ElementTypeBarcode \<and> BarcodeFormat e = [] \<and> fst (Validate e) = None")
  case True
  then show ?thesis using Validate_barcode_default[of e] by simp
next
  case False
  have "snd (Validate e) = e" unfolding Validate_snd_eq using False by simp
  then show ?thesis by simp
qed

lemma loop_copy_first:
  "(Clone element)\<lparr>Position := (Position element)\<lparr>Position_Y := Position_Y (Position element)\<rparr>\<rparr> = element"
  unfolding Clone_def by simp

lemma loop_never_returns_fixed:
  assumes V: "Validate element = (None, element)"
    and S: "strings_Split (LoopField element) CHR ''.'' = [arrayName, fieldName]"
  shows "map_of data arrayName = Some (VArray (item # items))
         \<Longrightarrow> PDFGenerator_processElement depth L E st element data = None"
proof (induction depth arbitrary: st data)
  case 0
  show ?case by simp
next
  case (Suc depth)
  have lf: "LoopField element = arrayName @ CHR ''.'' # fieldName"
    by (rule strings_Split_two[OF S])
  then have ne: "arrayName \<noteq> LoopField element" by simp
  have loop: "IsLoopElement element" unfolding IsLoopElement_def using lf by simp
  let ?itemData = "AList.update (LoopField element) (VString (GetArrayFieldValue L item fieldName)) data"
  have "map_of ?itemData arrayName = Some (VArray (item # items))"
    using Suc.prems ne by (simp add: update_conv')
  from Suc.IH[OF this]
  have inner: "PDFGenerator_processElement depth L E st element ?itemData = None" .
  have li: "loop_items (\<lambda>st' e d. PDFGenerator_processElement depth L E st' e d) L element data fieldName
              (Size_Height (Size element) + 2) (item # items) (Position_Y (Position element)) st = None"
    by (simp only: loop_items.simps Let_def loop_copy_first inner option.case)
  have "processLoopElement (\<lambda>st' e d. PDFGenerator_processElement depth L E st' e d) L st element data = None"
    unfolding processLoopElement_def by (simp only: S Suc.prems list.case option.case Value.case li)
  then show ?case
    by (simp only: PDFGenerator_processElement.simps V prod.case option.case loop if_True)
qed

text \<open>
  C5. The specification has a loop element over an array of N items drawn N times,
  at y, y + height + 2, and so on.  The code does not get there:
  \<open>processLoopElement\<close> hands every copy to \<open>processElement\<close> with its \<open>loopField\<close>
  still set and with the array still in the data, so \<open>processElement\<close> calls
  \<open>processLoopElement\<close> for the copy, which starts on the first item again.  For a
  valid loop element whose array holds at least one item the call does not return,
  however many nested calls it is allowed.
\<close>

theorem loop_element_never_returns:
  "fst (Validate element) = None
     \<and> strings_Split (LoopField element) CHR ''.'' = [arrayName, fieldName]
     \<and> map_of data arrayName = Some (VArray (item # items))
   \<longrightarrow> (\<forall>depth. PDFGenerator_processElement depth L E st element data = None)"
proof (intro impI allI)
  fix depth
  assume a: "fst (Validate element) = None
     \<and> strings_Split (LoopField element) CHR ''.'' = [arrayName, fieldName]
     \<and> map_of data arrayName = Some (VArray (item # items))"
  obtain e' where ve: "Validate element = (None, e')" using a by (metis prod.collapse)
  have e': "e' = snd (Validate element)" using ve by simp
  have V: "Validate e' = (None, e')" unfolding e' using Validate_fixed a by blast
  have S: "strings_Split (LoopField e') CHR ''.'' = [arrayName, fieldName]"
    unfolding e' using a Validate_LoopField[of element] by simp
  have D: "map_of data arrayName = Some (VArray (item # items))" using a by simp
  show "PDFGenerator_processElement depth L E st element data = None"
  proof (cases depth)
    case 0
    then show ?thesis by simp
  next
    case (Suc d)
    have lf: "LoopField e' = arrayName @ CHR ''.'' # fieldName"
      by (rule strings_Split_two[OF S])
    then have ne: "arrayName \<noteq> LoopField e'" by simp
    have loop: "IsLoopElement e'" unfolding IsLoopElement_def using lf by simp
    let ?itemData = "AList.update (LoopField e') (VString (GetArrayFieldValue L item fieldName)) data"
    have "map_of ?itemData arrayName = Some (VArray (item # items))"
      using D ne by (simp add: update_conv')
    from loop_never_returns_fixed[OF V S this]
    have inner: "PDFGenerator_processElement d L E st e' ?itemData = None" .
    have li: "loop_items (\<lambda>st' e d'. PDFGenerator_processElement d L E st' e d') L e' data fieldName
                (Size_Height (Size e') + 2) (item # items) (Position_Y (Position e')) st = None"
      by (simp only: loop_items.simps Let_def loop_copy_first inner option.case)
    have pl: "processLoopElement (\<lambda>st' e d'. PDFGenerator_processElement d L E st' e d') L st e' data = None"
      unfolding processLoopElement_def by (simp only: S D list.case option.case Value.case li)
    show ?thesis
      unfolding Suc
      by (simp only: PDFGenerator_processElement.simps ve prod.case option.case loop if_True pl)
  qed
qed

lemma empty_loop_returns:
  assumes "Validate element = (None, element)"
    and "strings_Split (LoopField element) CHR ''.'' = [arrayName, fieldName]"
    and "map_of data arrayName = Some (VArray [])"
  shows "PDFGenerator_processElement (Suc depth) L E st element data =
           Some (None, st\<lparr>lastYPositions := (lastYPositions st)(arrayName \<mapsto> Position_Y (Position element))\<rparr>)"
proof -
  have lf: "LoopField element = arrayName @ CHR ''.'' # fieldName"
    by (rule strings_Split_two[OF assms(2)])
  have loop: "IsLoopElement element" unfolding IsLoopElement_def using lf by simp
  have "processLoopElement (\<lambda>st' e d. PDFGenerator_processElement depth L E st' e d) L st element data
        = Some (None, st\<lparr>lastYPositions := (lastYPositions st)(arrayName \<mapsto> Position_Y (Position element))\<rparr>)"
    unfolding processLoopElement_def
    by (simp only: assms(2,3) list.case option.case Value.case loop_items.simps prod.case)
  then show ?thesis
    by (simp only: PDFGenerator_processElement.simps assms(1) prod.case option.case loop if_True)
qed

theorem loop_element_never_returns_witness:
  "fst (Validate loop_element) = None
   \<and> strings_Split (LoopField loop_element) CHR ''.'' = [''items'', ''description'']
   \<and> map_of loop_data ''items''
       = Some (VArray (VMap [(''description'', VString ''A'')] # [VMap [(''description'', VString ''B'')]]))
   \<and> (\<forall>depth. PDFGenerator_processElement depth test_lib test_env fresh_state loop_element loop_data = None)"
proof -
  have h1: "fst (Validate loop_element) = None" by code_simp
  have h2: "strings_Split (LoopField loop_element) CHR ''.'' = [''items'', ''description'']" by code_simp
  have h3: "map_of loop_data ''items''
       = Some (VArray (VMap [(''description'', VString ''A'')] # [VMap [(''description'', VString ''B'')]]))"
    by code_simp
  from loop_element_never_returns[of loop_element "''items''" "''description''" loop_data
      "VMap [(''description'', VString ''A'')]" "[VMap [(''description'', VString ''B'')]]"
      test_lib test_env fresh_state] h1 h2 h3
  show ?thesis by blast
qed

section \<open>Generator: font setup\<close>

lemma setupFonts_marks_loaded: "loaded (fst (PDFGenerator_setupFonts E order fc p))"
  unfolding PDFGenerator_setupFonts_def IsSystemLoaded_def MarkSystemLoaded_def
  by (simp split: prod.splits)

lemma setupFonts_when_loaded: "loaded fc \<Longrightarrow> PDFGenerator_setupFonts E order fc p = (fc, p)"
  unfolding PDFGenerator_setupFonts_def IsSystemLoaded_def by simp

text \<open>
  C9. The specification has the fonts loaded once into every instance, each fresh
  instance receiving its own registration.  The code keeps the font-loaded marker in
  the \<open>FontCache\<close> of the process, not in the instance: the first \<open>setupFonts\<close> of the
  process sets it, and from then on \<open>setupFonts\<close> returns at its first line for
  every instance, fresh or not, without registering a font or setting the default
  font on it.
\<close>

theorem setupFonts_skips_later_instances:
  "PDFGenerator_setupFonts E order2 (fst (PDFGenerator_setupFonts E order1 fc pdf1)) pdf2
     = (fst (PDFGenerator_setupFonts E order1 fc pdf1), pdf2)"
  by (rule setupFonts_when_loaded[OF setupFonts_marks_loaded])

lemma setupFonts_first_and_second_instance:
  "snd (PDFGenerator_setupFonts test_env setupFonts_fonts NewFontCache fpdf_New)
     = \<lparr>backend_calls = [AddUTF8Font ''Tahoma'' [] ''tahoma.ttf'', AddUTF8Font ''Tahoma'' ''B'' ''tahomabd.TTF'',
                          SetFont ''Tahoma'' [] 10], cursor_y = 0\<rparr>"
  "snd (PDFGenerator_setupFonts test_env setupFonts_fonts
          (fst (PDFGenerator_setupFonts test_env setupFonts_fonts NewFontCache fpdf_New)) fpdf_New)
     = fpdf_New"
  by code_simp+

section \<open>First generator: the position ledger\<close>

lemma set_xys_append: "set_xys (cs @ ds) = set_xys cs @ set_xys ds"
  by (induction cs rule: set_xys.induct) auto

lemma xys_emit:
  "set_xys (backend_calls (emit c p)) = set_xys (backend_calls p) @ set_xys [c]"
  unfolding emit_def by (simp add: set_xys_append)

lemma xys_SetXY:
  "set_xys (backend_calls (pdf_SetXY x y p)) = set_xys (backend_calls p) @ [(x, y)]"
  unfolding pdf_SetXY_def emit_def by (simp add: set_xys_append)

lemma xys_set_font: "set_xys (backend_calls (main_set_font el p)) = set_xys (backend_calls p)"
  unfolding main_set_font_def by (simp add: xys_emit)

lemma xys_rotate_begin: "set_xys (backend_calls (main_rotate_begin F el y p)) = set_xys (backend_calls p)"
  unfolding main_rotate_begin_def by (simp add: xys_emit split: prod.splits)

lemma xys_rotate_end: "set_xys (backend_calls (main_rotate_end el p)) = set_xys (backend_calls p)"
  unfolding main_rotate_end_def by (simp add: xys_emit)

lemma xys_MultiCell:
  "set_xys (backend_calls (pdf_MultiCell E w h txt border align fill p)) = set_xys (backend_calls p)"
  unfolding pdf_MultiCell_def emit_def by (simp add: set_xys_append)

text \<open>One pass of the text loop: the position it sets, and the y it goes on with.\<close>

lemma main_text_loop_step:
  "\<exists>y' p'. main_text_loop F L E el input arrayName fieldName (item # items) y p
             = main_text_loop F L E el input arrayName fieldName items y' p'
           \<and> set_xys (backend_calls p') = set_xys (backend_calls p) @ [(m_X el, y)]
           \<and> (m_Method el \<noteq> ''MultiCell'' \<longrightarrow> y' = add64 F y (add64 F (m_Height el) 2))"
proof (cases "m_Method el = ''MultiCell''")
  case True
  let ?q = "pdf_MultiCell E (m_Width el) (mul64 F (m_FontSize el) 0.5)
              (main_item_text L el input arrayName fieldName item) (m_Border el) (m_Align el) False
              (main_rotate_begin F el y
                 (emit (SetTextColor (m_ColorR el) (m_ColorG el) (m_ColorB el))
                    (main_set_font el (pdf_SetXY (m_X el) y p))))"
  have "main_text_loop F L E el input arrayName fieldName (item # items) y p
      = main_text_loop F L E el input arrayName fieldName items (add64 F (pdf_GetY ?q) 2)
          (main_rotate_end el ?q)"
    using True by (simp add: Let_def)
  moreover have "set_xys (backend_calls (main_rotate_end el ?q)) = set_xys (backend_calls p) @ [(m_X el, y)]"
    by (simp add: xys_rotate_end xys_MultiCell xys_emit xys_rotate_begin xys_set_font xys_SetXY)
  ultimately show ?thesis using True by blast
next
  case False
  let ?q = "main_rotate_end el
      (emit (CellFormat (m_Width el) (m_Height el) (main_item_text L el input arrayName fieldName item)
               (m_Border el) 0 (m_Align el) False 0 [])
         (main_rotate_begin F el y
            (emit (SetTextColor (m_ColorR el) (m_ColorG el) (m_ColorB el))
               (main_set_font el (pdf_SetXY (m_X el) y p)))))"
  have "main_text_loop F L E el input arrayName fieldName (item # items) y p
      = main_text_loop F L E el input arrayName fieldName items (add64 F y (add64 F (m_Height el) 2)) ?q"
    using False by (simp add: Let_def)
  moreover have "set_xys (backend_calls ?q) = set_xys (backend_calls p) @ [(m_X el, y)]"
    by (simp add: xys_rotate_end xys_emit xys_rotate_begin xys_set_font xys_SetXY)
  ultimately show ?thesis by blast
qed

lemma main_text_loop_extends:
  "\<exists>rest. set_xys (backend_calls (snd (main_text_loop F L E el input arrayName fieldName items y p)))
            = set_xys (backend_calls p) @ rest"
proof (induction items arbitrary: y p)
  case Nil
  show ?case by simp
next
  case (Cons item items)
  from main_text_loop_step[of F L E el input arrayName fieldName item items y p]
  obtain y' p' where
    s: "main_text_loop F L E el input arrayName fieldName (item # items) y p
          = main_text_loop F L E el input arrayName fieldName items y' p'"
    and x: "set_xys (backend_calls p') = set_xys (backend_calls p) @ [(m_X el, y)]" by blast
  from Cons.IH[of y' p'] obtain rest where
    "set_xys (backend_calls (snd (main_text_loop F L E el input arrayName fieldName items y' p')))
       = set_xys (backend_calls p') @ rest" by blast
  then show ?case unfolding s x by simp
qed

lemma main_text_loop_first:
  assumes "items \<noteq> []"
  shows "\<exists>rest. set_xys (backend_calls (snd (main_text_loop F L E el input arrayName fieldName items y p)))
            = set_xys (backend_calls p) @ (m_X el, y) # rest"
proof -
  from assms obtain item more where i: "items = item # more" by (cases items) auto
  from main_text_loop_step[of F L E el input arrayName fieldName item more y p]
  obtain y' p' where
    s: "main_text_loop F L E el input arrayName fieldName (item # more) y p
          = main_text_loop F L E el input arrayName fieldName more y' p'"
    and x: "set_xys (backend_calls p') = set_xys (backend_calls p) @ [(m_X el, y)]" by blast
  from main_text_loop_extends[of F L E el input arrayName fieldName more y' p'] obtain rest where
    "set_xys (backend_calls (snd (main_text_loop F L E el input arrayName fieldName more y' p')))
       = set_xys (backend_calls p') @ rest" by blast
  then show ?thesis unfolding i s x by simp
qed

lemma main_text_loop_cell:
  assumes "m_Method el \<noteq> ''MultiCell''"
  shows "fst (main_text_loop F L E el input arrayName fieldName items y p)
           = foldl (\<lambda>y item. add64 F y (add64 F (m_Height el) 2)) y items"
proof (induction items arbitrary: y p)
  case Nil
  show ?case by simp
next
  case (Cons item items)
  from main_text_loop_step[of F L E el input arrayName fieldName item items y p] assms
  obtain p' where
    s: "main_text_loop F L E el input arrayName fieldName (item # items) y p
          = main_text_loop F L E el input arrayName fieldName items
              (add64 F y (add64 F (m_Height el) 2)) p'" by blast
  show ?case unfolding s Cons.IH by simp
qed

text \<open>One pass of the box loop, for an item it skips and for an item it draws.\<close>

lemma main_box_loop_skip:
  assumes "\<not> has_field fieldName item"
  shows "main_box_loop F L E el fieldName (item # items) y p = main_box_loop F L E el fieldName items y p"
  using assms unfolding has_field_def by (simp split: Value.splits option.splits)

lemma main_box_loop_step:
  assumes "has_field fieldName item"
  shows "\<exists>p'. main_box_loop F L E el fieldName (item # items) y p
             = main_box_loop F L E el fieldName items
                 (add64 F (div64 F (math_Round (mul64 F y 10)) 10) (m_Height el)) p'
           \<and> set_xys (backend_calls p')
               = set_xys (backend_calls p) @ [(m_X el, div64 F (math_Round (mul64 F y 10)) 10)]"
proof -
  from assms obtain itemMap v where i: "item = VMap itemMap" and m: "map_of itemMap fieldName = Some v"
    unfolding has_field_def by (auto split: Value.splits option.splits)
  let ?y = "div64 F (math_Round (mul64 F y 10)) 10"
  let ?q = "pdf_MultiCell E (m_Width el) (m_Height el) (fmt_Sprint L v) (m_Border el) (m_Align el) False
              (pdf_SetXY (m_X el) ?y
                 (emit (SetTextColor (m_ColorR el) (m_ColorG el) (m_ColorB el))
                    (emit (SetFont (m_Font el) (m_FontStyle el) (m_FontSize el))
                       (emit (Rect (m_X el) ?y (m_Width el) (m_Height el)
                                (if m_background el = ''1'' then ''FD'' else ''D''))
                          (emit (SetLineWidth 0.2) p)))))"
  have "main_box_loop F L E el fieldName (item # items) y p
      = main_box_loop F L E el fieldName items (add64 F ?y (m_Height el)) ?q"
    unfolding i using m by (simp add: Let_def)
  moreover have "set_xys (backend_calls ?q) = set_xys (backend_calls p) @ [(m_X el, ?y)]"
    by (simp add: xys_MultiCell xys_SetXY xys_emit)
  ultimately show ?thesis by blast
qed

lemma main_box_loop_extends:
  "\<exists>rest. set_xys (backend_calls (snd (main_box_loop F L E el fieldName items y p)))
            = set_xys (backend_calls p) @ rest"
proof (induction items arbitrary: y p)
  case Nil
  show ?case by simp
next
  case (Cons item items)
  show ?case
  proof (cases "has_field fieldName item")
    case False
    show ?thesis unfolding main_box_loop_skip[OF False] by (rule Cons.IH)
  next
    case True
    from main_box_loop_step[OF True, of F L E el items y p] obtain p' where
      s: "main_box_loop F L E el fieldName (item # items) y p
            = main_box_loop F L E el fieldName items
                (add64 F (div64 F (math_Round (mul64 F y 10)) 10) (m_Height el)) p'"
      and x: "set_xys (backend_calls p')
               = set_xys (backend_calls p) @ [(m_X el, div64 F (math_Round (mul64 F y 10)) 10)]"
      by blast
    from Cons.IH[of "add64 F (div64 F (math_Round (mul64 F y 10)) 10) (m_Height el)" p']
    obtain rest where
      "set_xys (backend_calls (snd (main_box_loop F L E el fieldName items
          (add64 F (div64 F (math_Round (mul64 F y 10)) 10) (m_Height el)) p')))
       = set_xys (backend_calls p') @ rest" by blast
    then show ?thesis unfolding s x by simp
  qed
qed

lemma main_box_loop_first:
  "filter (has_field fieldName) items \<noteq> [] \<Longrightarrow>
   \<exists>rest. set_xys (backend_calls (snd (main_box_loop F L E el fieldName items y p)))
            = set_xys (backend_calls p) @ (m_X el, div64 F (math_Round (mul64 F y 10)) 10) # rest"
proof (induction items)
  case Nil
  then show ?case by simp
next
  case (Cons item items)
  show ?case
  proof (cases "has_field fieldName item")
    case False
    with Cons.prems have "filter (has_field fieldName) items \<noteq> []" by simp
    from Cons.IH[OF this] show ?thesis unfolding main_box_loop_skip[OF False] .
  next
    case True
    from main_box_loop_step[OF True, of F L E el items y p] obtain p' where
      s: "main_box_loop F L E el fieldName (item # items) y p
            = main_box_loop F L E el fieldName items
                (add64 F (div64 F (math_Round (mul64 F y 10)) 10) (m_Height el)) p'"
      and x: "set_xys (backend_calls p')
               = set_xys (backend_calls p) @ [(m_X el, div64 F (math_Round (mul64 F y 10)) 10)]"
      by blast
    from main_box_loop_extends[of F L E el fieldName items
        "add64 F (div64 F (math_Round (mul64 F y 10)) 10) (m_Height el)" p']
    obtain rest where
      "set_xys (backend_calls (snd (main_box_loop F L E el fieldName items
          (add64 F (div64 F (math_Round (mul64 F y 10)) 10) (m_Height el)) p')))
       = set_xys (backend_calls p') @ rest" by blast
    then show ?thesis unfolding s x by simp
  qed
qed

lemma main_box_loop_y:
  "fst (main_box_loop F L E el fieldName items y p)
     = foldl (\<lambda>y item. if has_field fieldName item
                         then add64 F (div64 F (math_Round (mul64 F y 10)) 10) (m_Height el)
                         else y) y items"
proof (induction items arbitrary: y p)
  case Nil
  show ?case by simp
next
  case (Cons item items)
  show ?case
  proof (cases "has_field fieldName item")
    case False
    show ?thesis unfolding main_box_loop_skip[OF False] Cons.IH using False by simp
  next
    case True
    from main_box_loop_step[OF True, of F L E el items y p] obtain p' where
      s: "main_box_loop F L E el fieldName (item # items) y p
            = main_box_loop F L E el fieldName items
                (add64 F (div64 F (math_Round (mul64 F y 10)) 10) (m_Height el)) p'"
      by blast
    show ?thesis unfolding s Cons.IH using True by simp
  qed
qed

lemma main_processElement_ignores_ledger:
  "fst (main_processElement F L E (p, lastY) el input) = fst (main_processElement F L E (p, lastY') el input)"
  unfolding main_processElement_def
  by (simp add: Let_def split: loop_target.splits prod.splits)

lemma main_processElement_text_loop:
  assumes "m_Type el = ''text'' \<or> m_Type el = ''table''"
    and "main_loop_target el input = Loop arrayName fieldName items"
  shows "main_processElement F L E (p, lastY) el input =
           (snd (main_text_loop F L E el input arrayName fieldName items (m_Y el) p),
            lastY(arrayName \<mapsto> fst (main_text_loop F L E el input arrayName fieldName items (m_Y el) p)))"
  unfolding main_processElement_def using assms
  by (auto split: prod.splits)

lemma main_processElement_box_loop:
  assumes "m_Type el = ''box''"
    and "main_loop_target el input = Loop arrayName fieldName items"
  shows "\<exists>p'. set_xys (backend_calls p') = set_xys (backend_calls p)
           \<and> main_processElement F L E (p, lastY) el input =
               (snd (main_box_loop F L E el fieldName items (m_Y el) p'),
                lastY(arrayName \<mapsto> fst (main_box_loop F L E el fieldName items (m_Y el) p')))"
proof -
  let ?p = "(if m_background el = ''1''
             then emit (SetFillColor (m_BGColorR el) (m_BGColorG el) (m_BGColorB el))
                    (emit (SetDrawColor (m_ColorR el) (m_ColorG el) (m_ColorB el)) p)
             else emit (SetFillColor 255 255 255)
                    (emit (SetDrawColor (m_ColorR el) (m_ColorG el) (m_ColorB el)) p))"
  have x: "set_xys (backend_calls ?p) = set_xys (backend_calls p)" by (simp add: xys_emit)
  have "main_processElement F L E (p, lastY) el input =
               (snd (main_box_loop F L E el fieldName items (m_Y el) ?p),
                lastY(arrayName \<mapsto> fst (main_box_loop F L E el fieldName items (m_Y el) ?p)))"
    unfolding main_processElement_def using assms
    by (simp add: Let_def split: prod.splits)
  with x show ?thesis by blast
qed

lemma loop_items_same:
  assumes c: "\<And>st st' e d. target st = target st' \<Longrightarrow> same_drawing (call st e d) (call st' e d)"
  shows "target st = target st' \<Longrightarrow>
           same_loop (loop_items call L element data fieldName spacing items y st)
                     (loop_items call L element data fieldName spacing items y st')"
proof (induction items arbitrary: y st st')
  case Nil
  then show ?case unfolding same_loop_def by simp
next
  case (Cons item items)
  let ?e = "(Clone element)\<lparr>Position := (Position element)\<lparr>Position_Y := y\<rparr>\<rparr>"
  let ?d = "AList.update (LoopField element) (VString (GetArrayFieldValue L item fieldName)) data"
  from c[OF Cons.prems, of ?e ?d]
  have s: "same_drawing (call st ?e ?d) (call st' ?e ?d)" .
  show ?case
  proof (cases "call st ?e ?d")
    case None
    with s have "call st' ?e ?d = None" unfolding same_drawing_def by simp
    with None show ?thesis unfolding same_loop_def by (simp add: Let_def)
  next
    case (Some r)
    obtain err st1 where r: "r = (err, st1)" by (cases r)
    from s Some r obtain st1' where r': "call st' ?e ?d = Some (err, st1')" and t: "target st1 = target st1'"
      unfolding same_drawing_def by (auto split: option.splits)
    from Cons.IH[OF t, of "y + spacing"] show ?thesis
      using Some r r' by (simp add: Let_def)
  qed
qed

lemma processLoopElement_cases:
  "(\<exists>err. \<forall>s. processLoopElement call L s element data = Some (Some err, s))
   \<or> (\<exists>arrayName fieldName items. \<forall>s. processLoopElement call L s element data =
         (case loop_items call L element data fieldName (Size_Height (Size element) + 2) items
                 (Position_Y (Position element)) s of
            None \<Rightarrow> None
          | Some (currentY, s') \<Rightarrow>
              Some (None, s'\<lparr>lastYPositions := (lastYPositions s')(arrayName \<mapsto> currentY)\<rparr>)))"
proof -
  let ?parts = "strings_Split (LoopField element) CHR ''.''"
  let ?bad = "\<forall>s. processLoopElement call L s element data
                = Some (Some (InvalidLoopField (LoopField element)), s)"
  show ?thesis
  proof (cases ?parts)
    case Nil
    then have ?bad unfolding processLoopElement_def by simp
    then show ?thesis by blast
  next
    case c1: (Cons arrayName rest)
    show ?thesis
    proof (cases rest)
      case Nil
      with c1 have ?bad unfolding processLoopElement_def by simp
      then show ?thesis by blast
    next
      case c2: (Cons fieldName rest2)
      show ?thesis
      proof (cases rest2)
        case (Cons x xs)
        with c1 c2 have ?bad unfolding processLoopElement_def by simp
        then show ?thesis by blast
      next
        case Nil
        with c1 c2 have S: "?parts = [arrayName, fieldName]" by simp
        show ?thesis
        proof (cases "map_of data arrayName")
          case None
          then have "\<forall>s. processLoopElement call L s element data
                = Some (Some (ArrayNotFound arrayName), s)"
            unfolding processLoopElement_def S by simp
          then show ?thesis by blast
        next
          case (Some v)
          show ?thesis
          proof (cases "\<exists>items. v = VArray items")
            case True
            then obtain items where "v = VArray items" by blast
            with Some have "\<forall>s. processLoopElement call L s element data =
               (case loop_items call L element data fieldName (Size_Height (Size element) + 2) items
                       (Position_Y (Position element)) s of
                  None \<Rightarrow> None
                | Some (currentY, s') \<Rightarrow>
                    Some (None, s'\<lparr>lastYPositions := (lastYPositions s')(arrayName \<mapsto> currentY)\<rparr>))"
              unfolding processLoopElement_def S by simp
            then show ?thesis by blast
          next
            case False
            with Some have "\<forall>s. processLoopElement call L s element data
                = Some (Some (NotAnArray arrayName), s)"
              unfolding processLoopElement_def S by (cases v) simp_all
            then show ?thesis by blast
          qed
        qed
      qed
    qed
  qed
qed

lemma processLoopElement_same:
  assumes c: "\<And>st st' e d. target st = target st' \<Longrightarrow> same_drawing (call st e d) (call st' e d)"
    and t: "target st = target st'"
  shows "same_drawing (processLoopElement call L st element data) (processLoopElement call L st' element data)"
proof -
  from processLoopElement_cases[of call L element data]
  consider (err) err where "\<And>s. processLoopElement call L s element data = Some (Some err, s)"
    | (loop) arrayName fieldName items where
        "\<And>s. processLoopElement call L s element data =
         (case loop_items call L element data fieldName (Size_Height (Size element) + 2) items
                 (Position_Y (Position element)) s of
            None \<Rightarrow> None
          | Some (currentY, s') \<Rightarrow>
              Some (None, s'\<lparr>lastYPositions := (lastYPositions s')(arrayName \<mapsto> currentY)\<rparr>))"
    by blast
  then show ?thesis
  proof cases
    case err
    then show ?thesis using t unfolding same_drawing_def by simp
  next
    case loop
    let ?l = "\<lambda>s. loop_items call L element data fieldName (Size_Height (Size element) + 2) items
                 (Position_Y (Position element)) s"
    have l: "same_loop (?l st) (?l st')" by (rule loop_items_same[OF c t])
    show ?thesis
    proof (cases "?l st")
      case None
      with l have "?l st' = None" unfolding same_loop_def by simp
      with None show ?thesis unfolding loop same_drawing_def by simp
    next
      case (Some r)
      obtain y s1 where r: "r = (y, s1)" by (cases r)
      from l Some r obtain s1' where r': "?l st' = Some (y, s1')" and t1: "target s1 = target s1'"
        unfolding same_loop_def by (auto split: option.splits)
      show ?thesis unfolding loop same_drawing_def using Some r r' t1 by simp
    qed
  qed
qed

lemma processElement_same:
  "target st = target st' \<Longrightarrow>
   same_drawing (PDFGenerator_processElement depth L E st element data)
                (PDFGenerator_processElement depth L E st' element data)"
proof (induction depth arbitrary: st st' element data)
  case 0
  show ?case unfolding same_drawing_def by simp
next
  case (Suc depth)
  obtain verr e' where V: "Validate element = (verr, e')" by (cases "Validate element")
  show ?case
  proof (cases verr)
    case (Some x)
    with V Suc.prems show ?thesis unfolding same_drawing_def by simp
  next
    case None
    show ?thesis
    proof (cases "IsLoopElement e'")
      case True
      have "same_drawing
          (processLoopElement (\<lambda>st' e d. PDFGenerator_processElement depth L E st' e d) L st e' data)
          (processLoopElement (\<lambda>st' e d. PDFGenerator_processElement depth L E st' e d) L st' e' data)"
        by (rule processLoopElement_same[OF Suc.IH Suc.prems])
      then show ?thesis using V None True by simp
    next
      case False
      then show ?thesis using V None Suc.prems
        unfolding same_drawing_def by (simp split: prod.splits)
    qed
  qed
qed


theorem ledger_not_consulted_counterexample:
  "snd main_after_first ''items'' = Some 74
   \<and> set_xys (backend_calls (fst main_after_first)) = [(10, 50), (10, 62)]
   \<and> new_positions main_after_first main_after_second = [(100, 50), (100, 62)]
   \<and> new_positions main_after_first main_after_grid = [(100, 50), (100, 60)]
   \<and> Some (snd (hd (new_positions main_after_first main_after_second))) \<noteq> snd main_after_first ''items''
   \<and> Some (snd (hd (new_positions main_after_first main_after_grid))) \<noteq> snd main_after_first ''items''"
  by code_simp

text \<open>
  C6 (as amended).  After a loop element has processed all items of an array, the
  final advanced y is recorded against the array's name in the ledger: for a
  single-line text loop the declared y advanced by height + 2 once per item, for a
  box loop the y rounded to one decimal and advanced by the height once per item that
  has the field.  The ledger is only written: what an element draws is the same
  whatever the ledger holds, so a second element that loops over the same array does
  not continue from the recorded y.  The first item of a text loop is placed at the
  element's own declared y, and the first box of a box loop at its declared y rounded
  to one decimal.  The same independence holds of the second generator: its
  \<open>processElement\<close> draws the same and returns the same error whatever
  \<open>lastYPositions\<close> holds.
\<close>

theorem ledger_recorded_not_read:
  "((m_Type el = ''text'' \<or> m_Type el = ''table'')
      \<and> main_loop_target el input = Loop arrayName fieldName items
    \<longrightarrow> snd (main_processElement F L E (p, lastY) el input)
          = lastY(arrayName \<mapsto> fst (main_text_loop F L E el input arrayName fieldName items (m_Y el) p))
        \<and> (m_Method el \<noteq> ''MultiCell''
             \<longrightarrow> snd (main_processElement F L E (p, lastY) el input)
                 = lastY(arrayName \<mapsto>
                     foldl (\<lambda>y item. add64 F y (add64 F (m_Height el) 2)) (m_Y el) items))
        \<and> (items \<noteq> []
             \<longrightarrow> (\<exists>rest. set_xys (backend_calls (fst (main_processElement F L E (p, lastY) el input)))
                    = set_xys (backend_calls p) @ (m_X el, m_Y el) # rest)))
   \<and> (m_Type el = ''box'' \<and> main_loop_target el input = Loop arrayName fieldName items
    \<longrightarrow> snd (main_processElement F L E (p, lastY) el input)
          = lastY(arrayName \<mapsto>
              foldl (\<lambda>y item. if has_field fieldName item
                                then add64 F (div64 F (math_Round (mul64 F y 10)) 10) (m_Height el)
                                else y) (m_Y el) items)
        \<and> (filter (has_field fieldName) items \<noteq> []
             \<longrightarrow> (\<exists>rest. set_xys (backend_calls (fst (main_processElement F L E (p, lastY) el input)))
                    = set_xys (backend_calls p)
                      @ (m_X el, div64 F (math_Round (mul64 F (m_Y el) 10)) 10) # rest)))
   \<and> fst (main_processElement F L E (p, lastY) el input)
       = fst (main_processElement F L E (p, lastY') el input)
   \<and> same_drawing (PDFGenerator_processElement depth L E st element data)
        (PDFGenerator_processElement depth L E (st\<lparr>lastYPositions := lastY'\<rparr>) element data)"
proof (intro conjI)
  show "(m_Type el = ''text'' \<or> m_Type el = ''table'')
      \<and> main_loop_target el input = Loop arrayName fieldName items
    \<longrightarrow> snd (main_processElement F L E (p, lastY) el input)
          = lastY(arrayName \<mapsto> fst (main_text_loop F L E el input arrayName fieldName items (m_Y el) p))
        \<and> (m_Method el \<noteq> ''MultiCell''
             \<longrightarrow> snd (main_processElement F L E (p, lastY) el input)
                 = lastY(arrayName \<mapsto>
                     foldl (\<lambda>y item. add64 F y (add64 F (m_Height el) 2)) (m_Y el) items))
        \<and> (items \<noteq> []
             \<longrightarrow> (\<exists>rest. set_xys (backend_calls (fst (main_processElement F L E (p, lastY) el input)))
                    = set_xys (backend_calls p) @ (m_X el, m_Y el) # rest))"
  proof (intro impI)
    assume a: "(m_Type el = ''text'' \<or> m_Type el = ''table'')
      \<and> main_loop_target el input = Loop arrayName fieldName items"
    then have P: "main_processElement F L E (p, lastY) el input =
           (snd (main_text_loop F L E el input arrayName fieldName items (m_Y el) p),
            lastY(arrayName \<mapsto> fst (main_text_loop F L E el input arrayName fieldName items (m_Y el) p)))"
      using main_processElement_text_loop[of el input arrayName fieldName items F L E p lastY] by blast
    have 1: "snd (main_processElement F L E (p, lastY) el input)
          = lastY(arrayName \<mapsto> fst (main_text_loop F L E el input arrayName fieldName items (m_Y el) p))"
      unfolding P by simp
    have 2: "m_Method el \<noteq> ''MultiCell''
             \<longrightarrow> snd (main_processElement F L E (p, lastY) el input)
                 = lastY(arrayName \<mapsto>
                     foldl (\<lambda>y item. add64 F y (add64 F (m_Height el) 2)) (m_Y el) items)"
    proof
      assume c: "m_Method el \<noteq> ''MultiCell''"
      show "snd (main_processElement F L E (p, lastY) el input)
                 = lastY(arrayName \<mapsto>
                     foldl (\<lambda>y item. add64 F y (add64 F (m_Height el) 2)) (m_Y el) items)"
        unfolding 1 main_text_loop_cell[OF c] by (rule refl)
    qed
    have 3: "items \<noteq> []
             \<longrightarrow> (\<exists>rest. set_xys (backend_calls (fst (main_processElement F L E (p, lastY) el input)))
                    = set_xys (backend_calls p) @ (m_X el, m_Y el) # rest)"
    proof
      assume n: "items \<noteq> []"
      from main_text_loop_first[OF n, of F L E el input arrayName fieldName "m_Y el" p]
      show "\<exists>rest. set_xys (backend_calls (fst (main_processElement F L E (p, lastY) el input)))
                    = set_xys (backend_calls p) @ (m_X el, m_Y el) # rest"
        unfolding P by simp
    qed
    from 1 2 3 show "snd (main_processElement F L E (p, lastY) el input)
          = lastY(arrayName \<mapsto> fst (main_text_loop F L E el input arrayName fieldName items (m_Y el) p))
        \<and> (m_Method el \<noteq> ''MultiCell''
             \<longrightarrow> snd (main_processElement F L E (p, lastY) el input)
                 = lastY(arrayName \<mapsto>
                     foldl (\<lambda>y item. add64 F y (add64 F (m_Height el) 2)) (m_Y el) items))
        \<and> (items \<noteq> []
             \<longrightarrow> (\<exists>rest. set_xys (backend_calls (fst (main_processElement F L E (p, lastY) el input)))
                    = set_xys (backend_calls p) @ (m_X el, m_Y el) # rest))" by blast
  qed
next
  show "m_Type el = ''box'' \<and> main_loop_target el input = Loop arrayName fieldName items
    \<longrightarrow> snd (main_processElement F L E (p, lastY) el input)
          = lastY(arrayName \<mapsto>
              foldl (\<lambda>y item. if has_field fieldName item
                                then add64 F (div64 F (math_Round (mul64 F y 10)) 10) (m_Height el)
                                else y) (m_Y el) items)
        \<and> (filter (has_field fieldName) items \<noteq> []
             \<longrightarrow> (\<exists>rest. set_xys (backend_calls (fst (main_processElement F L E (p, lastY) el input)))
                    = set_xys (backend_calls p)
                      @ (m_X el, div64 F (math_Round (mul64 F (m_Y el) 10)) 10) # rest))"
  proof (intro impI)
    assume a: "m_Type el = ''box'' \<and> main_loop_target el input = Loop arrayName fieldName items"
    from main_processElement_box_loop[of el input arrayName fieldName items p F L E lastY] a
    obtain p' where x: "set_xys (backend_calls p') = set_xys (backend_calls p)"
      and P: "main_processElement F L E (p, lastY) el input =
               (snd (main_box_loop F L E el fieldName items (m_Y el) p'),
                lastY(arrayName \<mapsto> fst (main_box_loop F L E el fieldName items (m_Y el) p')))"
      by blast
    have 1: "snd (main_processElement F L E (p, lastY) el input)
          = lastY(arrayName \<mapsto>
              foldl (\<lambda>y item. if has_field fieldName item
                                then add64 F (div64 F (math_Round (mul64 F y 10)) 10) (m_Height el)
                                else y) (m_Y el) items)"
      unfolding P main_box_loop_y by simp
    have 2: "filter (has_field fieldName) items \<noteq> []
             \<longrightarrow> (\<exists>rest. set_xys (backend_calls (fst (main_processElement F L E (p, lastY) el input)))
                    = set_xys (backend_calls p)
                      @ (m_X el, div64 F (math_Round (mul64 F (m_Y el) 10)) 10) # rest)"
    proof
      assume n: "filter (has_field fieldName) items \<noteq> []"
      from main_box_loop_first[OF n, of F L E el "m_Y el" p']
      show "\<exists>rest. set_xys (backend_calls (fst (main_processElement F L E (p, lastY) el input)))
                    = set_xys (backend_calls p)
                      @ (m_X el, div64 F (math_Round (mul64 F (m_Y el) 10)) 10) # rest"
        unfolding P x by simp
    qed
    from 1 2 show "snd (main_processElement F L E (p, lastY) el input)
          = lastY(arrayName \<mapsto>
              foldl (\<lambda>y item. if has_field fieldName item
                                then add64 F (div64 F (math_Round (mul64 F y 10)) 10) (m_Height el)
                                else y) (m_Y el) items)
        \<and> (filter (has_field fieldName) items \<noteq> []
             \<longrightarrow> (\<exists>rest. set_xys (backend_calls (fst (main_processElement F L E (p, lastY) el input)))
                    = set_xys (backend_calls p)
                      @ (m_X el, div64 F (math_Round (mul64 F (m_Y el) 10)) 10) # rest))" by blast
  qed
next
  show "fst (main_processElement F L E (p, lastY) el input)
       = fst (main_processElement F L E (p, lastY') el input)"
    by (rule main_processElement_ignores_ledger)
next
  show "same_drawing (PDFGenerator_processElement depth L E st element data)
        (PDFGenerator_processElement depth L E (st\<lparr>lastYPositions := lastY'\<rparr>) element data)"
    by (rule processElement_same) simp
qed

theorem ledger_recorded_not_read_witness:
  "m_Type (main_column 100 ''description'') = ''text''
   \<and> main_loop_target (main_column 100 ''description'') loop_data
       = Loop ''items'' ''description''
           [VMap [(''description'', VString ''A'')], VMap [(''description'', VString ''B'')]]
   \<and> m_Method (main_column 100 ''description'') \<noteq> ''MultiCell''
   \<and> [VMap [(''description'', VString ''A'')], VMap [(''description'', VString ''B'')]] \<noteq> []
   \<and> snd (main_processElement exact_ops test_lib test_env (fst main_after_first, snd main_after_first)
          (main_column 100 ''description'') loop_data) ''items'' = Some 74
   \<and> (\<exists>rest. set_xys (backend_calls (fst (main_processElement exact_ops test_lib test_env
          (fst main_after_first, snd main_after_first) (main_column 100 ''description'') loop_data)))
        = set_xys (backend_calls (fst main_after_first)) @ (100, 50) # rest)
   \<and> m_Type (main_grid 100 ''description'') = ''box''
   \<and> main_loop_target (main_grid 100 ''description'') loop_data
       = Loop ''items'' ''description''
           [VMap [(''description'', VString ''A'')], VMap [(''description'', VString ''B'')]]
   \<and> filter (has_field ''description'')
        [VMap [(''description'', VString ''A'')], VMap [(''description'', VString ''B'')]] \<noteq> []
   \<and> snd (main_processElement exact_ops test_lib test_env (fst main_after_first, snd main_after_first)
          (main_grid 100 ''description'') loop_data) ''items'' = Some 70
   \<and> (\<exists>rest. set_xys (backend_calls (fst (main_processElement exact_ops test_lib test_env
          (fst main_after_first, snd main_after_first) (main_grid 100 ''description'') loop_data)))
        = set_xys (backend_calls (fst main_after_first)) @ (100, 50) # rest)
   \<and> snd main_after_first ''items'' = Some 74
   \<and> fst (main_processElement exact_ops test_lib test_env (fst main_after_first, snd main_after_first)
        (main_grid 100 ''description'') loop_data)
       = fst (main_processElement exact_ops test_lib test_env (fst main_after_first, Map.empty)
        (main_grid 100 ''description'') loop_data)"
proof -
  let ?col = "main_column 100 ''description''"
  let ?grid = "main_grid 100 ''description''"
  let ?items = "[VMap [(''description'', VString ''A'')], VMap [(''description'', VString ''B'')]]"
  have h1: "m_Type ?col = ''text''" by code_simp
  have h2: "main_loop_target ?col loop_data = Loop ''items'' ''description'' ?items" by code_simp
  have h3: "m_Method ?col \<noteq> ''MultiCell''" by code_simp
  have h4: "?items \<noteq> []" by simp
  have g1: "m_Type ?grid = ''box''" by code_simp
  have g2: "main_loop_target ?grid loop_data = Loop ''items'' ''description'' ?items" by code_simp
  have g3: "filter (has_field ''description'') ?items \<noteq> []" by code_simp
  have l: "snd main_after_first ''items'' = Some 74" by code_simp
  have c: "m_X ?col = 100" "m_Y ?col = 50" "m_X ?grid = 100"
    "div64 exact_ops (math_Round (mul64 exact_ops (m_Y ?grid) 10)) 10 = 50" by code_simp+
  have f1: "foldl (\<lambda>y item. add64 exact_ops y (add64 exact_ops (m_Height ?col) 2)) (m_Y ?col) ?items = 74"
    by code_simp
  have f2: "foldl (\<lambda>y item. if has_field ''description'' item
                then add64 exact_ops (div64 exact_ops (math_Round (mul64 exact_ops y 10)) 10) (m_Height ?grid)
                else y) (m_Y ?grid) ?items = 70"
    by code_simp
  note T = ledger_recorded_not_read[of ?col loop_data "''items''" "''description''" ?items exact_ops
      test_lib test_env "fst main_after_first" "snd main_after_first" Map.empty 0 fresh_state
      loop_element loop_data]
  note U = ledger_recorded_not_read[of ?grid loop_data "''items''" "''description''" ?items exact_ops
      test_lib test_env "fst main_after_first" "snd main_after_first" Map.empty 0 fresh_state
      loop_element loop_data]
  have a1: "snd (main_processElement exact_ops test_lib test_env (fst main_after_first, snd main_after_first)
          ?col loop_data) ''items'' = Some 74"
  proof -
    from T h1 h2 h3 have "snd (main_processElement exact_ops test_lib test_env
          (fst main_after_first, snd main_after_first) ?col loop_data)
        = (snd main_after_first)(''items'' \<mapsto>
            foldl (\<lambda>y item. add64 exact_ops y (add64 exact_ops (m_Height ?col) 2)) (m_Y ?col) ?items)"
      by blast
    then show ?thesis unfolding f1 by simp
  qed
  have a2: "\<exists>rest. set_xys (backend_calls (fst (main_processElement exact_ops test_lib test_env
          (fst main_after_first, snd main_after_first) ?col loop_data)))
        = set_xys (backend_calls (fst main_after_first)) @ (100, 50) # rest"
  proof -
    from T h1 h2 h4 have "\<exists>rest. set_xys (backend_calls (fst (main_processElement exact_ops test_lib test_env
          (fst main_after_first, snd main_after_first) ?col loop_data)))
        = set_xys (backend_calls (fst main_after_first)) @ (m_X ?col, m_Y ?col) # rest"
      by blast
    then show ?thesis unfolding c .
  qed
  have b1: "snd (main_processElement exact_ops test_lib test_env (fst main_after_first, snd main_after_first)
          ?grid loop_data) ''items'' = Some 70"
  proof -
    from U g1 g2 have "snd (main_processElement exact_ops test_lib test_env
          (fst main_after_first, snd main_after_first) ?grid loop_data)
        = (snd main_after_first)(''items'' \<mapsto>
            foldl (\<lambda>y item. if has_field ''description'' item
                then add64 exact_ops (div64 exact_ops (math_Round (mul64 exact_ops y 10)) 10) (m_Height ?grid)
                else y) (m_Y ?grid) ?items)"
      by blast
    then show ?thesis unfolding f2 by simp
  qed
  have b2: "\<exists>rest. set_xys (backend_calls (fst (main_processElement exact_ops test_lib test_env
          (fst main_after_first, snd main_after_first) ?grid loop_data)))
        = set_xys (backend_calls (fst main_after_first)) @ (100, 50) # rest"
  proof -
    from U g1 g2 g3 have "\<exists>rest. set_xys (backend_calls (fst (main_processElement exact_ops test_lib test_env
          (fst main_after_first, snd main_after_first) ?grid loop_data)))
        = set_xys (backend_calls (fst main_after_first))
          @ (m_X ?grid, div64 exact_ops (math_Round (mul64 exact_ops (m_Y ?grid) 10)) 10) # rest"
      by blast
    then show ?thesis unfolding c .
  qed
  have i: "fst (main_processElement exact_ops test_lib test_env (fst main_after_first, snd main_after_first)
        ?grid loop_data)
       = fst (main_processElement exact_ops test_lib test_env (fst main_after_first, Map.empty)
        ?grid loop_data)"
    using U by blast
  show ?thesis using h1 h2 h3 h4 a1 a2 g1 g2 g3 b1 b2 l i by blast
qed

end
